(* ===== verification/Prelude.thy ===== *)
theory Prelude
  imports Complex_Main
begin

text \<open>
  Shared vocabulary of the development: SQL tables as lists of rows, database
  transactions with rollback, JSON values, and the collections of facts that carry the
  component proofs.

  \<^item> A table is the list of its rows in insertion order. \<open>update_where\<close> is
    \<^verbatim>\<open>UPDATE ... SET ... WHERE\<close>, \<open>next_seq\<close> is
    \<^verbatim>\<open>COALESCE(MAX(seq),0)+1\<close>, \<open>order_by\<close> is \<^verbatim>\<open>ORDER BY\<close>
    (ties in insertion order) and \<open>limit1\<close> is \<^verbatim>\<open>LIMIT 1\<close>.
  \<^item> A transaction body is a function from the database to an error or to a result and
    the new database. \<open>run_tx\<close> is \<^verbatim>\<open>pool.Begin\<close>, the body,
    \<^verbatim>\<open>tx.Commit\<close> and the deferred \<^verbatim>\<open>tx.Rollback\<close>: an error leaves the
    database as it was. Its first argument says whether some database round trip of the
    transaction (Begin, a statement or Commit) failed, which the code answers by
    returning the driver's error after the rollback (\<open>Infra\<close>).
  \<^item> JSON documents are values of \<open>json\<close>; a number is the exact rational value of the
    float64 that \<^verbatim>\<open>encoding/json\<close> decodes, and an object lists its members.
\<close>

section \<open>Collections of facts\<close>

named_theorems table_simps \<open>equations of the table operations\<close>
named_theorems tx_simps \<open>when a transaction succeeds or fails\<close>

type_synonym time = int
type_synonym uuid = string

section \<open>Tables\<close>

definition update_where :: "('r \<Rightarrow> bool) \<Rightarrow> ('r \<Rightarrow> 'r) \<Rightarrow> 'r list \<Rightarrow> 'r list" where
  "update_where P f rows = map (\<lambda>r. if P r then f r else r) rows"

definition rows_affected :: "('r \<Rightarrow> bool) \<Rightarrow> 'r list \<Rightarrow> nat" where
  "rows_affected P rows = length (filter P rows)"

definition exists_row :: "('r \<Rightarrow> bool) \<Rightarrow> 'r list \<Rightarrow> bool" where
  "exists_row P rows = list_ex P rows"

definition next_seq :: "('r \<Rightarrow> bool) \<Rightarrow> ('r \<Rightarrow> nat) \<Rightarrow> 'r list \<Rightarrow> nat" where
  "next_seq P f rows = Suc (fold max (map f (filter P rows)) 0)"

definition order_by :: "('r \<Rightarrow> 'k::linorder) \<Rightarrow> 'r list \<Rightarrow> 'r list" where
  "order_by k rows = sort_key k rows"

definition limit1 :: "'r list \<Rightarrow> 'r option" where
  "limit1 rows = (case rows of [] \<Rightarrow> None | r # _ \<Rightarrow> Some r)"

definition order_by_desc_nulls_first :: "('r \<Rightarrow> int option) \<Rightarrow> 'r list \<Rightarrow> 'r list" where
  "order_by_desc_nulls_first f rows =
     filter (\<lambda>r. f r = None) rows
     @ order_by (\<lambda>r. - the (f r)) (filter (\<lambda>r. f r \<noteq> None) rows)"

definition coalesce :: "'a option \<Rightarrow> 'a option \<Rightarrow> 'a option" where
  "coalesce a b = (case a of None \<Rightarrow> b | Some x \<Rightarrow> Some x)"

section \<open>Transactions\<close>

datatype 'e failure = Infra | Fail 'e

type_synonym ('e, 's, 'a) tx = "'s \<Rightarrow> 'e + 'a \<times> 's"

definition tx_return :: "'a \<Rightarrow> ('e, 's, 'a) tx" where
  "tx_return x s = Inr (x, s)"

definition tx_fail :: "'e \<Rightarrow> ('e, 's, 'a) tx" where
  "tx_fail e s = Inl e"

definition tx_bind :: "('e, 's, 'a) tx \<Rightarrow> ('a \<Rightarrow> ('e, 's, 'b) tx) \<Rightarrow> ('e, 's, 'b) tx" where
  "tx_bind m f s = (case m s of Inl e \<Rightarrow> Inl e | Inr (x, s') \<Rightarrow> f x s')"

definition run_tx :: "bool \<Rightarrow> ('e, 's, 'a) tx \<Rightarrow> 's \<Rightarrow> ('e failure + 'a) \<times> 's" where
  "run_tx fault body s =
     (if fault then (Inl Infra, s)
      else case body s of Inl e \<Rightarrow> (Inl (Fail e), s) | Inr (x, s') \<Rightarrow> (Inr x, s'))"

section \<open>JSON values\<close>

datatype json =
    JNull
  | JBool bool
  | JNum rat
  | JStr string
  | JArr "json list"
  | JObj "(string \<times> json) list"

section \<open>Lemmas on tables\<close>

lemma update_where_Nil [simp, table_simps]: "update_where P f [] = []"
  by (simp add: update_where_def)

lemma update_where_Cons [simp, table_simps]:
  "update_where P f (r # rows) = (if P r then f r else r) # update_where P f rows"
  by (simp add: update_where_def)

lemma update_where_append [simp, table_simps]:
  "update_where P f (xs @ ys) = update_where P f xs @ update_where P f ys"
  by (simp add: update_where_def)

lemma length_update_where [simp]: "length (update_where P f rows) = length rows"
  by (simp add: update_where_def)

lemma set_update_where:
  "set (update_where P f rows) = f ` {r \<in> set rows. P r} \<union> {r \<in> set rows. \<not> P r}"
  by (auto simp: update_where_def)

lemma map_update_where:
  assumes "\<And>r. P r \<Longrightarrow> g (f r) = g r"
  shows "map g (update_where P f rows) = map g rows"
  using assms by (induction rows) auto

lemma filter_update_where:
  assumes "\<And>r. P r \<Longrightarrow> Q (f r) = Q r"
  shows "filter Q (update_where P f rows) = update_where P f (filter Q rows)"
  using assms by (induction rows) auto

lemma filter_update_where_other:
  assumes "\<And>r. P r \<Longrightarrow> \<not> Q r" and "\<And>r. P r \<Longrightarrow> \<not> Q (f r)"
  shows "filter Q (update_where P f rows) = filter Q rows"
  using assms by (induction rows) auto

lemma update_where_none: "(\<And>r. r \<in> set rows \<Longrightarrow> \<not> P r) \<Longrightarrow> update_where P f rows = rows"
  by (induction rows) auto

lemma find_update_where:
  assumes "\<And>r. P r \<Longrightarrow> Q (f r) = Q r"
  shows "find Q (update_where P f rows) =
    map_option (\<lambda>r. if P r then f r else r) (find Q rows)"
  using assms by (induction rows) auto

lemma find_append: "find P (xs @ ys) = (case find P xs of None \<Rightarrow> find P ys | Some x \<Rightarrow> Some x)"
  by (induction xs) auto

lemma find_SomeD: "find P xs = Some x \<Longrightarrow> x \<in> set xs \<and> P x"
  by (induction xs) (auto split: if_splits)

lemma find_distinct_key:
  assumes "distinct (map k rows)" and "r \<in> set rows"
  shows "find (\<lambda>x. k x = k r) rows = Some r"
  using assms by (induction rows) (auto simp: rev_image_eqI)

lemma find_key_guard:
  assumes "distinct (map k rows)"
  shows "find (\<lambda>x. k x = i \<and> Q x) rows = Some r \<longleftrightarrow> find (\<lambda>x. k x = i) rows = Some r \<and> Q r"
  using assms
proof (induction rows)
  case (Cons a rows)
  have "find (\<lambda>x. k x = i) rows = Some r \<Longrightarrow> k a \<noteq> i" using Cons.prems by (auto dest!: find_SomeD simp: image_iff)
  moreover have "find (\<lambda>x. k x = i \<and> Q x) rows = Some r \<Longrightarrow> k a \<noteq> i" using Cons.prems by (auto dest!: find_SomeD simp: image_iff)
  ultimately show ?case using Cons by auto
qed simp

lemma find_key_guard_None:
  assumes "distinct (map k rows)" and "find (\<lambda>x. k x = i) rows = Some r"
  shows "find (\<lambda>x. k x = i \<and> Q x) rows = (if Q r then Some r else None)"
proof (cases "find (\<lambda>x. k x = i \<and> Q x) rows")
  case None
  then show ?thesis using find_key_guard [OF assms(1), of i Q r] assms(2) by auto
next
  case (Some x)
  then show ?thesis using find_key_guard [OF assms(1), of i Q x] assms(2) by auto
qed

lemma exists_row_iff [simp]: "exists_row P rows \<longleftrightarrow> (\<exists>r \<in> set rows. P r)"
  by (simp add: exists_row_def list_ex_iff)

lemma exists_row_key: "exists_row (\<lambda>r. k r = x) rows \<longleftrightarrow> x \<in> k ` set rows"
  by (auto simp: image_iff)

lemma fold_max_ge: "(a::nat) \<le> fold max xs a"
proof (induction xs arbitrary: a)
  case (Cons y ys)
  from Cons [of "max y a"] show ?case by simp
qed simp

lemma fold_max_member: "x \<in> set xs \<Longrightarrow> (x::nat) \<le> fold max xs a"
proof (induction xs arbitrary: a)
  case (Cons y ys)
  then show ?case using fold_max_ge [of "max y a" ys] by auto
qed simp

lemma fold_max_upt: "fold max [Suc 0..<Suc n] a = max a n"
  by (induction n arbitrary: a) auto

lemma next_seq_fresh: "r \<in> set rows \<Longrightarrow> P r \<Longrightarrow> f r < next_seq P f rows"
  unfolding next_seq_def using fold_max_member [of "f r" "map f (filter P rows)" 0] by auto

lemma next_seq_gapless:
  "map f (filter P rows) = [Suc 0..<Suc n] \<Longrightarrow> next_seq P f rows = Suc n"
  by (simp add: next_seq_def fold_max_upt del: upt_Suc)

lemma limit1_Some_iff: "limit1 rows = Some r \<longleftrightarrow> (\<exists>rs. rows = r # rs)"
  by (auto simp: limit1_def split: list.splits)

lemma limit1_simps [simp]: "limit1 [] = None" "limit1 (r # rs) = Some r"
  by (simp_all add: limit1_def)

lemma limit1_None_iff [simp]: "limit1 rows = None \<longleftrightarrow> rows = []"
  by (auto simp: limit1_def split: list.splits)

lemma set_order_by [simp]: "set (order_by k rows) = set rows"
  by (simp add: order_by_def)

lemma order_by_Nil_iff [simp]: "order_by k rows = [] \<longleftrightarrow> rows = []"
  by (metis set_order_by set_empty)

lemma limit1_order_by_least:
  assumes "limit1 (order_by k rows) = Some r"
  shows "r \<in> set rows" and "r' \<in> set rows \<Longrightarrow> k r \<le> k r'"
proof -
  obtain rs where eq: "sort_key k rows = r # rs"
    using assms by (auto simp: order_by_def limit1_Some_iff)
  have "set (r # rs) = set rows" and "sorted (map k (r # rs))"
    using eq set_sort [of k rows] sorted_sort_key [of k rows] by simp_all
  then show "r \<in> set rows" and "r' \<in> set rows \<Longrightarrow> k r \<le> k r'" by auto
qed

lemma set_order_by_desc_nulls_first [simp]:
  "set (order_by_desc_nulls_first f rows) = set rows"
  by (auto simp: order_by_desc_nulls_first_def)

lemma coalesce_simps [simp]: "coalesce None b = b" "coalesce (Some x) b = Some x"
  by (simp_all add: coalesce_def)

section \<open>Lemmas on transactions\<close>

lemma tx_return_Inr [simp, tx_simps]: "tx_return x s = Inr r \<longleftrightarrow> r = (x, s)"
  by (auto simp: tx_return_def)

lemma tx_fail_Inr [simp, tx_simps]: "tx_fail e s \<noteq> Inr r"
  by (simp add: tx_fail_def)

lemma tx_bind_Inr [tx_simps]:
  "tx_bind m f s = Inr r \<longleftrightarrow> (\<exists>x s'. m s = Inr (x, s') \<and> f x s' = Inr r)"
  by (auto simp: tx_bind_def split: sum.splits)

lemma tx_bind_Inl [tx_simps]:
  "tx_bind m f s = Inl e \<longleftrightarrow> m s = Inl e \<or> (\<exists>x s'. m s = Inr (x, s') \<and> f x s' = Inl e)"
  by (auto simp: tx_bind_def split: sum.splits)

lemma run_tx_Inr [tx_simps]:
  "run_tx fault body s = (Inr x, s') \<longleftrightarrow> \<not> fault \<and> body s = Inr (x, s')"
  by (auto simp: run_tx_def split: sum.splits)

lemma run_tx_rollback: "fst (run_tx fault body s) = Inl e \<Longrightarrow> snd (run_tx fault body s) = s"
  by (auto simp: run_tx_def split: sum.splits if_splits)

lemma outcome_invariant:
  assumes "I s" and "\<And>e. fst out = Inl e \<Longrightarrow> snd out = s" and "\<And>x s'. out = (Inr x, s') \<Longrightarrow> I s'"
  shows "I (snd out)"
  using assms by (cases out; cases "fst out") auto

lemma run_tx_invariant:
  assumes "I s" and "\<And>x s'. body s = Inr (x, s') \<Longrightarrow> I s'"
  shows "I (snd (run_tx fault body s))"
  using assms by (auto simp: run_tx_def split: sum.splits)

section \<open>Rows that move along a state machine\<close>

text \<open>
  \<open>evolves key st edge rows rows'\<close>: every row of \<open>rows\<close> is still in \<open>rows'\<close>
  under its key, either untouched or moved along one or more edges.
\<close>

definition evolves ::
  "('r \<Rightarrow> 'k) \<Rightarrow> ('r \<Rightarrow> 'st) \<Rightarrow> ('st \<Rightarrow> 'st \<Rightarrow> bool) \<Rightarrow> 'r list \<Rightarrow> 'r list \<Rightarrow> bool" where
  "evolves key st edge rows rows' \<longleftrightarrow>
     (\<forall>k r. find (\<lambda>x. key x = k) rows = Some r \<longrightarrow>
        (\<exists>r'. find (\<lambda>x. key x = k) rows' = Some r' \<and> (r' = r \<or> edge\<^sup>+\<^sup>+ (st r) (st r'))))"

lemma evolves_refl [simp]: "evolves key st edge rows rows"
  by (auto simp: evolves_def)

lemma evolves_trans:
  assumes "evolves key st edge a b" and "evolves key st edge b c"
  shows "evolves key st edge a c"
  unfolding evolves_def
proof (intro allI impI)
  fix k r assume "find (\<lambda>x. key x = k) a = Some r"
  then obtain s where s: "find (\<lambda>x. key x = k) b = Some s" "s = r \<or> edge\<^sup>+\<^sup>+ (st r) (st s)"
    using assms(1) unfolding evolves_def by blast
  then obtain t where "find (\<lambda>x. key x = k) c = Some t" "t = s \<or> edge\<^sup>+\<^sup>+ (st s) (st t)"
    using assms(2) unfolding evolves_def by blast
  with s(2) show "\<exists>r'. find (\<lambda>x. key x = k) c = Some r' \<and> (r' = r \<or> edge\<^sup>+\<^sup>+ (st r) (st r'))"
    using tranclp_trans by metis
qed

lemma evolves_append [simp]: "evolves key st edge rows (rows @ new)"
  by (auto simp: evolves_def find_append)

lemma evolves_update:
  assumes "\<And>r. P r \<Longrightarrow> key (f r) = key r" and "\<And>r. P r \<Longrightarrow> edge (st r) (st (f r))"
  shows "evolves key st edge rows (update_where P f rows)"
  using assms by (auto simp: evolves_def find_update_where)

locale lifecycle =
  fixes table :: "'db \<Rightarrow> 'row list"
    and key :: "'row \<Rightarrow> 'k"
    and st :: "'row \<Rightarrow> 'st"
    and edge :: "'st \<Rightarrow> 'st \<Rightarrow> bool"
    and terminal :: "'st \<Rightarrow> bool"
    and step :: "'db \<Rightarrow> 'db \<Rightarrow> bool"
  assumes step_evolves: "step db db' \<Longrightarrow> evolves key st edge (table db) (table db')"
    and terminal_stuck: "terminal s \<Longrightarrow> \<not> edge s s'"
begin

lemma steps_evolve: "step\<^sup>*\<^sup>* db db' \<Longrightarrow> evolves key st edge (table db) (table db')"
  by (induction rule: rtranclp_induct) (auto intro: evolves_trans step_evolves)

text \<open>A row is never lost, and it only ever moves along the edges.\<close>

lemma row_path:
  assumes "step\<^sup>*\<^sup>* db db'" and "find (\<lambda>x. key x = k) (table db) = Some r"
  obtains r' where "find (\<lambda>x. key x = k) (table db') = Some r'" "edge\<^sup>*\<^sup>* (st r) (st r')"
  using steps_evolve [OF assms(1)] assms(2) unfolding evolves_def
  by (metis rtranclp.rtrancl_refl tranclp_into_rtranclp)

text \<open>A terminal row is the same row for ever: the first terminal writer wins.\<close>

lemma terminal_frozen:
  assumes "step\<^sup>*\<^sup>* db db'" and "find (\<lambda>x. key x = k) (table db) = Some r" and "terminal (st r)"
  shows "find (\<lambda>x. key x = k) (table db') = Some r"
proof -
  have "\<not> edge\<^sup>+\<^sup>+ (st r) s'" for s'
    using terminal_stuck [OF assms(3)] by (metis tranclpD)
  then show ?thesis using steps_evolve [OF assms(1)] assms(2) unfolding evolves_def by metis
qed

end

end
