(* ===== verification/Runtime_Store.thy ===== *)
theory Runtime_Store
  imports Prelude
begin

text \<open>
  The durable turn runtime, \<^verbatim>\<open>src/control-plane/internal/runtime/store.go\<close>: the
  run, step and turn state machines and the append-only event log.

  The state is the record \<open>runtime_db\<close> of the four tables of migration
  \<^verbatim>\<open>000009_runtime.up.sql\<close> (with the columns migration 000016 adds) and the keys of
  \<^verbatim>\<open>identity.identities\<close>, which the runs reference. Each exported
  method is a definition of the same name. A mutating method takes, besides the
  method's own arguments, whether a database round trip failed (\<open>fault\<close>), the
  transaction's \<^verbatim>\<open>now()\<close> and the identifiers \<^verbatim>\<open>gen_random_uuid()\<close>
  hands out; a primary key, foreign key or unique index that an INSERT or UPDATE would
  break is the error \<open>ErrConstraint\<close>, as in the database.
\<close>

section \<open>Data\<close>

datatype RunState = RunPending | RunRunning | RunAwaitingApproval | RunSucceeded | RunFailed | RunAborted

datatype StepState = StepPending | StepRunning | StepSucceeded | StepFailed | StepSkipped

datatype TurnState = TurnPending | TurnRunning | TurnSucceeded | TurnFailed | TurnAborted

datatype EventKind =
    EvTurnStarted | EvModelCallStarted | EvAssistantMessage | EvModelCallFailed
  | EvModelRetryScheduled | EvModelRetryFinished | EvToolCallStarted | EvToolResult
  | EvStepCompletionReported | EvCompactionStarted | EvCompactionFinished | EvError | EvSettled
  | EvStepStarted | EvStepSucceeded | EvStepFailed | EvStepSkipped
  | EvRunStarted | EvRunSucceeded | EvRunFailed | EvRunAborted | EvRunAwaitingApproval | EvRunResumed

datatype AnyState = RunSt RunState | StepSt StepState | TurnSt TurnState

datatype rt_error = ErrNotFound | ErrInvalidTransition AnyState | ErrInvalidReason string | ErrConstraint

record Run =
  run_id :: uuid
  run_kind :: string
  run_definition_key :: "string option"
  run_scope_identity_id :: uuid
  run_session_id :: string
  run_session_dir :: string
  run_trigger :: json
  run_state :: RunState
  run_created_at :: time
  run_updated_at :: time
  run_started_at :: "time option"
  run_finished_at :: "time option"

record Step =
  step_id :: uuid
  step_run_id :: uuid
  step_seq :: int
  step_kind :: string
  step_config :: json
  step_state :: StepState
  step_started_at :: "time option"
  step_finished_at :: "time option"
  step_created_at :: time
  step_updated_at :: time

record Turn =
  turn_id :: uuid
  turn_run_id :: uuid
  turn_step_id :: "uuid option"
  turn_node_execution_id :: "uuid option"
  turn_session_id :: string
  turn_model :: "string option"
  turn_state :: TurnState
  turn_started_at :: "time option"
  turn_settled_at :: "time option"
  turn_created_at :: time
  turn_updated_at :: time

record Event =
  ev_id :: uuid
  ev_run_id :: uuid
  ev_turn_id :: "uuid option"
  ev_step_id :: "uuid option"
  ev_node_execution_id :: "uuid option"
  ev_seq :: nat
  ev_kind :: EventKind
  ev_payload :: json
  ev_ts :: time

record StepInput =
  si_seq :: int
  si_kind :: string
  si_config :: "json option"

record CreateRunInput =
  cri_kind :: string
  cri_definition_key :: string
  cri_scope_identity_id :: uuid
  cri_session_id :: string
  cri_session_dir :: string
  cri_trigger :: "json option"
  cri_steps :: "StepInput list"

record runtime_db =
  identities :: "uuid list"
  runs :: "Run list"
  steps :: "Step list"
  turns :: "Turn list"
  events :: "Event list"

section \<open>Helpers\<close>

definition IsTerminalRun :: "RunState \<Rightarrow> bool" where
  "IsTerminalRun state = (case state of RunSucceeded \<Rightarrow> True | RunFailed \<Rightarrow> True | RunAborted \<Rightarrow> True | _ \<Rightarrow> False)"

definition isTerminal :: "RunState \<Rightarrow> bool" where
  "isTerminal state = IsTerminalRun state"

definition isStepTerminal :: "StepState \<Rightarrow> bool" where
  "isStepTerminal state = (case state of StepSucceeded \<Rightarrow> True | StepFailed \<Rightarrow> True | StepSkipped \<Rightarrow> True | _ \<Rightarrow> False)"

definition turnStateForReason :: "string \<Rightarrow> TurnState option" where
  "turnStateForReason reason =
     (if reason = ''completed'' then Some TurnSucceeded
      else if reason = ''failed'' then Some TurnFailed
      else if reason = ''aborted'' then Some TurnAborted
      else None)"

definition nullable :: "string \<Rightarrow> string option" where
  "nullable s = (if s = [] then None else Some s)"

definition strPtr :: "string option \<Rightarrow> string" where
  "strPtr p = (case p of None \<Rightarrow> [] | Some s \<Rightarrow> s)"

definition jsonB :: "json option \<Rightarrow> json" where
  "jsonB b = (case b of None \<Rightarrow> JObj [] | Some j \<Rightarrow> j)"

definition active_turn_states :: "TurnState list" where
  "active_turn_states = [TurnPending, TurnRunning]"

text \<open>The partial unique indexes \<^verbatim>\<open>idx_run_steps_one_running\<close> and
  \<^verbatim>\<open>idx_turns_one_active_per_session\<close>.\<close>

definition idx_run_steps_one_running :: "Step list \<Rightarrow> bool" where
  "idx_run_steps_one_running ss = distinct (map step_run_id (filter (\<lambda>s. step_state s = StepRunning) ss))"

definition idx_turns_one_active_per_session :: "Turn list \<Rightarrow> bool" where
  "idx_turns_one_active_per_session ts =
     distinct (map turn_session_id (filter (\<lambda>t. turn_state t \<in> set active_turn_states) ts))"

definition find_run :: "uuid \<Rightarrow> 'z runtime_db_scheme \<Rightarrow> Run option" where
  "find_run rid db = find (\<lambda>r. run_id r = rid) (runs db)"

definition find_step :: "uuid \<Rightarrow> 'z runtime_db_scheme \<Rightarrow> Step option" where
  "find_step sid db = find (\<lambda>s. step_id s = sid) (steps db)"

definition find_turn :: "uuid \<Rightarrow> 'z runtime_db_scheme \<Rightarrow> Turn option" where
  "find_turn tid db = find (\<lambda>t. turn_id t = tid) (turns db)"

section \<open>Events\<close>

definition insert_event_ok :: "Event \<Rightarrow> 'z runtime_db_scheme \<Rightarrow> bool" where
  "insert_event_ok e db \<longleftrightarrow>
     \<not> exists_row (\<lambda>x. ev_id x = ev_id e) (events db)
     \<and> exists_row (\<lambda>r. run_id r = ev_run_id e) (runs db)
     \<and> (case ev_turn_id e of None \<Rightarrow> True | Some t \<Rightarrow> exists_row (\<lambda>x. turn_id x = t) (turns db))
     \<and> (case ev_step_id e of None \<Rightarrow> True | Some st \<Rightarrow> exists_row (\<lambda>x. step_id x = st) (steps db))
     \<and> \<not> exists_row (\<lambda>x. ev_run_id x = ev_run_id e \<and> ev_seq x = ev_seq e) (events db)"

definition appendEventTx ::
  "time \<Rightarrow> uuid \<Rightarrow> uuid \<Rightarrow> string \<Rightarrow> string \<Rightarrow> EventKind \<Rightarrow> json option
   \<Rightarrow> (rt_error, 'z runtime_db_scheme, Event) tx" where
  "appendEventTx now eid runID turnID stepID kind payload db =
     (let e = \<lparr>ev_id = eid, ev_run_id = runID, ev_turn_id = nullable turnID,
               ev_step_id = nullable stepID, ev_node_execution_id = None,
               ev_seq = next_seq (\<lambda>x. ev_run_id x = runID) ev_seq (events db),
               ev_kind = kind, ev_payload = jsonB payload, ev_ts = now\<rparr>
      in if insert_event_ok e db then Inr (e, db\<lparr>events := events db @ [e]\<rparr>)
         else Inl ErrConstraint)"

definition AppendEvent ::
  "bool \<Rightarrow> time \<Rightarrow> uuid \<Rightarrow> uuid \<Rightarrow> string \<Rightarrow> string \<Rightarrow> EventKind \<Rightarrow> json option
   \<Rightarrow> 'z runtime_db_scheme \<Rightarrow> (rt_error failure + Event) \<times> 'z runtime_db_scheme" where
  "AppendEvent fault now eid runID turnID stepID kind payload =
     run_tx fault (appendEventTx now eid runID turnID stepID kind payload)"

definition ListEvents :: "uuid \<Rightarrow> 'z runtime_db_scheme \<Rightarrow> Event list" where
  "ListEvents runID db = order_by ev_seq (filter (\<lambda>e. ev_run_id e = runID) (events db))"

definition EventsSince :: "uuid \<Rightarrow> nat \<Rightarrow> 'z runtime_db_scheme \<Rightarrow> Event list" where
  "EventsSince runID after db =
     order_by ev_seq (filter (\<lambda>e. ev_run_id e = runID \<and> after < ev_seq e) (events db))"

definition LastEventSeq :: "uuid \<Rightarrow> 'z runtime_db_scheme \<Rightarrow> nat" where
  "LastEventSeq runID db = fold max (map ev_seq (filter (\<lambda>e. ev_run_id e = runID) (events db))) 0"

section \<open>Runs\<close>

definition pending_step_row :: "time \<Rightarrow> uuid \<Rightarrow> uuid \<Rightarrow> StepInput \<Rightarrow> Step" where
  "pending_step_row now sid rid si =
     \<lparr>step_id = sid, step_run_id = rid, step_seq = si_seq si, step_kind = si_kind si,
      step_config = jsonB (si_config si), step_state = StepPending,
      step_started_at = None, step_finished_at = None,
      step_created_at = now, step_updated_at = now\<rparr>"

definition insert_step ::
  "time \<Rightarrow> uuid \<Rightarrow> uuid \<Rightarrow> StepInput \<Rightarrow> (rt_error, 'z runtime_db_scheme, unit) tx" where
  "insert_step now sid rid si db =
     (if si_kind si = ''agent_task''
         \<and> \<not> exists_row (\<lambda>s. step_id s = sid) (steps db)
         \<and> \<not> exists_row (\<lambda>s. step_run_id s = rid \<and> step_seq s = si_seq si) (steps db)
      then Inr ((), db\<lparr>steps := steps db @ [pending_step_row now sid rid si]\<rparr>)
      else Inl ErrConstraint)"

fun insert_steps ::
  "time \<Rightarrow> uuid \<Rightarrow> (uuid \<times> StepInput) list \<Rightarrow> (rt_error, 'z runtime_db_scheme, unit) tx" where
  "insert_steps now rid [] db = Inr ((), db)"
| "insert_steps now rid ((sid, si) # rest) db =
     (case insert_step now sid rid si db of
        Inl e \<Rightarrow> Inl e
      | Inr (_, db') \<Rightarrow> insert_steps now rid rest db')"

text \<open>\<open>sids i\<close> is the identifier the database generates for the \<open>i\<close>-th inserted step.\<close>

definition CreateRun ::
  "bool \<Rightarrow> time \<Rightarrow> uuid \<Rightarrow> (nat \<Rightarrow> uuid) \<Rightarrow> CreateRunInput
   \<Rightarrow> 'z runtime_db_scheme \<Rightarrow> (rt_error failure + Run) \<times> 'z runtime_db_scheme" where
  "CreateRun fault now rid sids inp = run_tx fault (\<lambda>db.
     let r = \<lparr>run_id = rid, run_kind = cri_kind inp,
              run_definition_key = nullable (cri_definition_key inp),
              run_scope_identity_id = cri_scope_identity_id inp,
              run_session_id = cri_session_id inp, run_session_dir = cri_session_dir inp,
              run_trigger = jsonB (cri_trigger inp), run_state = RunPending,
              run_created_at = now, run_updated_at = now,
              run_started_at = None, run_finished_at = None\<rparr>
     in if run_kind r \<in> {''chat'', ''workflow''}
           \<and> run_scope_identity_id r \<in> set (identities db)
           \<and> \<not> exists_row (\<lambda>x. run_id x = rid) (runs db)
        then (case insert_steps now rid (zip (map sids [0..<length (cri_steps inp)]) (cri_steps inp)) (db\<lparr>runs := runs db @ [r]\<rparr>) of
                Inl e \<Rightarrow> Inl e
              | Inr (_, db') \<Rightarrow> Inr (r, db'))
        else Inl ErrConstraint)"

definition GetRun :: "uuid \<Rightarrow> 'z runtime_db_scheme \<Rightarrow> rt_error + Run" where
  "GetRun rid db = (case find_run rid db of None \<Rightarrow> Inl ErrNotFound | Some r \<Rightarrow> Inr r)"

definition ListRunsByState :: "RunState \<Rightarrow> 'z runtime_db_scheme \<Rightarrow> Run list" where
  "ListRunsByState state db = order_by run_created_at (filter (\<lambda>r. run_state r = state) (runs db))"

definition runTransitionErr :: "uuid \<Rightarrow> 'z runtime_db_scheme \<Rightarrow> rt_error" where
  "runTransitionErr rid db =
     (case find_run rid db of
        None \<Rightarrow> ErrNotFound
      | Some r \<Rightarrow> ErrInvalidTransition (RunSt (run_state r)))"

definition transition_run_row :: "time \<Rightarrow> RunState \<Rightarrow> Run \<Rightarrow> Run" where
  "transition_run_row now to r =
     r\<lparr>run_state := to,
       run_started_at := coalesce (run_started_at r) (if to = RunRunning then Some now else None),
       run_finished_at := (if isTerminal to then Some now else None),
       run_updated_at := now\<rparr>"

definition transitionRun ::
  "bool \<Rightarrow> time \<Rightarrow> uuid \<Rightarrow> uuid \<Rightarrow> RunState list \<Rightarrow> RunState \<Rightarrow> EventKind \<Rightarrow> json option
   \<Rightarrow> 'z runtime_db_scheme \<Rightarrow> (rt_error failure + Run) \<times> 'z runtime_db_scheme" where
  "transitionRun fault now eid rid from to eventKind payload = run_tx fault (\<lambda>db.
     let hit = (\<lambda>r. run_id r = rid \<and> run_state r \<in> set from)
     in case find hit (runs db) of
          None \<Rightarrow> Inl (runTransitionErr rid db)
        | Some r \<Rightarrow>
            (case appendEventTx now eid (run_id r) [] [] eventKind payload
                    (db\<lparr>runs := update_where hit (transition_run_row now to) (runs db)\<rparr>) of
               Inl e \<Rightarrow> Inl e
             | Inr (_, db') \<Rightarrow> Inr (transition_run_row now to r, db')))"

definition StartRun where
  "StartRun fault now eid rid = transitionRun fault now eid rid [RunPending] RunRunning EvRunStarted None"

definition SucceedRun where
  "SucceedRun fault now eid rid = transitionRun fault now eid rid [RunRunning] RunSucceeded EvRunSucceeded None"

definition FailRun where
  "FailRun fault now eid rid =
     transitionRun fault now eid rid [RunRunning, RunAwaitingApproval] RunFailed EvRunFailed None"

definition AbortRun where
  "AbortRun fault now eid rid =
     transitionRun fault now eid rid [RunRunning, RunAwaitingApproval] RunAborted EvRunAborted None"

definition AwaitApproval where
  "AwaitApproval fault now eid rid =
     transitionRun fault now eid rid [RunRunning] RunAwaitingApproval EvRunAwaitingApproval None"

definition ResumeFromApproval where
  "ResumeFromApproval fault now eid rid =
     transitionRun fault now eid rid [RunAwaitingApproval] RunRunning EvRunResumed None"

section \<open>Steps\<close>

definition ListSteps :: "uuid \<Rightarrow> 'z runtime_db_scheme \<Rightarrow> Step list" where
  "ListSteps runID db = order_by step_seq (filter (\<lambda>s. step_run_id s = runID) (steps db))"

definition GetStep :: "uuid \<Rightarrow> 'z runtime_db_scheme \<Rightarrow> rt_error + Step" where
  "GetStep sid db = (case find_step sid db of None \<Rightarrow> Inl ErrNotFound | Some s \<Rightarrow> Inr s)"

definition pending_steps :: "uuid \<Rightarrow> 'z runtime_db_scheme \<Rightarrow> Step list" where
  "pending_steps runID db =
     order_by step_seq (filter (\<lambda>s. step_run_id s = runID \<and> step_state s = StepPending) (steps db))"

definition NextPendingStep :: "uuid \<Rightarrow> 'z runtime_db_scheme \<Rightarrow> rt_error + Step" where
  "NextPendingStep runID db =
     (case limit1 (pending_steps runID db) of None \<Rightarrow> Inl ErrNotFound | Some s \<Rightarrow> Inr s)"

definition stepTransitionErr :: "uuid \<Rightarrow> 'z runtime_db_scheme \<Rightarrow> rt_error" where
  "stepTransitionErr sid db =
     (case find_step sid db of
        None \<Rightarrow> ErrNotFound
      | Some s \<Rightarrow> ErrInvalidTransition (StepSt (step_state s)))"

definition transition_step_row :: "time \<Rightarrow> StepState \<Rightarrow> Step \<Rightarrow> Step" where
  "transition_step_row now to s =
     s\<lparr>step_state := to,
       step_started_at := coalesce (step_started_at s) (if to = StepRunning then Some now else None),
       step_finished_at := (if isStepTerminal to then Some now else None),
       step_updated_at := now\<rparr>"

definition transitionStep ::
  "bool \<Rightarrow> time \<Rightarrow> uuid \<Rightarrow> uuid \<Rightarrow> StepState list \<Rightarrow> StepState \<Rightarrow> EventKind \<Rightarrow> json option
   \<Rightarrow> 'z runtime_db_scheme \<Rightarrow> (rt_error failure + Step) \<times> 'z runtime_db_scheme" where
  "transitionStep fault now eid sid from to eventKind payload = run_tx fault (\<lambda>db.
     let hit = (\<lambda>s. step_id s = sid \<and> step_state s \<in> set from);
         steps' = update_where hit (transition_step_row now to) (steps db)
     in case find hit (steps db) of
          None \<Rightarrow> Inl (stepTransitionErr sid db)
        | Some s \<Rightarrow>
            if \<not> idx_run_steps_one_running steps' then Inl ErrConstraint
            else (case appendEventTx now eid (step_run_id s) [] (step_id s) eventKind payload
                         (db\<lparr>steps := steps'\<rparr>) of
                    Inl e \<Rightarrow> Inl e
                  | Inr (_, db') \<Rightarrow> Inr (transition_step_row now to s, db')))"

definition StartStep where
  "StartStep fault now eid sid = transitionStep fault now eid sid [StepPending] StepRunning EvStepStarted None"

definition SucceedStep where
  "SucceedStep fault now eid sid = transitionStep fault now eid sid [StepRunning] StepSucceeded EvStepSucceeded None"

definition FailStep where
  "FailStep fault now eid sid = transitionStep fault now eid sid [StepRunning] StepFailed EvStepFailed None"

definition SkipStep where
  "SkipStep fault now eid sid = transitionStep fault now eid sid [StepPending] StepSkipped EvStepSkipped None"

section \<open>Turns\<close>

definition insert_turn_ok :: "Turn \<Rightarrow> 'z runtime_db_scheme \<Rightarrow> bool" where
  "insert_turn_ok t db \<longleftrightarrow>
     \<not> exists_row (\<lambda>x. turn_id x = turn_id t) (turns db)
     \<and> exists_row (\<lambda>r. run_id r = turn_run_id t) (runs db)
     \<and> (case turn_step_id t of None \<Rightarrow> True | Some st \<Rightarrow> exists_row (\<lambda>x. step_id x = st) (steps db))
     \<and> (case turn_node_execution_id t of
          None \<Rightarrow> True
        | Some n \<Rightarrow> \<not> exists_row (\<lambda>x. turn_node_execution_id x = Some n) (turns db))
     \<and> idx_turns_one_active_per_session (turns db @ [t])"

definition StartTurn ::
  "bool \<Rightarrow> time \<Rightarrow> uuid \<Rightarrow> uuid \<Rightarrow> uuid \<Rightarrow> string \<Rightarrow> string
   \<Rightarrow> 'z runtime_db_scheme \<Rightarrow> (rt_error failure + Turn) \<times> 'z runtime_db_scheme" where
  "StartTurn fault now tid eid runID stepID model = run_tx fault (\<lambda>db.
     case find_run runID db of
       None \<Rightarrow> Inl ErrNotFound
     | Some r \<Rightarrow>
         let t = \<lparr>turn_id = tid, turn_run_id = runID, turn_step_id = nullable stepID,
                  turn_node_execution_id = None, turn_session_id = run_session_id r,
                  turn_model = nullable model, turn_state = TurnRunning,
                  turn_started_at = None, turn_settled_at = None,
                  turn_created_at = now, turn_updated_at = now\<rparr>
         in if \<not> insert_turn_ok t db then Inl ErrConstraint
            else (case appendEventTx now eid runID tid stepID EvTurnStarted
                         (Some (JObj [(''model'', JStr model)])) (db\<lparr>turns := turns db @ [t]\<rparr>) of
                    Inl e \<Rightarrow> Inl e
                  | Inr (_, db') \<Rightarrow> Inr (t, db')))"

definition turnTransitionErr :: "uuid \<Rightarrow> 'z runtime_db_scheme \<Rightarrow> rt_error" where
  "turnTransitionErr tid db =
     (case find_turn tid db of
        None \<Rightarrow> ErrNotFound
      | Some t \<Rightarrow> ErrInvalidTransition (TurnSt (turn_state t)))"

definition settle_turn_row :: "time \<Rightarrow> TurnState \<Rightarrow> Turn \<Rightarrow> Turn" where
  "settle_turn_row now to t = t\<lparr>turn_state := to, turn_settled_at := Some now, turn_updated_at := now\<rparr>"

definition settled_payload :: "string \<Rightarrow> int \<Rightarrow> json" where
  "settled_payload reason messageCount =
     JObj [(''message_count'', JNum (of_int messageCount)), (''reason'', JStr reason)]"

text \<open>The compare-and-set on the turn row and its \<^verbatim>\<open>settled\<close> event, which
  \<^verbatim>\<open>SettleTurn\<close> and \<^verbatim>\<open>SettleTurnAndAdvance\<close> share.\<close>

definition settle_turn_cas ::
  "time \<Rightarrow> uuid \<Rightarrow> uuid \<Rightarrow> TurnState \<Rightarrow> string \<Rightarrow> int \<Rightarrow> (rt_error, 'z runtime_db_scheme, Turn) tx" where
  "settle_turn_cas now eid tid to reason messageCount db =
     (let hit = (\<lambda>t. turn_id t = tid \<and> turn_state t = TurnRunning)
      in case find hit (turns db) of
           None \<Rightarrow> Inl (turnTransitionErr tid db)
         | Some t \<Rightarrow>
             (case appendEventTx now eid (turn_run_id t) (turn_id t) (strPtr (turn_step_id t)) EvSettled
                     (Some (settled_payload reason messageCount))
                     (db\<lparr>turns := update_where hit (settle_turn_row now to) (turns db)\<rparr>) of
                Inl e \<Rightarrow> Inl e
              | Inr (_, db') \<Rightarrow> Inr (settle_turn_row now to t, db')))"

definition SettleTurn ::
  "bool \<Rightarrow> time \<Rightarrow> uuid \<Rightarrow> uuid \<Rightarrow> string \<Rightarrow> int
   \<Rightarrow> 'z runtime_db_scheme \<Rightarrow> (rt_error failure + Turn) \<times> 'z runtime_db_scheme" where
  "SettleTurn fault now eid tid reason messageCount db =
     (case turnStateForReason reason of
        None \<Rightarrow> (Inl (Fail (ErrInvalidReason reason)), db)
      | Some to \<Rightarrow> run_tx fault (settle_turn_cas now eid tid to reason messageCount) db)"

definition finish_run_where ::
  "time \<Rightarrow> uuid \<Rightarrow> RunState list \<Rightarrow> RunState \<Rightarrow> Run list \<Rightarrow> Run list" where
  "finish_run_where now rid from to =
     update_where (\<lambda>r. run_id r = rid \<and> run_state r \<in> set from)
       (\<lambda>r. r\<lparr>run_state := to, run_finished_at := Some now, run_updated_at := now\<rparr>)"

definition advanceRunAfterSettleTx ::
  "time \<Rightarrow> uuid \<Rightarrow> uuid \<Rightarrow> string \<Rightarrow> (rt_error, 'z runtime_db_scheme, RunState) tx" where
  "advanceRunAfterSettleTx now eid runID reason db =
     (let terminal = (\<lambda>to ev.
            case appendEventTx now eid runID [] [] ev None
                   (db\<lparr>runs := finish_run_where now runID [RunRunning, RunAwaitingApproval] to (runs db)\<rparr>) of
              Inl e \<Rightarrow> Inl e
            | Inr (_, db') \<Rightarrow> Inr (to, db'))
      in if reason = ''aborted'' then terminal RunAborted EvRunAborted
         else if reason = ''failed'' then terminal RunFailed EvRunFailed
         else if reason = ''completed'' then
           (case limit1 (pending_steps runID db) of
              None \<Rightarrow>
                (case appendEventTx now eid runID [] [] EvRunSucceeded None
                        (db\<lparr>runs := finish_run_where now runID [RunRunning] RunSucceeded (runs db)\<rparr>) of
                   Inl e \<Rightarrow> Inl e
                 | Inr (_, db') \<Rightarrow> Inr (RunSucceeded, db'))
            | Some st \<Rightarrow>
                (let steps' = update_where (\<lambda>s. step_id s = step_id st \<and> step_state s = StepPending)
                       (\<lambda>s. s\<lparr>step_state := StepRunning,
                              step_started_at := coalesce (step_started_at s) (Some now),
                              step_updated_at := now\<rparr>) (steps db)
                 in if \<not> idx_run_steps_one_running steps' then Inl ErrConstraint
                    else (case appendEventTx now eid runID [] (step_id st) EvStepStarted None
                                 (db\<lparr>steps := steps'\<rparr>) of
                            Inl e \<Rightarrow> Inl e
                          | Inr (_, db') \<Rightarrow> Inr (RunRunning, db'))))
         else Inr (RunRunning, db))"

definition settle_step_tx ::
  "time \<Rightarrow> uuid \<Rightarrow> uuid \<Rightarrow> uuid option \<Rightarrow> string \<Rightarrow> (rt_error, 'z runtime_db_scheme, unit) tx" where
  "settle_step_tx now eid runID stepID reason db =
     (case stepID of
        None \<Rightarrow> Inr ((), db)
      | Some sid \<Rightarrow>
          if sid = [] then Inr ((), db)
          else let stepTo = (if reason = ''completed'' then StepSucceeded else StepFailed);
                   stepEvent = (if reason = ''completed'' then EvStepSucceeded else EvStepFailed);
                   steps' = update_where (\<lambda>s. step_id s = sid \<and> step_state s = StepRunning)
                     (\<lambda>s. s\<lparr>step_state := stepTo, step_finished_at := Some now, step_updated_at := now\<rparr>)
                     (steps db)
               in case appendEventTx now eid runID [] sid stepEvent None (db\<lparr>steps := steps'\<rparr>) of
                    Inl e \<Rightarrow> Inl e
                  | Inr (_, db') \<Rightarrow> Inr ((), db'))"

definition SettleTurnAndAdvance ::
  "bool \<Rightarrow> time \<Rightarrow> uuid \<Rightarrow> uuid \<Rightarrow> uuid \<Rightarrow> uuid \<Rightarrow> string
   \<Rightarrow> 'z runtime_db_scheme \<Rightarrow> (rt_error failure + RunState) \<times> 'z runtime_db_scheme" where
  "SettleTurnAndAdvance fault now eid1 eid2 eid3 tid reason db =
     (case turnStateForReason reason of
        None \<Rightarrow> (Inl (Fail (ErrInvalidReason reason)), db)
      | Some to \<Rightarrow>
          run_tx fault
            (tx_bind (settle_turn_cas now eid1 tid to reason 0) (\<lambda>t.
             tx_bind (settle_step_tx now eid2 (turn_run_id t) (turn_step_id t) reason) (\<lambda>_.
               advanceRunAfterSettleTx now eid3 (turn_run_id t) reason))) db)"

definition HasTurnForStep :: "uuid \<Rightarrow> 'z runtime_db_scheme \<Rightarrow> bool" where
  "HasTurnForStep sid db = exists_row (\<lambda>t. turn_step_id t = Some sid) (turns db)"

definition ActiveTurn :: "uuid \<Rightarrow> 'z runtime_db_scheme \<Rightarrow> rt_error + Turn" where
  "ActiveTurn runID db =
     (case limit1 (order_by_desc_nulls_first turn_started_at
             (filter (\<lambda>t. turn_run_id t = runID \<and> turn_state t \<in> set active_turn_states) (turns db))) of
        None \<Rightarrow> Inl ErrNotFound
      | Some t \<Rightarrow> Inr t)"

section \<open>The invariant of the tables\<close>

text \<open>
  The keys, the references between the tables, the two partial unique indexes, the
  timestamps that mark a terminal row, and the event log of each run numbered 1, 2, ...
  without a gap.
\<close>

definition IsTerminalTurn :: "TurnState \<Rightarrow> bool" where
  "IsTerminalTurn state = (case state of TurnSucceeded \<Rightarrow> True | TurnFailed \<Rightarrow> True | TurnAborted \<Rightarrow> True | _ \<Rightarrow> False)"

definition run_row_ok :: "Run \<Rightarrow> bool" where
  "run_row_ok r \<longleftrightarrow> (run_finished_at r \<noteq> None \<longleftrightarrow> IsTerminalRun (run_state r))"

definition step_row_ok :: "Step \<Rightarrow> bool" where
  "step_row_ok s \<longleftrightarrow> (step_finished_at s \<noteq> None \<longleftrightarrow> isStepTerminal (step_state s))"

definition turn_row_ok :: "Turn \<Rightarrow> bool" where
  "turn_row_ok t \<longleftrightarrow> (turn_settled_at t \<noteq> None \<longleftrightarrow> IsTerminalTurn (turn_state t))"

definition runs_inv :: "Run list \<Rightarrow> bool" where
  "runs_inv rs \<longleftrightarrow> distinct (map run_id rs) \<and> (\<forall>r \<in> set rs. run_row_ok r)"

definition steps_inv :: "uuid set \<Rightarrow> Step list \<Rightarrow> bool" where
  "steps_inv R ss \<longleftrightarrow>
     distinct (map step_id ss) \<and> distinct (map (\<lambda>s. (step_run_id s, step_seq s)) ss)
     \<and> idx_run_steps_one_running ss
     \<and> (\<forall>s \<in> set ss. step_run_id s \<in> R \<and> step_row_ok s)"

definition turns_inv :: "uuid set \<Rightarrow> uuid set \<Rightarrow> Turn list \<Rightarrow> bool" where
  "turns_inv R S ts \<longleftrightarrow>
     distinct (map turn_id ts) \<and> idx_turns_one_active_per_session ts
     \<and> (\<forall>t \<in> set ts. turn_run_id t \<in> R \<and> set_option (turn_step_id t) \<subseteq> S \<and> turn_row_ok t)"

definition gapless :: "Event list \<Rightarrow> bool" where
  "gapless es \<longleftrightarrow>
     (\<forall>rid. map ev_seq (filter (\<lambda>e. ev_run_id e = rid) es)
            = [Suc 0..<Suc (length (filter (\<lambda>e. ev_run_id e = rid) es))])"

definition events_inv :: "uuid set \<Rightarrow> uuid set \<Rightarrow> uuid set \<Rightarrow> Event list \<Rightarrow> bool" where
  "events_inv R S T es \<longleftrightarrow>
     distinct (map ev_id es) \<and> gapless es
     \<and> (\<forall>e \<in> set es. ev_run_id e \<in> R \<and> set_option (ev_step_id e) \<subseteq> S \<and> set_option (ev_turn_id e) \<subseteq> T)"

definition runtime_inv :: "'z runtime_db_scheme \<Rightarrow> bool" where
  "runtime_inv db \<longleftrightarrow>
     (let R = run_id ` set (runs db); S = step_id ` set (steps db); T = turn_id ` set (turns db)
      in runs_inv (runs db) \<and> steps_inv R (steps db) \<and> turns_inv R S (turns db)
         \<and> events_inv R S T (events db))"

lemmas row_ok_defs = run_row_ok_def step_row_ok_def turn_row_ok_def
  IsTerminalRun_def isStepTerminal_def IsTerminalTurn_def isTerminal_def

section \<open>Preservation by the single table changes\<close>

lemma image_update_where:
  assumes "\<And>r. P r \<Longrightarrow> k (f r) = k r"
  shows "k ` set (update_where P f rows) = k ` set rows"
  using map_update_where [of P k f rows] assms by (metis list.set_map)

lemma gapless_append:
  assumes "gapless es"
    and "ev_seq e = next_seq (\<lambda>x. ev_run_id x = ev_run_id e) ev_seq es"
  shows "gapless (es @ [e])"
proof -
  have "ev_seq e = Suc (length (filter (\<lambda>x. ev_run_id x = ev_run_id e) es))"
    using assms next_seq_gapless unfolding gapless_def by metis
  then show ?thesis using assms(1) by (auto simp: gapless_def)
qed

lemma runs_inv_update:
  assumes "runs_inv rs" and "\<And>r. P r \<Longrightarrow> run_id (f r) = run_id r" and "\<And>r. P r \<Longrightarrow> run_row_ok (f r)"
  shows "runs_inv (update_where P f rs)"
  using assms by (auto simp: runs_inv_def map_update_where set_update_where)

lemma steps_inv_update:
  assumes "steps_inv R ss" and "idx_run_steps_one_running (update_where P f ss)"
    and "\<And>s. P s \<Longrightarrow> step_id (f s) = step_id s \<and> step_run_id (f s) = step_run_id s \<and> step_seq (f s) = step_seq s"
    and "\<And>s. P s \<Longrightarrow> step_row_ok (f s)"
  shows "steps_inv R (update_where P f ss)"
  using assms by (auto simp: steps_inv_def map_update_where set_update_where)

lemma turns_inv_update:
  assumes "turns_inv R S ts" and "idx_turns_one_active_per_session (update_where P f ts)"
    and "\<And>t. P t \<Longrightarrow> turn_id (f t) = turn_id t \<and> turn_run_id (f t) = turn_run_id t \<and> turn_step_id (f t) = turn_step_id t"
    and "\<And>t. P t \<Longrightarrow> turn_row_ok (f t)"
  shows "turns_inv R S (update_where P f ts)"
  using assms by (auto simp: turns_inv_def map_update_where set_update_where)

lemma distinct_filter_update_where:
  assumes "distinct (map k (filter Q rows))" and "\<And>r. P r \<Longrightarrow> \<not> Q (f r)"
  shows "distinct (map k (filter Q (update_where P f rows)))"
  using assms
proof (induction rows)
  case (Cons r rows)
  have "set (filter Q (update_where P f rows)) \<subseteq> set (filter Q rows)"
    using Cons.prems(2) by (auto simp: set_update_where)
  then show ?case using Cons by (auto split: if_splits)
qed simp

lemma idx_steps_leave_running:
  assumes "idx_run_steps_one_running ss" and "\<And>s. P s \<Longrightarrow> step_state (f s) \<noteq> StepRunning"
  shows "idx_run_steps_one_running (update_where P f ss)"
  using distinct_filter_update_where [of step_run_id "\<lambda>s. step_state s = StepRunning" ss P f] assms
  by (simp add: idx_run_steps_one_running_def)

lemma idx_turns_leave_active:
  assumes "idx_turns_one_active_per_session ts" and "\<And>t. P t \<Longrightarrow> turn_state (f t) \<notin> set active_turn_states"
  shows "idx_turns_one_active_per_session (update_where P f ts)"
  using distinct_filter_update_where
    [of turn_session_id "\<lambda>t. turn_state t \<in> set active_turn_states" ts P f] assms
  by (simp add: idx_turns_one_active_per_session_def)

lemma steps_inv_mono: "steps_inv R ss \<Longrightarrow> R \<subseteq> R' \<Longrightarrow> steps_inv R' ss"
  by (auto simp: steps_inv_def)

lemma turns_inv_mono: "turns_inv R S ts \<Longrightarrow> R \<subseteq> R' \<Longrightarrow> S \<subseteq> S' \<Longrightarrow> turns_inv R' S' ts"
  unfolding turns_inv_def by blast

lemma events_inv_mono:
  "events_inv R S T es \<Longrightarrow> R \<subseteq> R' \<Longrightarrow> S \<subseteq> S' \<Longrightarrow> T \<subseteq> T' \<Longrightarrow> events_inv R' S' T' es"
  unfolding events_inv_def by blast

end
