(* ===== verification/Runtime_Lifecycle.thy ===== *)
theory Runtime_Lifecycle
  imports Runtime_Store
begin

text \<open>
  What the operations of \<^verbatim>\<open>Runtime_Store\<close> guarantee: every operation keeps the
  invariant of the tables, a failed operation changes nothing, rows only move along the
  edges of their state machines, terminal rows never change, and the event log of a run is
  gapless and can be resumed from any position.

  The lemmas on one table change are shared through two interfaces: \<open>cas_machine\<close>, a
  row moved by compare-and-set commands, interpreted on runs, steps and turns, and
  \<open>event_log\<close>, a per-run numbered log, interpreted on \<open>appendEventTx\<close>.
\<close>

section \<open>The event log\<close>

locale event_log =
  fixes append :: "'arg \<Rightarrow> 's \<Rightarrow> 'e + 'ev \<times> 's"
    and run_of :: "'arg \<Rightarrow> uuid"
    and log :: "uuid \<Rightarrow> 's \<Rightarrow> 'ev list"
    and seq :: "'ev \<Rightarrow> nat"
  assumes append_log: "append a s = Inr (ev, s') \<Longrightarrow> log (run_of a) s' = log (run_of a) s @ [ev]"
    and append_other: "append a s = Inr (ev, s') \<Longrightarrow> rid \<noteq> run_of a \<Longrightarrow> log rid s' = log rid s"
    and append_seq: "append a s = Inr (ev, s') \<Longrightarrow>
          map seq (log (run_of a) s) = [Suc 0..<Suc n] \<Longrightarrow> seq ev = Suc n"
begin

text \<open>A log whose numbers are 1 to n keeps that shape, and only grows at its end.\<close>

lemma append_gapless:
  assumes "append a s = Inr (ev, s')"
    and "map seq (log rid s) = [Suc 0..<Suc (length (log rid s))]"
  shows "map seq (log rid s') = [Suc 0..<Suc (length (log rid s'))]"
proof (cases "rid = run_of a")
  case True
  then show ?thesis
    using append_log [OF assms(1)] append_seq [OF assms(1)] assms(2) by auto
next
  case False
  then show ?thesis using append_other [OF assms(1)] assms(2) by simp
qed

lemma append_prefix:
  assumes "append a s = Inr (ev, s')"
  shows "\<exists>new. log rid s' = log rid s @ new"
proof (cases "rid = run_of a")
  case True
  then show ?thesis using append_log [OF assms] by blast
next
  case False
  then show ?thesis using append_other [OF assms] by simp
qed

end

lemma appendEventTx_Inr:
  "appendEventTx now eid rid tid sid kind payload db = Inr (e, db') \<longleftrightarrow>
     e = \<lparr>ev_id = eid, ev_run_id = rid, ev_turn_id = nullable tid, ev_step_id = nullable sid,
          ev_node_execution_id = None, ev_seq = next_seq (\<lambda>x. ev_run_id x = rid) ev_seq (events db),
          ev_kind = kind, ev_payload = jsonB payload, ev_ts = now\<rparr>
     \<and> insert_event_ok e db \<and> db' = db\<lparr>events := events db @ [e]\<rparr>"
  by (auto simp: appendEventTx_def Let_def)

lemma appendEventTx_frame:
  assumes "appendEventTx now eid rid tid sid kind payload db = Inr (e, db')"
  shows "identities db' = identities db" "runs db' = runs db" "steps db' = steps db" "turns db' = turns db"
    "events db' = events db @ [e]" "ev_run_id e = rid" "ev_kind e = kind"
  using assms by (simp_all add: appendEventTx_Inr)

definition run_log :: "uuid \<Rightarrow> 'z runtime_db_scheme \<Rightarrow> Event list" where
  "run_log rid db = filter (\<lambda>e. ev_run_id e = rid) (events db)"

interpretation rt_log: event_log
  "\<lambda>(now, eid, rid, tid, sid, kind, payload). appendEventTx now eid rid tid sid kind payload"
  "\<lambda>(now, eid, rid, tid, sid, kind, payload). rid" run_log ev_seq
proof (unfold_locales, goal_cases)
  case (1 a s ev s')
  then show ?case by (cases a) (auto simp: run_log_def appendEventTx_Inr)
next
  case (2 a s ev s' rid)
  then show ?case by (cases a) (auto simp: run_log_def appendEventTx_Inr)
next
  case (3 a s ev s' n)
  then show ?case
    by (cases a) (auto simp: run_log_def appendEventTx_Inr next_seq_gapless simp del: upt_Suc)
qed

lemma insert_event_ok_iff:
  "insert_event_ok e db \<longleftrightarrow>
     ev_id e \<notin> ev_id ` set (events db) \<and> ev_run_id e \<in> run_id ` set (runs db)
     \<and> set_option (ev_turn_id e) \<subseteq> turn_id ` set (turns db)
     \<and> set_option (ev_step_id e) \<subseteq> step_id ` set (steps db)
     \<and> (\<forall>x \<in> set (events db). ev_run_id x = ev_run_id e \<longrightarrow> ev_seq x \<noteq> ev_seq e)"
  unfolding insert_event_ok_def exists_row_key by (auto split: option.splits)

lemma appendEventTx_inv:
  assumes "runtime_inv db" and "appendEventTx now eid rid tid sid kind payload db = Inr (e, db')"
  shows "runtime_inv db'"
proof -
  have e: "insert_event_ok e db" "db' = db\<lparr>events := events db @ [e]\<rparr>"
    "ev_seq e = next_seq (\<lambda>x. ev_run_id x = ev_run_id e) ev_seq (events db)"
    using assms(2) by (auto simp: appendEventTx_Inr)
  have "events_inv (run_id ` set (runs db)) (step_id ` set (steps db)) (turn_id ` set (turns db)) (events db @ [e])"
    using assms(1) e(1) gapless_append [OF _ e(3)]
    by (auto simp: runtime_inv_def Let_def events_inv_def insert_event_ok_iff)
  then show ?thesis using assms(1) e(2) by (simp add: runtime_inv_def Let_def)
qed

section \<open>Successful operations\<close>

lemma transitionRun_okE:
  assumes "transitionRun fault now eid rid from to k p db = (Inr r', db')"
  obtains r e where
    "find (\<lambda>r. run_id r = rid \<and> run_state r \<in> set from) (runs db) = Some r"
    "r' = transition_run_row now to r"
    "appendEventTx now eid rid [] [] k p
       (db\<lparr>runs := update_where (\<lambda>r. run_id r = rid \<and> run_state r \<in> set from)
                     (transition_run_row now to) (runs db)\<rparr>) = Inr (e, db')"
  using assms unfolding transitionRun_def run_tx_Inr Let_def
  by (auto split: option.splits sum.splits dest!: find_SomeD)

lemma transitionStep_okE:
  assumes "transitionStep fault now eid sid from to k p db = (Inr s', db')"
  obtains s e where
    "find (\<lambda>s. step_id s = sid \<and> step_state s \<in> set from) (steps db) = Some s"
    "s' = transition_step_row now to s"
    "idx_run_steps_one_running (update_where (\<lambda>s. step_id s = sid \<and> step_state s \<in> set from)
                     (transition_step_row now to) (steps db))"
    "appendEventTx now eid (step_run_id s) [] sid k p
       (db\<lparr>steps := update_where (\<lambda>s. step_id s = sid \<and> step_state s \<in> set from)
                     (transition_step_row now to) (steps db)\<rparr>) = Inr (e, db')"
  using assms unfolding transitionStep_def run_tx_Inr Let_def
  by (auto split: option.splits sum.splits if_splits dest!: find_SomeD)

lemma settle_turn_cas_okE:
  assumes "settle_turn_cas now eid tid to reason n db = Inr (t', db')"
  obtains t e where
    "find (\<lambda>t. turn_id t = tid \<and> turn_state t = TurnRunning) (turns db) = Some t"
    "t' = settle_turn_row now to t"
    "appendEventTx now eid (turn_run_id t) tid (strPtr (turn_step_id t)) EvSettled
       (Some (settled_payload reason n))
       (db\<lparr>turns := update_where (\<lambda>t. turn_id t = tid \<and> turn_state t = TurnRunning)
                     (settle_turn_row now to) (turns db)\<rparr>) = Inr (e, db')"
  using assms unfolding settle_turn_cas_def Let_def
  by (auto split: option.splits sum.splits dest!: find_SomeD)

section \<open>Every operation keeps the invariant\<close>

lemma runtime_inv_runs_update:
  assumes "runtime_inv db" and "\<And>r. P r \<Longrightarrow> run_id (f r) = run_id r" and "\<And>r. P r \<Longrightarrow> run_row_ok (f r)"
  shows "runtime_inv (db\<lparr>runs := update_where P f (runs db)\<rparr>)"
  using assms runs_inv_update [of "runs db" P f] image_update_where [of P run_id f "runs db"]
  by (simp add: runtime_inv_def Let_def)

lemma runtime_inv_steps_update:
  assumes "runtime_inv db" and "idx_run_steps_one_running (update_where P f (steps db))"
    and "\<And>s. P s \<Longrightarrow> step_id (f s) = step_id s \<and> step_run_id (f s) = step_run_id s \<and> step_seq (f s) = step_seq s"
    and "\<And>s. P s \<Longrightarrow> step_row_ok (f s)"
  shows "runtime_inv (db\<lparr>steps := update_where P f (steps db)\<rparr>)"
  using assms steps_inv_update [of _ "steps db" P f] image_update_where [of P step_id f "steps db"]
  by (simp add: runtime_inv_def Let_def)

lemma runtime_inv_turns_update:
  assumes "runtime_inv db" and "idx_turns_one_active_per_session (update_where P f (turns db))"
    and "\<And>t. P t \<Longrightarrow> turn_id (f t) = turn_id t \<and> turn_run_id (f t) = turn_run_id t \<and> turn_step_id (f t) = turn_step_id t"
    and "\<And>t. P t \<Longrightarrow> turn_row_ok (f t)"
  shows "runtime_inv (db\<lparr>turns := update_where P f (turns db)\<rparr>)"
  using assms turns_inv_update [of _ _ "turns db" P f] image_update_where [of P turn_id f "turns db"]
  by (simp add: runtime_inv_def Let_def)

lemma transition_run_row_simps [simp]:
  "run_id (transition_run_row now to r) = run_id r"
  "run_session_id (transition_run_row now to r) = run_session_id r"
  "run_state (transition_run_row now to r) = to"
  "run_row_ok (transition_run_row now to r)"
  by (simp_all add: transition_run_row_def run_row_ok_def isTerminal_def)

lemma transition_step_row_simps [simp]:
  "step_id (transition_step_row now to s) = step_id s"
  "step_run_id (transition_step_row now to s) = step_run_id s"
  "step_seq (transition_step_row now to s) = step_seq s"
  "step_state (transition_step_row now to s) = to"
  "step_row_ok (transition_step_row now to s)"
  by (simp_all add: transition_step_row_def step_row_ok_def)

lemma settle_turn_row_simps [simp]:
  "turn_id (settle_turn_row now to t) = turn_id t"
  "turn_run_id (settle_turn_row now to t) = turn_run_id t"
  "turn_step_id (settle_turn_row now to t) = turn_step_id t"
  "turn_session_id (settle_turn_row now to t) = turn_session_id t"
  "turn_state (settle_turn_row now to t) = to"
  "turn_settled_at (settle_turn_row now to t) = Some now"
  "turn_row_ok (settle_turn_row now to t) = IsTerminalTurn to"
  by (simp_all add: settle_turn_row_def turn_row_ok_def)

lemma turnStateForReason_terminal: "turnStateForReason reason = Some to \<Longrightarrow> IsTerminalTurn to"
  by (auto simp: turnStateForReason_def IsTerminalTurn_def split: if_splits)

lemma terminal_turn_inactive: "IsTerminalTurn to \<Longrightarrow> to \<notin> set active_turn_states"
  by (auto simp: IsTerminalTurn_def active_turn_states_def)

lemma transitionRun_rollback:
  "fst (transitionRun fault now eid rid from to k p db) = Inl e
   \<Longrightarrow> snd (transitionRun fault now eid rid from to k p db) = db"
  unfolding transitionRun_def by (rule run_tx_rollback)

lemma transitionStep_rollback:
  "fst (transitionStep fault now eid sid from to k p db) = Inl e
   \<Longrightarrow> snd (transitionStep fault now eid sid from to k p db) = db"
  unfolding transitionStep_def by (rule run_tx_rollback)

lemma SettleTurn_rollback:
  "fst (SettleTurn fault now eid tid reason n db) = Inl e
   \<Longrightarrow> snd (SettleTurn fault now eid tid reason n db) = db"
  by (auto simp: SettleTurn_def run_tx_rollback split: option.splits)

lemma SettleTurnAndAdvance_rollback:
  "fst (SettleTurnAndAdvance fault now e1 e2 e3 tid reason db) = Inl e
   \<Longrightarrow> snd (SettleTurnAndAdvance fault now e1 e2 e3 tid reason db) = db"
  by (auto simp: SettleTurnAndAdvance_def run_tx_rollback split: option.splits)

lemma transitionRun_inv:
  assumes "runtime_inv db" shows "runtime_inv (snd (transitionRun fault now eid rid from to k p db))"
proof (rule outcome_invariant [where I = runtime_inv, OF assms transitionRun_rollback])
  fix r' db' assume "transitionRun fault now eid rid from to k p db = (Inr r', db')"
  then obtain e where "appendEventTx now eid rid [] [] k p
       (db\<lparr>runs := update_where (\<lambda>r. run_id r = rid \<and> run_state r \<in> set from)
                     (transition_run_row now to) (runs db)\<rparr>) = Inr (e, db')"
    by (rule transitionRun_okE)
  then show "runtime_inv db'"
    by (rule appendEventTx_inv [rotated]) (rule runtime_inv_runs_update [OF assms]; simp)
qed

lemma transitionStep_inv:
  assumes "runtime_inv db" shows "runtime_inv (snd (transitionStep fault now eid sid from to k p db))"
proof (rule outcome_invariant [where I = runtime_inv, OF assms transitionStep_rollback])
  fix s' db' assume "transitionStep fault now eid sid from to k p db = (Inr s', db')"
  then show "runtime_inv db'"
    by (rule transitionStep_okE)
       (erule appendEventTx_inv [rotated], rule runtime_inv_steps_update [OF assms]; simp)
qed

lemma settle_turn_cas_inv:
  assumes "runtime_inv db" and "IsTerminalTurn to" and "settle_turn_cas now eid tid to reason n db = Inr (t, db')"
  shows "runtime_inv db'"
  using assms(3)
proof (rule settle_turn_cas_okE)
  have "idx_turns_one_active_per_session (turns db)"
    using assms(1) by (simp add: runtime_inv_def Let_def turns_inv_def)
  then have "idx_turns_one_active_per_session (update_where (\<lambda>t. turn_id t = tid \<and> turn_state t = TurnRunning)
               (settle_turn_row now to) (turns db))"
    by (rule idx_turns_leave_active) (simp add: terminal_turn_inactive [OF assms(2)])
  then have "runtime_inv (db\<lparr>turns := update_where (\<lambda>t. turn_id t = tid \<and> turn_state t = TurnRunning)
               (settle_turn_row now to) (turns db)\<rparr>)"
    by (rule runtime_inv_turns_update [OF assms(1)]) (use assms(2) in simp_all)
  then show ?thesis if "appendEventTx now eid (turn_run_id u) tid (strPtr (turn_step_id u)) EvSettled
       (Some (settled_payload reason n))
       (db\<lparr>turns := update_where (\<lambda>t. turn_id t = tid \<and> turn_state t = TurnRunning)
                     (settle_turn_row now to) (turns db)\<rparr>) = Inr (e, db')" for u e
    using that appendEventTx_inv by blast
qed

lemma SettleTurn_inv:
  assumes "runtime_inv db" shows "runtime_inv (snd (SettleTurn fault now eid tid reason n db))"
proof (rule outcome_invariant [where I = runtime_inv, OF assms SettleTurn_rollback])
  fix t db' assume "SettleTurn fault now eid tid reason n db = (Inr t, db')"
  then obtain to where "turnStateForReason reason = Some to"
    and "settle_turn_cas now eid tid to reason n db = Inr (t, db')"
    by (auto simp: SettleTurn_def run_tx_Inr split: option.splits)
  then show "runtime_inv db'"
    using settle_turn_cas_inv [OF assms] turnStateForReason_terminal by blast
qed

definition settle_step_row :: "time \<Rightarrow> StepState \<Rightarrow> Step \<Rightarrow> Step" where
  "settle_step_row now to s = s\<lparr>step_state := to, step_finished_at := Some now, step_updated_at := now\<rparr>"

definition start_step_row :: "time \<Rightarrow> Step \<Rightarrow> Step" where
  "start_step_row now s =
     s\<lparr>step_state := StepRunning, step_started_at := coalesce (step_started_at s) (Some now), step_updated_at := now\<rparr>"

lemma settle_step_tx_okE:
  assumes "settle_step_tx now eid rid st reason db = Inr (u, db')"
  obtains (none) "st = None \<or> st = Some []" "db' = db"
  | (step) sid to ev where "st = Some sid" "sid \<noteq> []"
    "to = (if reason = ''completed'' then StepSucceeded else StepFailed)"
    "ev = (if reason = ''completed'' then EvStepSucceeded else EvStepFailed)"
    "\<exists>e. appendEventTx now eid rid [] sid ev None
       (db\<lparr>steps := update_where (\<lambda>s. step_id s = sid \<and> step_state s = StepRunning)
                      (settle_step_row now to) (steps db)\<rparr>) = Inr (e, db')"
proof (cases "st = None \<or> st = Some []")
  case True
  then show ?thesis using assms none by (auto simp: settle_step_tx_def)
next
  case False
  then obtain sid where sid: "st = Some sid" "sid \<noteq> []" by auto
  show ?thesis
    by (rule step [OF sid refl refl])
       (use assms sid in \<open>auto simp: settle_step_tx_def Let_def settle_step_row_def [abs_def] split: sum.splits\<close>)
qed

lemma settle_step_tx_inv:
  assumes "runtime_inv db" and "settle_step_tx now eid rid st reason db = Inr (u, db')"
  shows "runtime_inv db'"
  using assms(2)
proof (cases rule: settle_step_tx_okE)
  case (step sid to ev)
  have "idx_run_steps_one_running (steps db)"
    using assms(1) by (simp add: runtime_inv_def Let_def steps_inv_def)
  then have "idx_run_steps_one_running (update_where (\<lambda>s. step_id s = sid \<and> step_state s = StepRunning)
               (settle_step_row now to) (steps db))"
    by (rule idx_steps_leave_running) (simp add: settle_step_row_def step(3))
  from runtime_inv_steps_update [OF assms(1) this] show ?thesis
    using step(3,5) appendEventTx_inv
    by (force simp: settle_step_row_def step_row_ok_def isStepTerminal_def)
qed (use assms(1) in simp)

lemma advanceRunAfterSettleTx_okE:
  assumes "advanceRunAfterSettleTx now eid rid reason db = Inr (st, db')"
  obtains (finish) frm ev where "(reason, st, frm, ev) \<in>
      {(''aborted'', RunAborted, [RunRunning, RunAwaitingApproval], EvRunAborted),
       (''failed'', RunFailed, [RunRunning, RunAwaitingApproval], EvRunFailed),
       (''completed'', RunSucceeded, [RunRunning], EvRunSucceeded)}"
    "reason = ''completed'' \<longrightarrow> pending_steps rid db = []"
    "\<exists>e. appendEventTx now eid rid [] [] ev None
       (db\<lparr>runs := finish_run_where now rid frm st (runs db)\<rparr>) = Inr (e, db')"
  | (next_step) s where "reason = ''completed''" "st = RunRunning"
    "limit1 (pending_steps rid db) = Some s"
    "idx_run_steps_one_running (update_where (\<lambda>x. step_id x = step_id s \<and> step_state x = StepPending)
       (start_step_row now) (steps db))"
    "\<exists>e. appendEventTx now eid rid [] (step_id s) EvStepStarted None
       (db\<lparr>steps := update_where (\<lambda>x. step_id x = step_id s \<and> step_state x = StepPending)
                      (start_step_row now) (steps db)\<rparr>) = Inr (e, db')"
  | (other) "reason \<notin> {''aborted'', ''failed'', ''completed''}" "st = RunRunning" "db' = db"
proof -
  consider "reason = ''aborted''" | "reason = ''failed''" | "reason = ''completed''"
    | "reason \<notin> {''aborted'', ''failed'', ''completed''}" by blast
  then show ?thesis
  proof cases
    case 1
    then show ?thesis using assms
      by (intro finish [of "[RunRunning, RunAwaitingApproval]" EvRunAborted])
         (auto simp: advanceRunAfterSettleTx_def Let_def split: sum.splits)
  next
    case 2
    then show ?thesis using assms
      by (intro finish [of "[RunRunning, RunAwaitingApproval]" EvRunFailed])
         (auto simp: advanceRunAfterSettleTx_def Let_def split: sum.splits)
  next
    case 3
    show ?thesis
    proof (cases "limit1 (pending_steps rid db)")
      case None
      then show ?thesis using assms 3
        by (intro finish [of "[RunRunning]" EvRunSucceeded])
           (auto simp: advanceRunAfterSettleTx_def Let_def split: sum.splits)
    next
      case (Some s)
      then show ?thesis using assms 3
        by (intro next_step [of s])
           (auto simp: advanceRunAfterSettleTx_def Let_def start_step_row_def [abs_def]
             split: sum.splits if_splits)
    qed
  next
    case 4
    then show ?thesis using assms other by (simp add: advanceRunAfterSettleTx_def Let_def)
  qed
qed

lemma finish_run_where_inv:
  assumes "runtime_inv db" and "IsTerminalRun to"
  shows "runtime_inv (db\<lparr>runs := finish_run_where now rid frm to (runs db)\<rparr>)"
  unfolding finish_run_where_def
  by (rule runtime_inv_runs_update [OF assms(1)]) (use assms(2) in \<open>auto simp: run_row_ok_def\<close>)

lemma start_step_row_inv:
  assumes "runtime_inv db"
    and "idx_run_steps_one_running (update_where (\<lambda>x. step_id x = sid \<and> step_state x = StepPending)
           (start_step_row now) (steps db))"
  shows "runtime_inv (db\<lparr>steps := update_where (\<lambda>x. step_id x = sid \<and> step_state x = StepPending)
           (start_step_row now) (steps db)\<rparr>)"
proof -
  let ?P = "\<lambda>x. x \<in> set (steps db) \<and> step_id x = sid \<and> step_state x = StepPending"
  have eq: "update_where (\<lambda>x. step_id x = sid \<and> step_state x = StepPending) (start_step_row now) (steps db)
        = update_where ?P (start_step_row now) (steps db)"
    by (auto simp: update_where_def)
  have "\<forall>s \<in> set (steps db). step_row_ok s"
    using assms(1) by (simp add: runtime_inv_def Let_def steps_inv_def)
  then have "?P s \<Longrightarrow> step_row_ok (start_step_row now s)" for s
    by (auto simp: start_step_row_def step_row_ok_def isStepTerminal_def)
  then show ?thesis unfolding eq
    by (intro runtime_inv_steps_update [OF assms(1) assms(2) [unfolded eq]]) (auto simp: start_step_row_def)
qed

lemma advanceRunAfterSettleTx_inv:
  assumes "runtime_inv db" and "advanceRunAfterSettleTx now eid rid reason db = Inr (st, db')"
  shows "runtime_inv db'"
  using assms(2)
proof (cases rule: advanceRunAfterSettleTx_okE)
  case (finish frm ev)
  then have "IsTerminalRun st" by (auto simp: IsTerminalRun_def)
  then show ?thesis using finish(3) appendEventTx_inv finish_run_where_inv [OF assms(1)] by blast
next
  case (next_step s)
  then show ?thesis using appendEventTx_inv start_step_row_inv [OF assms(1)] by blast
next
  case other
  then show ?thesis using assms(1) by simp
qed

text \<open>The transaction of \<^verbatim>\<open>SettleTurnAndAdvance\<close>, taken apart.\<close>

lemma SettleTurnAndAdvance_okE:
  assumes "SettleTurnAndAdvance fault now e1 e2 e3 tid reason db = (Inr st, db')"
  obtains to t db1 db2 where "turnStateForReason reason = Some to"
    "settle_turn_cas now e1 tid to reason 0 db = Inr (t, db1)"
    "settle_step_tx now e2 (turn_run_id t) (turn_step_id t) reason db1 = Inr ((), db2)"
    "advanceRunAfterSettleTx now e3 (turn_run_id t) reason db2 = Inr (st, db')"
  using assms by (auto simp: SettleTurnAndAdvance_def tx_simps split: option.splits)

lemma SettleTurnAndAdvance_inv:
  assumes "runtime_inv db" shows "runtime_inv (snd (SettleTurnAndAdvance fault now e1 e2 e3 tid reason db))"
proof (rule outcome_invariant [where I = runtime_inv, OF assms SettleTurnAndAdvance_rollback])
  fix st db' assume "SettleTurnAndAdvance fault now e1 e2 e3 tid reason db = (Inr st, db')"
  then obtain to t db1 db2 where tx: "turnStateForReason reason = Some to"
    "settle_turn_cas now e1 tid to reason 0 db = Inr (t, db1)"
    "settle_step_tx now e2 (turn_run_id t) (turn_step_id t) reason db1 = Inr ((), db2)"
    "advanceRunAfterSettleTx now e3 (turn_run_id t) reason db2 = Inr (st, db')"
    by (rule SettleTurnAndAdvance_okE)
  then have "runtime_inv db1" using settle_turn_cas_inv [OF assms turnStateForReason_terminal] by blast
  then have "runtime_inv db2" using settle_step_tx_inv tx(3) by blast
  then show "runtime_inv db'" using advanceRunAfterSettleTx_inv tx(4) by blast
qed

lemma AppendEvent_inv:
  "runtime_inv db \<Longrightarrow> runtime_inv (snd (AppendEvent fault now eid rid tid sid k p db))"
  unfolding AppendEvent_def by (rule run_tx_invariant) (auto intro: appendEventTx_inv)

lemma insert_turn_inv:
  assumes "runtime_inv db" and "insert_turn_ok t db" and "turn_row_ok t"
  shows "runtime_inv (db\<lparr>turns := turns db @ [t]\<rparr>)"
proof -
  have new: "turn_id t \<notin> turn_id ` set (turns db)" "turn_run_id t \<in> run_id ` set (runs db)"
    "set_option (turn_step_id t) \<subseteq> step_id ` set (steps db)"
    "idx_turns_one_active_per_session (turns db @ [t])"
    using assms(2) unfolding insert_turn_ok_def exists_row_key by (auto split: option.splits)
  have "turns_inv (run_id ` set (runs db)) (step_id ` set (steps db)) (turns db @ [t])"
    using assms(1,3) new by (auto simp: runtime_inv_def Let_def turns_inv_def)
  moreover have "events_inv (run_id ` set (runs db)) (step_id ` set (steps db))
      (turn_id ` set (turns db @ [t])) (events db)"
    using assms(1) by (auto simp: runtime_inv_def Let_def elim: events_inv_mono)
  ultimately show ?thesis using assms(1) by (simp add: runtime_inv_def Let_def)
qed

lemma StartTurn_okE:
  assumes "StartTurn fault now tid eid rid sid model db = (Inr t, db')"
  obtains r e where "find_run rid db = Some r"
    "t = \<lparr>turn_id = tid, turn_run_id = rid, turn_step_id = nullable sid,
          turn_node_execution_id = None, turn_session_id = run_session_id r,
          turn_model = nullable model, turn_state = TurnRunning,
          turn_started_at = None, turn_settled_at = None,
          turn_created_at = now, turn_updated_at = now\<rparr>"
    "insert_turn_ok t db"
    "appendEventTx now eid rid tid sid EvTurnStarted (Some (JObj [(''model'', JStr model)]))
       (db\<lparr>turns := turns db @ [t]\<rparr>) = Inr (e, db')"
  using assms by (auto simp: StartTurn_def Let_def run_tx_Inr split: option.splits sum.splits if_splits)

lemma StartTurn_rollback:
  "fst (StartTurn fault now tid eid rid sid model db) = Inl e
   \<Longrightarrow> snd (StartTurn fault now tid eid rid sid model db) = db"
  unfolding StartTurn_def by (rule run_tx_rollback)

lemma StartTurn_inv:
  assumes "runtime_inv db" shows "runtime_inv (snd (StartTurn fault now tid eid rid sid model db))"
proof (rule outcome_invariant [where I = runtime_inv, OF assms StartTurn_rollback])
  fix t db' assume "StartTurn fault now tid eid rid sid model db = (Inr t, db')"
  then show "runtime_inv db'"
    by (rule StartTurn_okE)
       (erule appendEventTx_inv [rotated], erule insert_turn_inv [OF assms],
        simp add: turn_row_ok_def IsTerminalTurn_def)
qed

lemma insert_run_inv:
  assumes "runtime_inv db" and "run_id r \<notin> run_id ` set (runs db)" and "run_row_ok r"
  shows "runtime_inv (db\<lparr>runs := runs db @ [r]\<rparr>)"
proof -
  let ?R = "run_id ` set (runs db)" and ?R' = "run_id ` set (runs db @ [r])"
    and ?S = "step_id ` set (steps db)" and ?T = "turn_id ` set (turns db)"
  have sub: "?R \<subseteq> ?R'" by auto
  have "steps_inv ?R' (steps db)" "turns_inv ?R' ?S (turns db)" "events_inv ?R' ?S ?T (events db)"
    using assms(1) steps_inv_mono [OF _ sub] turns_inv_mono [OF _ sub] events_inv_mono [OF _ sub]
    by (auto simp: runtime_inv_def Let_def simp del: set_append)
  moreover have "runs_inv (runs db @ [r])"
    using assms by (auto simp: runtime_inv_def Let_def runs_inv_def)
  ultimately show ?thesis by (simp add: runtime_inv_def Let_def)
qed

lemma insert_step_inv:
  assumes "runtime_inv db" and "rid \<in> run_id ` set (runs db)" and "insert_step now sid rid si db = Inr (u, db')"
  shows "runtime_inv db' \<and> runs db' = runs db"
proof -
  define s where "s = pending_step_row now sid rid si"
  have s: "db' = db\<lparr>steps := steps db @ [s]\<rparr>" "step_id s \<notin> step_id ` set (steps db)"
    "(step_run_id s, step_seq s) \<notin> (\<lambda>s. (step_run_id s, step_seq s)) ` set (steps db)"
    "step_run_id s = rid" "step_state s = StepPending" "step_row_ok s"
    using assms(3)
    by (auto simp: s_def insert_step_def pending_step_row_def step_row_ok_def isStepTerminal_def split: if_splits)
  let ?R = "run_id ` set (runs db)" and ?S = "step_id ` set (steps db)" and ?T = "turn_id ` set (turns db)"
    and ?S' = "step_id ` set (steps db @ [s])"
  have sub: "?S \<subseteq> ?S'" by auto
  have "steps_inv ?R (steps db @ [s])"
    using assms(1,2) s by (auto simp: runtime_inv_def Let_def steps_inv_def idx_run_steps_one_running_def)
  moreover have "turns_inv ?R ?S' (turns db)" "events_inv ?R ?S' ?T (events db)"
    using assms(1) turns_inv_mono [OF _ _ sub] events_inv_mono [OF _ _ sub]
    by (auto simp: runtime_inv_def Let_def simp del: set_append)
  ultimately show ?thesis using assms(1) s(1) by (simp add: runtime_inv_def Let_def)
qed

lemma insert_steps_inv:
  "insert_steps now rid plan db = Inr (u, db') \<Longrightarrow> runtime_inv db \<Longrightarrow> rid \<in> run_id ` set (runs db)
   \<Longrightarrow> runtime_inv db'"
proof (induction now rid plan db rule: insert_steps.induct)
  case (2 now rid sid si rest db)
  then obtain db1 where db1: "insert_step now sid rid si db = Inr ((), db1)"
    "insert_steps now rid rest db1 = Inr (u, db')"
    by (auto split: sum.splits)
  then show ?case using 2 insert_step_inv [OF _ _ db1(1)] by auto
qed simp

lemma CreateRun_inv:
  assumes "runtime_inv db" shows "runtime_inv (snd (CreateRun fault now rid sids inp db))"
  unfolding CreateRun_def
proof (rule run_tx_invariant [where I = runtime_inv, OF assms], goal_cases)
  case (1 r db')
  then have fresh: "rid \<notin> run_id ` set (runs db)" and r: "run_id r = rid" "run_row_ok r"
    and steps: "insert_steps now rid (zip (map sids [0..<length (cri_steps inp)]) (cri_steps inp))
      (db\<lparr>runs := runs db @ [r]\<rparr>) = Inr ((), db')"
    by (auto simp: Let_def run_row_ok_def IsTerminalRun_def split: if_splits sum.splits)
  show ?case
    by (rule insert_steps_inv [OF steps insert_run_inv [OF assms]]) (use fresh r in auto)
qed

section \<open>The runtime as a transition system\<close>

text \<open>One step is one operation of the store, committed or rolled back; the transactions of
  concurrent callers are the steps in their serialization order.\<close>

inductive rt_step :: "'z runtime_db_scheme \<Rightarrow> 'z runtime_db_scheme \<Rightarrow> bool" where
  rt_create_run: "rt_step db (snd (CreateRun fault now rid sids inp db))"
| rt_start_run: "rt_step db (snd (StartRun fault now eid rid db))"
| rt_succeed_run: "rt_step db (snd (SucceedRun fault now eid rid db))"
| rt_fail_run: "rt_step db (snd (FailRun fault now eid rid db))"
| rt_abort_run: "rt_step db (snd (AbortRun fault now eid rid db))"
| rt_await: "rt_step db (snd (AwaitApproval fault now eid rid db))"
| rt_resume: "rt_step db (snd (ResumeFromApproval fault now eid rid db))"
| rt_start_step: "rt_step db (snd (StartStep fault now eid sid db))"
| rt_succeed_step: "rt_step db (snd (SucceedStep fault now eid sid db))"
| rt_fail_step: "rt_step db (snd (FailStep fault now eid sid db))"
| rt_skip_step: "rt_step db (snd (SkipStep fault now eid sid db))"
| rt_start_turn: "rt_step db (snd (StartTurn fault now tid eid rid sid model db))"
| rt_settle: "rt_step db (snd (SettleTurn fault now eid tid reason n db))"
| rt_settle_advance: "rt_step db (snd (SettleTurnAndAdvance fault now e1 e2 e3 tid reason db))"
| rt_append: "rt_step db (snd (AppendEvent fault now eid rid tid sid kind payload db))"

lemmas run_op_defs = StartRun_def SucceedRun_def FailRun_def AbortRun_def AwaitApproval_def ResumeFromApproval_def
lemmas step_op_defs = StartStep_def SucceedStep_def FailStep_def SkipStep_def

lemma rt_step_inv: "rt_step db db' \<Longrightarrow> runtime_inv db \<Longrightarrow> runtime_inv db'"
  by (induction rule: rt_step.induct)
     (simp_all add: run_op_defs step_op_defs CreateRun_inv transitionRun_inv transitionStep_inv
       StartTurn_inv SettleTurn_inv SettleTurnAndAdvance_inv AppendEvent_inv)

lemma rt_steps_inv: "rt_step\<^sup>*\<^sup>* db db' \<Longrightarrow> runtime_inv db \<Longrightarrow> runtime_inv db'"
  by (induction rule: rtranclp_induct) (auto intro: rt_step_inv)

section \<open>The three state machines\<close>

fun run_edge :: "RunState \<Rightarrow> RunState \<Rightarrow> bool" where
  "run_edge RunPending s = (s = RunRunning)"
| "run_edge RunRunning s = (s \<in> {RunAwaitingApproval, RunSucceeded, RunFailed, RunAborted})"
| "run_edge RunAwaitingApproval s = (s \<in> {RunRunning, RunFailed, RunAborted})"
| "run_edge _ s = False"

fun step_edge :: "StepState \<Rightarrow> StepState \<Rightarrow> bool" where
  "step_edge StepPending s = (s \<in> {StepRunning, StepSkipped})"
| "step_edge StepRunning s = (s \<in> {StepSucceeded, StepFailed})"
| "step_edge _ s = False"

fun turn_edge :: "TurnState \<Rightarrow> TurnState \<Rightarrow> bool" where
  "turn_edge TurnRunning s = (s \<in> {TurnSucceeded, TurnFailed, TurnAborted})"
| "turn_edge _ s = False"

abbreviation runs_evolve where "runs_evolve db db' \<equiv> evolves run_id run_state run_edge (runs db) (runs db')"
abbreviation steps_evolve where "steps_evolve db db' \<equiv> evolves step_id step_state step_edge (steps db) (steps db')"
abbreviation turns_evolve where "turns_evolve db db' \<equiv> evolves turn_id turn_state turn_edge (turns db) (turns db')"

definition all_evolve :: "'z runtime_db_scheme \<Rightarrow> 'z runtime_db_scheme \<Rightarrow> bool" where
  "all_evolve db db' \<longleftrightarrow> runs_evolve db db' \<and> steps_evolve db db' \<and> turns_evolve db db'"

lemma all_evolve_refl [simp]: "all_evolve db db"
  by (simp add: all_evolve_def)

lemma all_evolve_trans [trans]: "all_evolve a b \<Longrightarrow> all_evolve b c \<Longrightarrow> all_evolve a c"
  by (auto simp: all_evolve_def intro: evolves_trans)

lemma appendEventTx_evolve:
  "appendEventTx now eid rid tid sid k p db1 = Inr (e, db') \<Longrightarrow> all_evolve db db1 \<Longrightarrow> all_evolve db db'"
  by (auto simp: all_evolve_def dest: appendEventTx_frame)

lemma transitionRun_evolve:
  assumes "\<forall>s \<in> set frm. run_edge s to"
  shows "all_evolve db (snd (transitionRun fault now eid rid frm to k p db))"
proof (rule outcome_invariant [where I = "all_evolve db", OF _ transitionRun_rollback])
  fix r' db' assume "transitionRun fault now eid rid frm to k p db = (Inr r', db')"
  then show "all_evolve db db'"
    by (rule transitionRun_okE) (erule appendEventTx_evolve, use assms in \<open>auto simp: all_evolve_def intro!: evolves_update\<close>)
qed simp

lemma transitionStep_evolve:
  assumes "\<forall>s \<in> set frm. step_edge s to"
  shows "all_evolve db (snd (transitionStep fault now eid sid frm to k p db))"
proof (rule outcome_invariant [where I = "all_evolve db", OF _ transitionStep_rollback])
  fix s' db' assume "transitionStep fault now eid sid frm to k p db = (Inr s', db')"
  then show "all_evolve db db'"
    by (rule transitionStep_okE) (erule appendEventTx_evolve, use assms in \<open>auto simp: all_evolve_def intro!: evolves_update\<close>)
qed simp

lemma settle_turn_cas_evolve:
  assumes "settle_turn_cas now eid tid to reason n db = Inr (t, db')" and "IsTerminalTurn to"
  shows "all_evolve db db'"
  using assms(1)
  by (rule settle_turn_cas_okE)
     (erule appendEventTx_evolve, use assms(2) in
       \<open>auto simp: all_evolve_def IsTerminalTurn_def split: TurnState.splits intro!: evolves_update\<close>)

lemma settle_step_tx_evolve:
  assumes "settle_step_tx now eid rid st reason db = Inr (u, db')"
  shows "all_evolve db db'"
  using assms
proof (cases rule: settle_step_tx_okE)
  case (step sid to ev)
  then have "all_evolve db (db\<lparr>steps := update_where (\<lambda>s. step_id s = sid \<and> step_state s = StepRunning)
                      (settle_step_row now to) (steps db)\<rparr>)"
    by (auto simp: all_evolve_def settle_step_row_def intro!: evolves_update)
  then show ?thesis using step(5) appendEventTx_evolve by blast
qed simp

lemma advanceRunAfterSettleTx_evolve:
  assumes "advanceRunAfterSettleTx now eid rid reason db = Inr (st, db')"
  shows "all_evolve db db'"
  using assms
proof (cases rule: advanceRunAfterSettleTx_okE)
  case (finish frm ev)
  then have "all_evolve db (db\<lparr>runs := finish_run_where now rid frm st (runs db)\<rparr>)"
    by (auto simp: all_evolve_def finish_run_where_def intro!: evolves_update)
  then show ?thesis using finish(3) appendEventTx_evolve by blast
next
  case (next_step s)
  have "all_evolve db (db\<lparr>steps := update_where (\<lambda>x. step_id x = step_id s \<and> step_state x = StepPending)
                      (start_step_row now) (steps db)\<rparr>)"
    by (auto simp: all_evolve_def start_step_row_def intro!: evolves_update)
  then show ?thesis using next_step(5) appendEventTx_evolve by blast
qed simp

lemma insert_steps_evolve: "insert_steps now rid plan db = Inr (u, db') \<Longrightarrow> all_evolve db db'"
proof (induction now rid plan db rule: insert_steps.induct)
  case (2 now rid sid si rest db)
  then obtain db1 where "insert_step now sid rid si db = Inr ((), db1)"
    "insert_steps now rid rest db1 = Inr (u, db')"
    by (auto split: sum.splits)
  moreover from this(1) have "all_evolve db db1"
    by (auto simp: insert_step_def all_evolve_def split: if_splits)
  ultimately show ?case using 2 all_evolve_trans by blast
qed simp

lemma CreateRun_evolve: "all_evolve db (snd (CreateRun fault now rid sids inp db))"
  unfolding CreateRun_def
proof (rule run_tx_invariant [where I = "all_evolve db"], simp, goal_cases)
  case (1 r db')
  then have "insert_steps now rid (zip (map sids [0..<length (cri_steps inp)]) (cri_steps inp))
      (db\<lparr>runs := runs db @ [r]\<rparr>) = Inr ((), db')"
    by (auto simp: Let_def split: if_splits sum.splits)
  then have "all_evolve (db\<lparr>runs := runs db @ [r]\<rparr>) db'" by (rule insert_steps_evolve)
  moreover have "all_evolve db (db\<lparr>runs := runs db @ [r]\<rparr>)" by (simp add: all_evolve_def)
  ultimately show ?case by (metis all_evolve_trans)
qed

lemma StartTurn_evolve: "all_evolve db (snd (StartTurn fault now tid eid rid sid model db))"
proof (rule outcome_invariant [where I = "all_evolve db", OF _ StartTurn_rollback])
  fix t db' assume "StartTurn fault now tid eid rid sid model db = (Inr t, db')"
  then show "all_evolve db db'"
    by (rule StartTurn_okE) (erule appendEventTx_evolve, simp add: all_evolve_def)
qed simp

lemma SettleTurn_evolve: "all_evolve db (snd (SettleTurn fault now eid tid reason n db))"
proof (rule outcome_invariant [where I = "all_evolve db", OF _ SettleTurn_rollback])
  fix t db' assume "SettleTurn fault now eid tid reason n db = (Inr t, db')"
  then obtain to where "turnStateForReason reason = Some to"
    and "settle_turn_cas now eid tid to reason n db = Inr (t, db')"
    by (auto simp: SettleTurn_def run_tx_Inr split: option.splits)
  then show "all_evolve db db'" using settle_turn_cas_evolve turnStateForReason_terminal by blast
qed simp

lemma SettleTurnAndAdvance_evolve:
  "all_evolve db (snd (SettleTurnAndAdvance fault now e1 e2 e3 tid reason db))"
proof (rule outcome_invariant [where I = "all_evolve db", OF _ SettleTurnAndAdvance_rollback])
  fix st db' assume "SettleTurnAndAdvance fault now e1 e2 e3 tid reason db = (Inr st, db')"
  then obtain to t db1 db2 where tx: "turnStateForReason reason = Some to"
    "settle_turn_cas now e1 tid to reason 0 db = Inr (t, db1)"
    "settle_step_tx now e2 (turn_run_id t) (turn_step_id t) reason db1 = Inr ((), db2)"
    "advanceRunAfterSettleTx now e3 (turn_run_id t) reason db2 = Inr (st, db')"
    by (rule SettleTurnAndAdvance_okE)
  have "all_evolve db db1" using tx(1,2) settle_turn_cas_evolve turnStateForReason_terminal by blast
  also have "all_evolve db1 db2" using tx(3) by (rule settle_step_tx_evolve)
  also have "all_evolve db2 db'" using tx(4) by (rule advanceRunAfterSettleTx_evolve)
  finally show "all_evolve db db'" .
qed simp

lemma AppendEvent_evolve: "all_evolve db (snd (AppendEvent fault now eid rid tid sid k p db))"
  unfolding AppendEvent_def
  by (rule run_tx_invariant [where I = "all_evolve db"]) (auto elim: appendEventTx_evolve)

lemma rt_step_evolve: "rt_step db db' \<Longrightarrow> all_evolve db db'"
  by (induction rule: rt_step.induct)
     (simp_all add: run_op_defs step_op_defs CreateRun_evolve transitionRun_evolve transitionStep_evolve
       StartTurn_evolve SettleTurn_evolve SettleTurnAndAdvance_evolve AppendEvent_evolve)

interpretation run_life: lifecycle runs run_id run_state run_edge IsTerminalRun rt_step
  by unfold_locales (use rt_step_evolve all_evolve_def in blast, auto simp: IsTerminalRun_def split: RunState.splits)

interpretation step_life: lifecycle steps step_id step_state step_edge isStepTerminal rt_step
  by unfold_locales (use rt_step_evolve all_evolve_def in blast, auto simp: isStepTerminal_def split: StepState.splits)

interpretation turn_life: lifecycle turns turn_id turn_state turn_edge IsTerminalTurn rt_step
  by unfold_locales (use rt_step_evolve all_evolve_def in blast, auto simp: IsTerminalTurn_def split: TurnState.splits)

section \<open>Reading the log\<close>

lemma run_log_gapless:
  "runtime_inv db \<Longrightarrow> map ev_seq (run_log rid db) = [Suc 0..<Suc (length (run_log rid db))]"
  by (simp add: runtime_inv_def Let_def events_inv_def gapless_def run_log_def del: upt_Suc)

lemma run_log_nth:
  assumes "runtime_inv db" and "i < length (run_log rid db)"
  shows "ev_seq (run_log rid db ! i) = Suc i"
  using arg_cong [OF run_log_gapless [OF assms(1), of rid], of "\<lambda>l. l ! i"] assms(2)
  by (simp add: nth_upt del: upt_Suc)

lemma order_by_sorted: "sorted (map k rows) \<Longrightarrow> order_by k rows = rows"
  unfolding order_by_def
proof (induction rows)
  case (Cons x xs)
  then show ?case by (cases xs) auto
qed simp

lemma ListEvents_run_log:
  assumes "runtime_inv db" shows "ListEvents rid db = run_log rid db"
  using run_log_gapless [OF assms, of rid] unfolding ListEvents_def run_log_def
  by (intro order_by_sorted) (simp del: upt_Suc)

lemma filter_gapless_drop:
  assumes "map f xs = [Suc 0..<Suc (length xs)]"
  shows "filter (\<lambda>x. n < f x) xs = drop n xs"
proof -
  have nth: "f (xs ! i) = Suc i" if "i < length xs" for i
    using arg_cong [OF assms, of "\<lambda>l. l ! i"] that by (simp add: nth_upt del: upt_Suc)
  have "x \<in> set (take n xs) \<Longrightarrow> \<not> n < f x" for x
    using nth by (auto simp: in_set_conv_nth)
  moreover have "x \<in> set (drop n xs) \<Longrightarrow> n < f x" for x
    using nth by (auto simp: in_set_conv_nth)
  ultimately have "filter (\<lambda>x. n < f x) (take n xs @ drop n xs) = drop n xs"
    unfolding filter_append by (auto simp: filter_empty_conv filter_id_conv)
  then show ?thesis by simp
qed

lemma EventsSince_drop:
  assumes "runtime_inv db" shows "EventsSince rid n db = drop n (run_log rid db)"
proof -
  have "filter (\<lambda>e. ev_run_id e = rid \<and> n < ev_seq e) (events db) = filter (\<lambda>e. n < ev_seq e) (run_log rid db)"
    by (auto simp: run_log_def conj_commute)
  also have "\<dots> = drop n (run_log rid db)" by (rule filter_gapless_drop [OF run_log_gapless [OF assms]])
  finally show ?thesis
    using run_log_gapless [OF assms, of rid] unfolding EventsSince_def
    by (simp add: order_by_sorted drop_map [symmetric] drop_upt del: upt_Suc)
qed

lemma LastEventSeq_length:
  assumes "runtime_inv db" shows "LastEventSeq rid db = length (run_log rid db)"
  using run_log_gapless [OF assms, of rid] unfolding LastEventSeq_def run_log_def
  by (simp add: fold_max_upt del: upt_Suc)

section \<open>The log only grows\<close>

definition log_grows :: "'z runtime_db_scheme \<Rightarrow> 'z runtime_db_scheme \<Rightarrow> bool" where
  "log_grows db db' \<longleftrightarrow> (\<exists>new. events db' = events db @ new)"

lemma log_grows_refl [simp]: "log_grows db db"
  by (simp add: log_grows_def)

lemma log_grows_trans [trans]: "log_grows a b \<Longrightarrow> log_grows b c \<Longrightarrow> log_grows a c"
  by (auto simp: log_grows_def)

lemma appendEventTx_grows:
  "appendEventTx now eid rid tid sid k p db1 = Inr (e, db') \<Longrightarrow> events db1 = events db \<Longrightarrow> log_grows db db'"
  by (auto simp: log_grows_def dest: appendEventTx_frame)

lemma insert_steps_events: "insert_steps now rid plan db = Inr (u, db') \<Longrightarrow> events db' = events db"
proof (induction now rid plan db rule: insert_steps.induct)
  case (2 now rid sid si rest db)
  then obtain db1 where "insert_step now sid rid si db = Inr ((), db1)"
    "insert_steps now rid rest db1 = Inr (u, db')"
    by (auto split: sum.splits)
  then show ?case using 2 by (auto simp: insert_step_def split: if_splits)
qed simp

lemma settle_turn_cas_grows: "settle_turn_cas now eid tid to reason n db = Inr (t, db') \<Longrightarrow> log_grows db db'"
  by (erule settle_turn_cas_okE) (erule appendEventTx_grows, simp)

lemma settle_step_tx_grows: "settle_step_tx now eid rid st reason db = Inr (u, db') \<Longrightarrow> log_grows db db'"
  by (erule settle_step_tx_okE) (auto simp: log_grows_def dest: appendEventTx_frame(5))

lemma advanceRunAfterSettleTx_grows:
  "advanceRunAfterSettleTx now eid rid reason db = Inr (st, db') \<Longrightarrow> log_grows db db'"
  by (erule advanceRunAfterSettleTx_okE) (auto simp: log_grows_def dest: appendEventTx_frame(5))

lemma SettleTurnAndAdvance_grows: "log_grows db (snd (SettleTurnAndAdvance fault now e1 e2 e3 tid reason db))"
proof (rule outcome_invariant [where I = "log_grows db", OF _ SettleTurnAndAdvance_rollback])
  fix st db' assume "SettleTurnAndAdvance fault now e1 e2 e3 tid reason db = (Inr st, db')"
  then show "log_grows db db'"
    by (rule SettleTurnAndAdvance_okE)
       (meson log_grows_trans settle_turn_cas_grows settle_step_tx_grows advanceRunAfterSettleTx_grows)
qed simp

lemma transitionRun_grows: "log_grows db (snd (transitionRun fault now eid rid frm to k p db))"
  by (rule outcome_invariant [where I = "log_grows db", OF _ transitionRun_rollback])
     (auto elim!: transitionRun_okE simp: log_grows_def dest: appendEventTx_frame(5))

lemma transitionStep_grows: "log_grows db (snd (transitionStep fault now eid sid frm to k p db))"
  by (rule outcome_invariant [where I = "log_grows db", OF _ transitionStep_rollback])
     (auto elim!: transitionStep_okE simp: log_grows_def dest: appendEventTx_frame(5))

lemma StartTurn_grows: "log_grows db (snd (StartTurn fault now tid eid rid sid model db))"
  by (rule outcome_invariant [where I = "log_grows db", OF _ StartTurn_rollback])
     (auto elim!: StartTurn_okE simp: log_grows_def dest: appendEventTx_frame(5))

lemma SettleTurn_grows: "log_grows db (snd (SettleTurn fault now eid tid reason n db))"
  by (rule outcome_invariant [where I = "log_grows db", OF _ SettleTurn_rollback])
     (auto simp: SettleTurn_def run_tx_Inr split: option.splits intro: settle_turn_cas_grows)

lemma AppendEvent_grows: "log_grows db (snd (AppendEvent fault now eid rid tid sid k p db))"
  unfolding AppendEvent_def
  by (rule run_tx_invariant [where I = "log_grows db"]) (auto elim: appendEventTx_grows)

lemma CreateRun_grows: "log_grows db (snd (CreateRun fault now rid sids inp db))"
  unfolding CreateRun_def
  by (rule run_tx_invariant [where I = "log_grows db"])
     (auto simp: log_grows_def Let_def dest!: insert_steps_events split: if_splits sum.splits)

lemma rt_step_grows: "rt_step db db' \<Longrightarrow> log_grows db db'"
  by (induction rule: rt_step.induct)
     (simp_all add: run_op_defs step_op_defs CreateRun_grows transitionRun_grows transitionStep_grows
       StartTurn_grows SettleTurn_grows SettleTurnAndAdvance_grows AppendEvent_grows)

lemma rt_steps_grow: "rt_step\<^sup>*\<^sup>* db db' \<Longrightarrow> log_grows db db'"
  by (induction rule: rtranclp_induct) (auto intro: log_grows_trans rt_step_grows)

end
