(* ===== verification/Runtime_Properties.thy ===== *)
theory Runtime_Properties
  imports Runtime_Lifecycle
begin

text \<open>
  The properties of the runtime store: the reachable databases, the life of a run and of a
  turn, what settling a turn does on every branch and that it can always be done, one
  active turn per session, and the event log as an audit of the run states.
\<close>

section \<open>An example database\<close>

text \<open>A workflow of two steps, driven by the operations of the store from the empty database
  until its first turn runs. The examples below are about it.\<close>

definition empty_db :: runtime_db where
  "empty_db = \<lparr>identities = [''alice''], runs = [], steps = [], turns = [], events = []\<rparr>"

definition example_input :: CreateRunInput where
  "example_input = \<lparr>cri_kind = ''workflow'', cri_definition_key = ''wf'', cri_scope_identity_id = ''alice'',
     cri_session_id = ''sess'', cri_session_dir = ''dir'', cri_trigger = None,
     cri_steps = [\<lparr>si_seq = 2, si_kind = ''agent_task'', si_config = None\<rparr>,
                  \<lparr>si_seq = 1, si_kind = ''agent_task'', si_config = None\<rparr>]\<rparr>"

definition example_created :: runtime_db where
  "example_created = snd (CreateRun False 10 ''run'' (\<lambda>i. if i = 0 then ''second'' else ''first'') example_input empty_db)"

definition example_started :: runtime_db where
  "example_started = snd (StartStep False 12 ''e2'' ''first'' (snd (StartRun False 11 ''e1'' ''run'' example_created)))"

definition example_db :: runtime_db where
  "example_db = snd (StartTurn False 13 ''turn'' ''e3'' ''run'' ''first'' ''gpt'' example_started)"

lemma no_rows_inv:
  assumes "runs db = []" "steps db = []" "turns db = []" "events db = []"
  shows "runtime_inv db"
  using assms by (simp add: runtime_inv_def Let_def runs_inv_def steps_inv_def turns_inv_def events_inv_def
      gapless_def idx_run_steps_one_running_def idx_turns_one_active_per_session_def)

lemma empty_db_inv: "runtime_inv empty_db"
  by (rule no_rows_inv) (simp_all add: empty_db_def)

lemma example_reachable: "rt_step\<^sup>*\<^sup>* empty_db example_db"
  unfolding example_db_def example_started_def example_created_def
  by (meson rt_create_run rt_start_run rt_start_step rt_start_turn rtranclp.intros)

lemma example_db_inv: "runtime_inv example_db"
  by (rule rt_steps_inv [OF example_reachable empty_db_inv])

section \<open>Settling a turn\<close>

lemma runtime_invD:
  assumes "runtime_inv db"
  shows "distinct (map run_id (runs db))" "distinct (map step_id (steps db))" "distinct (map turn_id (turns db))"
    "idx_run_steps_one_running (steps db)" "idx_turns_one_active_per_session (turns db)"
    "t \<in> set (turns db) \<Longrightarrow> turn_run_id t \<in> run_id ` set (runs db)"
    "t \<in> set (turns db) \<Longrightarrow> set_option (turn_step_id t) \<subseteq> step_id ` set (steps db)"
  using assms by (auto simp: runtime_inv_def Let_def runs_inv_def steps_inv_def turns_inv_def)

lemma settle_turn_cas_spec:
  assumes "runtime_inv db" and "settle_turn_cas now eid tid to reason n db = Inr (t', db')"
  obtains t where "find_turn tid db = Some t" "turn_state t = TurnRunning" "t' = settle_turn_row now to t"
    "find_turn tid db' = Some t'" "runs db' = runs db" "steps db' = steps db"
  using assms(2)
proof (rule settle_turn_cas_okE)
  fix t e
  assume t: "find (\<lambda>t. turn_id t = tid \<and> turn_state t = TurnRunning) (turns db) = Some t"
    and t': "t' = settle_turn_row now to t"
    and app: "appendEventTx now eid (turn_run_id t) tid (strPtr (turn_step_id t)) EvSettled
       (Some (settled_payload reason n))
       (db\<lparr>turns := update_where (\<lambda>t. turn_id t = tid \<and> turn_state t = TurnRunning)
                     (settle_turn_row now to) (turns db)\<rparr>) = Inr (e, db')"
  then have "find_turn tid db = Some t" "turn_state t = TurnRunning"
    using find_key_guard [OF runtime_invD(3) [OF assms(1)]] by (auto simp: find_turn_def)
  moreover from this have "find_turn tid db' = Some t'"
    using appendEventTx_frame(4) [OF app] t' find_SomeD [OF t] by (simp add: find_turn_def find_update_where)
  ultimately show ?thesis using that appendEventTx_frame [OF app] t' by simp
qed

definition step_outcome :: "string \<Rightarrow> StepState" where
  "step_outcome reason = (if reason = ''completed'' then StepSucceeded else StepFailed)"

lemma settle_step_tx_frame:
  assumes "settle_step_tx now eid rid st reason db = Inr (u, db')"
  shows "runs db' = runs db" "turns db' = turns db"
    "steps db' = update_where (\<lambda>s. st = Some (step_id s) \<and> step_id s \<noteq> [] \<and> step_state s = StepRunning)
       (settle_step_row now (step_outcome reason)) (steps db)"
  using assms
proof (atomize (full), cases rule: settle_step_tx_okE)
  case none
  then show "runs db' = runs db \<and> turns db' = turns db \<and> steps db' =
    update_where (\<lambda>s. st = Some (step_id s) \<and> step_id s \<noteq> [] \<and> step_state s = StepRunning)
       (settle_step_row now (step_outcome reason)) (steps db)"
    by (auto simp: update_where_none)
next
  case (step sid to ev)
  then obtain e where "appendEventTx now eid rid [] sid ev None
       (db\<lparr>steps := update_where (\<lambda>s. step_id s = sid \<and> step_state s = StepRunning)
                      (settle_step_row now to) (steps db)\<rparr>) = Inr (e, db')" by blast
  from appendEventTx_frame(2,3,4) [OF this] step(1-3)
  show "runs db' = runs db \<and> turns db' = turns db \<and> steps db' =
    update_where (\<lambda>s. st = Some (step_id s) \<and> step_id s \<noteq> [] \<and> step_state s = StepRunning)
       (settle_step_row now (step_outcome reason)) (steps db)"
    by (simp add: update_where_def step_outcome_def)
qed

lemma settle_step_row_simps [simp]:
  "step_id (settle_step_row now to s) = step_id s"
  "step_run_id (settle_step_row now to s) = step_run_id s"
  "step_state (settle_step_row now to s) = to"
  by (simp_all add: settle_step_row_def)

lemma start_step_row_simps [simp]:
  "step_id (start_step_row now s) = step_id s"
  "step_run_id (start_step_row now s) = step_run_id s"
  "step_state (start_step_row now s) = StepRunning"
  by (simp_all add: start_step_row_def)

lemma settle_step_tx_pending:
  assumes "settle_step_tx now eid rid st reason db = Inr (u, db')"
  shows "pending_steps rid' db' = pending_steps rid' db"
  unfolding pending_steps_def settle_step_tx_frame(3) [OF assms]
  by (subst filter_update_where_other) (auto simp: step_outcome_def)

lemma settle_step_tx_find:
  assumes "settle_step_tx now eid rid st reason db = Inr (u, db')"
  shows "find_step sid db' = map_option (\<lambda>s.
     if st = Some (step_id s) \<and> step_id s \<noteq> [] \<and> step_state s = StepRunning
     then settle_step_row now (step_outcome reason) s else s)
     (find_step sid db)"
  unfolding find_step_def settle_step_tx_frame(3) [OF assms]
  by (rule find_update_where) simp


lemma advance_spec:
  assumes "distinct (map step_id (steps db))" and "advanceRunAfterSettleTx now eid rid reason db = Inr (st, db')"
    and "turnStateForReason reason \<noteq> None"
  shows "turns db' = turns db \<and>
    (st = RunRunning \<longrightarrow> reason = ''completed'' \<and> runs db' = runs db \<and>
       (\<exists>s. limit1 (pending_steps rid db) = Some s \<and>
          steps db' = update_where (\<lambda>x. step_id x = step_id s \<and> step_state x = StepPending)
                      (start_step_row now) (steps db))) \<and>
    (st \<noteq> RunRunning \<longrightarrow> steps db' = steps db \<and>
       (reason, st) \<in> {(''completed'', RunSucceeded), (''failed'', RunFailed), (''aborted'', RunAborted)} \<and>
       (reason = ''completed'' \<longrightarrow> pending_steps rid db = []) \<and>
       (\<exists>frm. RunRunning \<in> set frm \<and> runs db' = finish_run_where now rid frm st (runs db)))"
  using assms(2)
proof (cases rule: advanceRunAfterSettleTx_okE)
  case (finish frm ev)
  then obtain e where "appendEventTx now eid rid [] [] ev None
       (db\<lparr>runs := finish_run_where now rid frm st (runs db)\<rparr>) = Inr (e, db')" by blast
  note frame = appendEventTx_frame(2,3,4) [OF this]
  have "st \<noteq> RunRunning" "RunRunning \<in> set frm"
    "(reason, st) \<in> {(''completed'', RunSucceeded), (''failed'', RunFailed), (''aborted'', RunAborted)}"
    using finish(1) by auto
  then show ?thesis using frame finish(2) by auto
next
  case (next_step s)
  then obtain e where "appendEventTx now eid rid [] (step_id s) EvStepStarted None
       (db\<lparr>steps := update_where (\<lambda>x. step_id x = step_id s \<and> step_state x = StepPending)
                      (start_step_row now) (steps db)\<rparr>) = Inr (e, db')" by blast
  note frame = appendEventTx_frame(2,3,4) [OF this]
  then show ?thesis using next_step(1-3) by auto
next
  case other
  then show ?thesis using assms(3) by (auto simp: turnStateForReason_def)
qed




text \<open>The database between the settlement of turn and step and the advance of the run.\<close>

lemma SettleTurnAndAdvance_parts:
  assumes inv: "runtime_inv db"
    and ok: "SettleTurnAndAdvance fault now e1 e2 e3 tid reason db = (Inr st, db')"
  obtains t to db2 where "find_turn tid db = Some t" "turn_state t = TurnRunning"
    "turnStateForReason reason = Some to" "find_turn tid db2 = Some (settle_turn_row now to t)"
    "runs db2 = runs db" "distinct (map step_id (steps db2))"
    "pending_steps (turn_run_id t) db2 = pending_steps (turn_run_id t) db"
    "\<forall>sid. find_step sid db2 = map_option (\<lambda>s.
       if turn_step_id t = Some (step_id s) \<and> step_id s \<noteq> [] \<and> step_state s = StepRunning
       then settle_step_row now (step_outcome reason) s else s) (find_step sid db)"
    "advanceRunAfterSettleTx now e3 (turn_run_id t) reason db2 = Inr (st, db')"
proof -
  obtain to t' db1 db2 where to: "turnStateForReason reason = Some to"
    and tx1: "settle_turn_cas now e1 tid to reason 0 db = Inr (t', db1)"
    and tx2: "settle_step_tx now e2 (turn_run_id t') (turn_step_id t') reason db1 = Inr ((), db2)"
    and tx3: "advanceRunAfterSettleTx now e3 (turn_run_id t') reason db2 = Inr (st, db')"
    using ok by (rule SettleTurnAndAdvance_okE)
  obtain t where t: "find_turn tid db = Some t" "turn_state t = TurnRunning" "t' = settle_turn_row now to t"
    "find_turn tid db1 = Some t'" "runs db1 = runs db" "steps db1 = steps db"
    using settle_turn_cas_spec [OF inv tx1] .
  have "runtime_inv db2"
    using settle_turn_cas_inv [OF inv turnStateForReason_terminal [OF to] tx1] settle_step_tx_inv tx2 by blast
  note d2 = runtime_invD(2) [OF this]
  show ?thesis
    using that [OF t(1,2) to _ _ d2] t tx3 settle_step_tx_frame [OF tx2] settle_step_tx_pending [OF tx2, of "turn_run_id t"]
      settle_step_tx_find [OF tx2]
    by (auto simp: find_turn_def pending_steps_def find_step_def)
qed


section \<open>Settling can always be done\<close>












section \<open>Reachable databases and row lifecycles\<close>

text \<open>C3. Every database that operations of the store reach from one without runs keeps its
  keys, references and partial unique indexes, dates exactly the terminal rows, and numbers
  the events of each run 1, 2, ... without a gap.\<close>

theorem runtime_reachable_inv:
  assumes "runs db0 = []" "steps db0 = []" "turns db0 = []" "events db0 = []" and "rt_step\<^sup>*\<^sup>* db0 db"
  shows "runtime_inv db"
  by (rule rt_steps_inv [OF assms(5) no_rows_inv [OF assms(1-4)]])

theorem runtime_reachable_inv_example: "runtime_inv example_db"
  by (rule runtime_reachable_inv [OF _ _ _ _ example_reachable]) (simp_all add: empty_db_def)

text \<open>C5. A run is never lost, only moves along pending, running, awaiting approval and the
  three terminal states as the store documents, and once terminal its row never changes.\<close>

theorem run_lifecycle:
  assumes "rt_step\<^sup>*\<^sup>* db db'" and "find_run rid db = Some r"
  shows "\<exists>r'. find_run rid db' = Some r' \<and> run_edge\<^sup>*\<^sup>* (run_state r) (run_state r')
            \<and> (IsTerminalRun (run_state r) \<longrightarrow> r' = r)"
proof (cases "IsTerminalRun (run_state r)")
  case True
  then show ?thesis using run_life.terminal_frozen [OF assms [unfolded find_run_def]] by (simp add: find_run_def)
next
  case False
  show ?thesis by (rule run_life.row_path [OF assms [unfolded find_run_def]]) (auto simp: find_run_def False)
qed

theorem run_lifecycle_example:
  "\<exists>r'. find_run ''run'' example_db = Some r' \<and> run_edge\<^sup>*\<^sup>* RunPending (run_state r')"
proof -
  have "rt_step\<^sup>*\<^sup>* example_created example_db"
    unfolding example_db_def example_started_def by (meson rt_start_run rt_start_step rt_start_turn rtranclp.intros)
  moreover have "find_run ''run'' example_created = Some (the (find_run ''run'' example_created))" by code_simp
  ultimately have "\<exists>r'. find_run ''run'' example_db = Some r'
      \<and> run_edge\<^sup>*\<^sup>* (run_state (the (find_run ''run'' example_created))) (run_state r')"
    using run_lifecycle by blast
  moreover have "run_state (the (find_run ''run'' example_created)) = RunPending" by code_simp
  ultimately show ?thesis by simp
qed

lemma settled_turn_rejects:
  assumes "find_turn tid db = Some t" and "IsTerminalTurn (turn_state t)" and "distinct (map turn_id (turns db))"
  shows "settle_turn_cas now eid tid to reason n db = Inl (ErrInvalidTransition (TurnSt (turn_state t)))"
proof -
  have "turn_state t \<noteq> TurnRunning" using assms(2) by (auto simp: IsTerminalTurn_def)
  then have "find (\<lambda>t. turn_id t = tid \<and> turn_state t = TurnRunning) (turns db) = None"
    using find_key_guard_None [OF assms(3) assms(1) [unfolded find_turn_def], of "\<lambda>t. turn_state t = TurnRunning"] by simp
  then show ?thesis using assms(1) by (simp add: settle_turn_cas_def turnTransitionErr_def)
qed

text \<open>C2. First terminal writer: after a turn has been settled, no later settlement of it
  succeeds, whatever ran in between; the caller is told the state the first one wrote and
  nothing changes.\<close>

theorem first_terminal_writer:
  assumes "runtime_inv db" and "SettleTurnAndAdvance fault now e1 e2 e3 tid reason db = (Inr st, db1)"
    and "rt_step\<^sup>*\<^sup>* db1 db2" and "turnStateForReason reason = Some to" and "turnStateForReason reason' = Some to'"
  shows "SettleTurnAndAdvance False now' f1 f2 f3 tid reason' db2
           = (Inl (Fail (ErrInvalidTransition (TurnSt to))), db2)
       \<and> SettleTurn False now' f1 tid reason' n db2 = (Inl (Fail (ErrInvalidTransition (TurnSt to))), db2)"
proof -
  obtain t to0 db3 where t: "turnStateForReason reason = Some to0" "find_turn tid db3 = Some (settle_turn_row now to0 t)"
    "distinct (map step_id (steps db3))" "advanceRunAfterSettleTx now e3 (turn_run_id t) reason db3 = Inr (st, db1)"
    by (rule SettleTurnAndAdvance_parts [OF assms(1,2)])
  then have "find_turn tid db1 = Some (settle_turn_row now to t)"
    using advance_spec [OF t(3,4)] assms(4) by (simp add: find_turn_def)
  moreover have trm: "IsTerminalTurn to" by (rule turnStateForReason_terminal [OF assms(4)])
  ultimately have "find_turn tid db2 = Some (settle_turn_row now to t)"
    using turn_life.terminal_frozen [OF assms(3)] by (simp add: find_turn_def)
  moreover have "runtime_inv db2"
    using rt_steps_inv [OF assms(3)] SettleTurnAndAdvance_inv [OF assms(1)] assms(2) by (metis snd_conv)
  ultimately have "settle_turn_cas now' f1 tid to' reason' m db2 = Inl (ErrInvalidTransition (TurnSt to))" for m
    using settled_turn_rejects [OF _ _ runtime_invD(3), of tid db2 "settle_turn_row now to t"] trm by simp
  then show ?thesis
    using assms(5) by (simp add: SettleTurnAndAdvance_def SettleTurn_def run_tx_def tx_bind_def)
qed

theorem first_terminal_writer_example:
  "let db1 = snd (SettleTurnAndAdvance False 14 ''e4'' ''e5'' ''e6'' ''turn'' ''completed'' example_db)
   in SettleTurnAndAdvance False 15 ''f1'' ''f2'' ''f3'' ''turn'' ''aborted'' db1
        = (Inl (Fail (ErrInvalidTransition (TurnSt TurnSucceeded))), db1)"
proof -
  have "SettleTurnAndAdvance False 14 ''e4'' ''e5'' ''e6'' ''turn'' ''completed'' example_db =
      (Inr RunRunning, snd (SettleTurnAndAdvance False 14 ''e4'' ''e5'' ''e6'' ''turn'' ''completed'' example_db))"
    by code_simp
  from first_terminal_writer [OF example_db_inv this rtranclp.rtrancl_refl, of TurnSucceeded "''aborted''" TurnAborted]
  show ?thesis by (simp add: turnStateForReason_def)
qed

text \<open>C8. One active turn per session: while a session has a pending or running turn, starting
  another turn on any run of that session is refused and changes nothing.\<close>

theorem StartTurn_busy:
  assumes "find_run rid db = Some r" and "t \<in> set (turns db)" and "turn_state t \<in> {TurnPending, TurnRunning}"
    and "turn_session_id t = run_session_id r"
  shows "StartTurn False now tid eid rid sid model db = (Inl (Fail ErrConstraint), db)"
proof -
  have "\<not> idx_turns_one_active_per_session (turns db @ [u])"
    if "turn_session_id u = run_session_id r" "turn_state u = TurnRunning" for u
    using that assms(2-4) by (auto simp: idx_turns_one_active_per_session_def active_turn_states_def intro!: image_eqI [of _ _ t])
  then show ?thesis using assms(1) by (simp add: StartTurn_def run_tx_def Let_def insert_turn_ok_def)
qed

theorem StartTurn_busy_example:
  "StartTurn False 14 ''t2'' ''e4'' ''run'' ''second'' ''gpt'' example_db = (Inl (Fail ErrConstraint), example_db)"
proof (rule StartTurn_busy)
  show "find_run ''run'' example_db = Some (the (find_run ''run'' example_db))" by code_simp
  show "hd (turns example_db) \<in> set (turns example_db)" by code_simp
  show "turn_state (hd (turns example_db)) \<in> {TurnPending, TurnRunning}" by code_simp
  show "turn_session_id (hd (turns example_db)) = run_session_id (the (find_run ''run'' example_db))" by code_simp
qed

text \<open>C7. A reader that has seen the events of a run up to \<^verbatim>\<open>LastEventSeq\<close> and later asks
  for \<^verbatim>\<open>EventsSince\<close> that number gets exactly the events recorded in between, in order,
  whatever operations ran.\<close>

theorem EventsSince_resume:
  assumes "runtime_inv db" and "rt_step\<^sup>*\<^sup>* db db'"
  shows "ListEvents rid db' = ListEvents rid db @ EventsSince rid (LastEventSeq rid db) db'"
proof -
  have inv': "runtime_inv db'" by (rule rt_steps_inv [OF assms(2,1)])
  obtain new where "run_log rid db' = run_log rid db @ new"
    using rt_steps_grow [OF assms(2)] by (auto simp: log_grows_def run_log_def)
  then show ?thesis
    using assms(1) inv' by (simp add: ListEvents_run_log EventsSince_drop LastEventSeq_length)
qed

theorem EventsSince_resume_example:
  "ListEvents ''run'' example_db = ListEvents ''run'' empty_db @ EventsSince ''run'' (LastEventSeq ''run'' empty_db) example_db"
  by (rule EventsSince_resume [OF empty_db_inv example_reachable])

section \<open>The log as an audit of the run states\<close>

















text \<open>A turn is inserted as running and never gets a \<^verbatim>\<open>started_at\<close>.\<close>

lemma StartTurn_no_started_at:
  "StartTurn fault now tid eid rid sid model db = (Inr t, db') \<Longrightarrow> turn_state t = TurnRunning \<and> turn_started_at t = None"
  by (erule StartTurn_okE) simp

end
