(* ===== verification/Json_Decode.thy ===== *)
theory Json_Decode
  imports Prelude "HOL-Library.Char_ord" "HOL-Library.List_Lexorder"
begin

text \<open>
  What the code uses of Go's \<^verbatim>\<open>encoding/json\<close>: a \<^verbatim>\<open>json.RawMessage\<close> as a value
  of \<open>raw_json\<close> (no bytes, bytes that are not JSON, or a document), decoding into a
  map, a string, a boolean, a slice and a struct, and \<^verbatim>\<open>reflect.DeepEqual\<close> on decoded
  values. Documents are taken up to insignificant white space and without duplicate member
  names. A struct field matches a member whose name agrees up to the case of ASCII letters;
  a later match overrides, and \<^verbatim>\<open>null\<close> leaves a string alone and clears a map, a slice
  or a pointer.
\<close>

datatype raw_json = RawNil | RawBad | RawJson json

definition ascii_lower :: "char \<Rightarrow> char" where
  "ascii_lower c = (if 65 \<le> (of_char c :: int) \<and> (of_char c :: int) \<le> 90 then char_of ((of_char c :: int) + 32) else c)"

definition fold_eq :: "string \<Rightarrow> string \<Rightarrow> bool" where
  "fold_eq a b = (map ascii_lower a = map ascii_lower b)"

text \<open>\<^verbatim>\<open>json.Unmarshal\<close> into \<^verbatim>\<open>map[string]json.RawMessage\<close>: null gives the nil map.\<close>

definition unmarshal_map :: "raw_json \<Rightarrow> (string \<times> json) list option" where
  "unmarshal_map r = (case r of
     RawJson (JObj kvs) \<Rightarrow> Some kvs
   | RawJson JNull \<Rightarrow> Some []
   | _ \<Rightarrow> None)"

definition raw_lookup :: "(string \<times> json) list \<Rightarrow> string \<Rightarrow> raw_json" where
  "raw_lookup kvs k = (case map_of kvs k of None \<Rightarrow> RawNil | Some j \<Rightarrow> RawJson j)"

text \<open>Into a string variable that holds \<open>""\<close>: the error is None.\<close>

definition unmarshal_string :: "raw_json \<Rightarrow> string option" where
  "unmarshal_string r = (case r of
     RawJson (JStr s) \<Rightarrow> Some s
   | RawJson JNull \<Rightarrow> Some []
   | _ \<Rightarrow> None)"

definition unmarshal_bool_ok :: "raw_json \<Rightarrow> bool" where
  "unmarshal_bool_ok r = (case r of RawJson (JBool b) \<Rightarrow> True | RawJson JNull \<Rightarrow> True | _ \<Rightarrow> False)"

definition unmarshal_list :: "raw_json \<Rightarrow> json list option" where
  "unmarshal_list r = (case r of
     RawJson (JArr xs) \<Rightarrow> Some xs
   | RawJson JNull \<Rightarrow> Some []
   | _ \<Rightarrow> None)"

fun strings_of :: "json list \<Rightarrow> string list option" where
  "strings_of [] = Some []"
| "strings_of (JStr s # js) = map_option (Cons s) (strings_of js)"
| "strings_of (JNull # js) = map_option (Cons []) (strings_of js)"
| "strings_of (_ # js) = None"

definition unmarshal_strings :: "raw_json \<Rightarrow> string list option" where
  "unmarshal_strings r = (case unmarshal_list r of None \<Rightarrow> None | Some js \<Rightarrow> strings_of js)"

section \<open>Struct fields\<close>

fun field_string :: "string \<Rightarrow> (string \<times> json) list \<Rightarrow> string \<Rightarrow> string option" where
  "field_string n [] acc = Some acc"
| "field_string n ((k, v) # kvs) acc =
     (if fold_eq k n
      then (case v of JStr s \<Rightarrow> field_string n kvs s | JNull \<Rightarrow> field_string n kvs acc | _ \<Rightarrow> None)
      else field_string n kvs acc)"

fun field_bool_ptr :: "string \<Rightarrow> (string \<times> json) list \<Rightarrow> bool option \<Rightarrow> bool option option" where
  "field_bool_ptr n [] acc = Some acc"
| "field_bool_ptr n ((k, v) # kvs) acc =
     (if fold_eq k n
      then (case v of JBool b \<Rightarrow> field_bool_ptr n kvs (Some b) | JNull \<Rightarrow> field_bool_ptr n kvs None | _ \<Rightarrow> None)
      else field_bool_ptr n kvs acc)"

fun field_map :: "string \<Rightarrow> (string \<times> json) list \<Rightarrow> (string \<times> json) list \<Rightarrow> (string \<times> json) list option" where
  "field_map n [] acc = Some acc"
| "field_map n ((k, v) # kvs) acc =
     (if fold_eq k n
      then (case v of JObj m \<Rightarrow> field_map n kvs m | JNull \<Rightarrow> field_map n kvs [] | _ \<Rightarrow> None)
      else field_map n kvs acc)"

fun field_list :: "string \<Rightarrow> (string \<times> json) list \<Rightarrow> json list \<Rightarrow> json list option" where
  "field_list n [] acc = Some acc"
| "field_list n ((k, v) # kvs) acc =
     (if fold_eq k n
      then (case v of JArr xs \<Rightarrow> field_list n kvs xs | JNull \<Rightarrow> field_list n kvs [] | _ \<Rightarrow> None)
      else field_list n kvs acc)"

text \<open>The members a struct is decoded from: null decodes into the zero struct.\<close>

definition struct_members :: "raw_json \<Rightarrow> (string \<times> json) list option" where
  "struct_members r = unmarshal_map r"

section \<open>Equality of decoded values\<close>

function json_eq :: "json \<Rightarrow> json \<Rightarrow> bool" where
  "json_eq JNull b = (b = JNull)"
| "json_eq (JBool x) b = (b = JBool x)"
| "json_eq (JNum x) b = (b = JNum x)"
| "json_eq (JStr x) b = (b = JStr x)"
| "json_eq (JArr xs) b = (case b of JArr ys \<Rightarrow> length xs = length ys \<and> list_all (\<lambda>(x, y). json_eq x y) (zip xs ys) | _ \<Rightarrow> False)"
| "json_eq (JObj m) b = (case b of
     JObj m' \<Rightarrow> length m = length m'
       \<and> list_all (\<lambda>(k, v). case map_of m' k of None \<Rightarrow> False | Some w \<Rightarrow> json_eq v w) m
   | _ \<Rightarrow> False)"
  by pat_completeness auto
termination
proof (relation "measure (\<lambda>(a, b). size a)", goal_cases)
  case (2 xs b ys z x y)
  then have "x \<in> set xs" by (auto dest: set_zip_leftD)
  then show ?case by (auto dest!: size_list_estimation'[where f = size and y = "size x"])
next
  case (3 m b m' z k v w)
  then have "size v \<le> size_list (size_prod (\<lambda>_. 0) size) m"
    by (auto intro!: size_list_estimation' [of "(k, v)"])
  then show ?case by simp
qed auto

lemma field_map_size:
  assumes "field_map n kvs acc = Some m" and "size_list (size_prod (\<lambda>_. 0) size) acc \<le> b"
    and "size_list (size_prod (\<lambda>_. 0) size) kvs \<le> b"
  shows "size_list (size_prod (\<lambda>_. 0) size) m \<le> b"
  using assms
proof (induction n kvs acc rule: field_map.induct)
  case (2 n k v kvs acc)
  then show ?case by (auto split: if_splits json.splits)
qed simp

end
