(* ===== verification/Workflow_Graph.thy ===== *)
theory Workflow_Graph
  imports Json_Decode
begin

text \<open>
  The workflow graph contract, \<^verbatim>\<open>src/control-plane/internal/workflow/graph.go\<close> with the
  canonical specification types of \<^verbatim>\<open>store.go\<close>: \<open>ValidateGraph\<close> and everything it
  calls. A validator returns the error it reports, or None; where the code iterates over a Go
  map, whose order is unspecified, the model iterates in declaration order, so only the choice
  among several errors is fixed. Whether a schema compiles is decided by the third-party
  \<^verbatim>\<open>jsonschema\<close> compiler, the parameter \<open>compiles\<close> of the definitions that reach
  \<open>compileSchema\<close>.
\<close>

section \<open>Data\<close>

record CanonicalLocalizedText = lt_en :: string lt_pt :: string

record CanonicalResultValuePresentation =
  rv_value :: raw_json
  rv_label :: CanonicalLocalizedText

record CanonicalResultFieldPresentation =
  rf_path :: "string list"
  rf_label :: CanonicalLocalizedText
  rf_options :: "CanonicalResultValuePresentation list"

record CanonicalResultOutcomePresentation =
  ro_outcome :: string
  ro_summary :: CanonicalLocalizedText

record CanonicalResultPresentation =
  rp_outcomes :: "CanonicalResultOutcomePresentation list"
  rp_fields :: "CanonicalResultFieldPresentation list"

record CanonicalHumanGateFieldPresentation =
  hf_key :: string
  hf_label :: CanonicalLocalizedText
  hf_options :: "CanonicalLocalizedText list"

record CanonicalHumanGatePresentation =
  hp_outcomes :: "CanonicalLocalizedText list"
  hp_fields :: "CanonicalHumanGateFieldPresentation list"

record CanonicalHumanGate =
  hg_type :: string
  hg_title :: CanonicalLocalizedText
  hg_description :: CanonicalLocalizedText
  hg_response_schema :: raw_json
  hg_presentation :: CanonicalHumanGatePresentation

record CanonicalNode =
  n_key :: string
  n_label :: CanonicalLocalizedText
  n_kind :: string
  n_prompt :: string
  n_model_ref :: string
  n_skills :: "string list"
  n_capabilities :: "string list"
  n_workspace_tools :: bool
  n_timeout :: string
  n_outcomes :: "string list"
  n_output_schema :: raw_json
  n_result_presentation :: "CanonicalResultPresentation option"
  n_human_gate :: "CanonicalHumanGate option"

record CanonicalEdge = ed_from :: string ed_outcome :: string ed_to :: string

record CanonicalTerminalOutcome = to_node :: string to_outcome :: string

record CanonicalGraph =
  g_entry_node :: string
  g_max_transitions :: int
  g_nodes :: "CanonicalNode list"
  g_edges :: "CanonicalEdge list"
  g_terminal_outcomes :: "CanonicalTerminalOutcome list"

record CanonicalSkill = sk_name :: string sk_version :: string sk_digest :: string

record CanonicalCapability = cap_tool :: string cap_max_effect_class :: string cap_actions :: "string list"

record CanonicalTrigger = ct_name :: string ct_binding_key :: string

record CanonicalSource = src_type :: string src_triggers :: "CanonicalTrigger list"

record CanonicalPresentation =
  cp_workflow_title :: string
  cp_persona_name :: string
  cp_persona_avatar :: string
  cp_locale :: string

record CanonicalSpec =
  sp_key :: string
  sp_scope_identity_key :: string
  sp_source :: CanonicalSource
  sp_skills :: "CanonicalSkill list"
  sp_requested_capabilities :: "CanonicalCapability list"
  sp_default_model_ref :: string
  sp_graph :: CanonicalGraph
  sp_value_model_ref :: string
  sp_presentation :: CanonicalPresentation
  sp_pool_ref :: string

text \<open>An error is the message of the source with the positions it counts and the names it
  quotes: \<open>SErr\<close> for a schema or presentation, \<open>GErr\<close> for the graph.\<close>

datatype schema_error = SErr string "string list"

datatype graph_error = GErr "nat list" string "string list" | GSchemaErr "nat list" string schema_error

section \<open>Helpers\<close>

abbreviation NodeAgentTask :: string where "NodeAgentTask \<equiv> ''agent_task''"
abbreviation NodeHumanGate :: string where "NodeHumanGate \<equiv> ''human_gate''"

definition localized :: "CanonicalLocalizedText \<Rightarrow> bool" where
  "localized t \<longleftrightarrow> lt_en t \<noteq> [] \<and> lt_pt t \<noteq> []"

definition empty_schema :: "raw_json \<Rightarrow> bool" where
  "empty_schema r \<longleftrightarrow> r = RawNil \<or> r = RawJson (JObj [])"

text \<open>The first error of a list of checks, in order.\<close>

fun first_error :: "'e option list \<Rightarrow> 'e option" where
  "first_error [] = None"
| "first_error (Some e # _) = Some e"
| "first_error (None # cs) = first_error cs"

definition check :: "bool \<Rightarrow> 'e \<Rightarrow> 'e option" where
  "check ok e = (if ok then None else Some e)"

fun first_error_idx :: "nat \<Rightarrow> (nat \<Rightarrow> 'a \<Rightarrow> 'e option) \<Rightarrow> 'a list \<Rightarrow> 'e option" where
  "first_error_idx i f [] = None"
| "first_error_idx i f (x # xs) = (case f i x of Some e \<Rightarrow> Some e | None \<Rightarrow> first_error_idx (Suc i) f xs)"

lemma first_error_None [simp]: "first_error cs = None \<longleftrightarrow> (\<forall>c \<in> set cs. c = None)"
  by (induction cs rule: first_error.induct) auto

lemma check_None [simp]: "check ok e = None \<longleftrightarrow> ok"
  by (simp add: check_def)

lemma first_error_idx_None:
  "first_error_idx i f xs = None \<longleftrightarrow> (\<forall>j < length xs. f (i + j) (xs ! j) = None)"
proof (induction xs arbitrary: i)
  case (Cons x xs)
  have "(\<forall>j < length (x # xs). f (i + j) ((x # xs) ! j) = None)
      \<longleftrightarrow> f i x = None \<and> (\<forall>j < length xs. f (Suc i + j) (xs ! j) = None)"
    by (auto simp: nth_Cons split: nat.splits)
  then show ?case using Cons by (auto split: option.splits)
qed simp

section \<open>Durations\<close>

text \<open>\<^verbatim>\<open>time.ParseDuration\<close>: an optional sign, then one or more decimal numbers each with
  a unit. The result is in nanoseconds and must fit in 63 bits; a fraction is cut at the
  nanosecond.\<close>

definition is_digit :: "char \<Rightarrow> bool" where
  "is_digit c \<longleftrightarrow> 48 \<le> (of_char c :: int) \<and> (of_char c :: int) \<le> 57"

fun digits_value :: "int \<Rightarrow> string \<Rightarrow> int" where
  "digits_value acc [] = acc"
| "digits_value acc (c # cs) = digits_value (10 * acc + (of_char c - 48)) cs"

definition duration_unit :: "string \<Rightarrow> int option" where
  "duration_unit u =
     (if u = ''ns'' then Some 1
      else if u = ''us'' \<or> u = [CHR 0xC2, CHR 0xB5, CHR ''s''] \<or> u = [CHR 0xCE, CHR 0xBC, CHR ''s''] then Some 1000
      else if u = ''ms'' then Some 1000000
      else if u = ''s'' then Some 1000000000
      else if u = ''m'' then Some (60 * 1000000000)
      else if u = ''h'' then Some (3600 * 1000000000)
      else None)"

definition parse_duration_part :: "string \<Rightarrow> (int \<times> string) option" where
  "parse_duration_part s =
     (let pre = takeWhile is_digit s; s1 = dropWhile is_digit s;
          dot = (case s1 of c # _ \<Rightarrow> c = CHR ''.'' | [] \<Rightarrow> False);
          post = (if dot then takeWhile is_digit (tl s1) else []);
          s2 = (if dot then dropWhile is_digit (tl s1) else s1);
          stop = (\<lambda>c. c = CHR ''.'' \<or> is_digit c);
          u = takeWhile (\<lambda>c. \<not> stop c) s2; rest = dropWhile (\<lambda>c. \<not> stop c) s2
      in if pre = [] \<and> post = [] then None
         else case duration_unit u of
           None \<Rightarrow> None
         | Some unit \<Rightarrow> Some (digits_value 0 pre * unit + digits_value 0 post * unit div 10 ^ length post, rest))"

text \<open>Each part consumes at least one character, so the length of the string is enough fuel.\<close>

fun parse_duration_parts :: "nat \<Rightarrow> int \<Rightarrow> string \<Rightarrow> int option" where
  "parse_duration_parts fuel acc [] = Some acc"
| "parse_duration_parts 0 acc (c # cs) = None"
| "parse_duration_parts (Suc fuel) acc (c # cs) =
     (case parse_duration_part (c # cs) of
        None \<Rightarrow> None
      | Some (v, rest) \<Rightarrow> if acc + v > 2 ^ 63 then None else parse_duration_parts fuel (acc + v) rest)"

definition ParseDuration :: "string \<Rightarrow> int option" where
  "ParseDuration s =
     (let neg = (case s of c # _ \<Rightarrow> c = CHR ''-'' | [] \<Rightarrow> False);
          body = (case s of c # cs \<Rightarrow> if c = CHR ''-'' \<or> c = CHR ''+'' then cs else s | [] \<Rightarrow> s)
      in if body = ''0'' then Some 0
         else if body = [] then None
         else case parse_duration_parts (length body) 0 body of
           None \<Rightarrow> None
         | Some d \<Rightarrow> if neg then Some (- d) else if d > 2 ^ 63 - 1 then None else Some d)"

section \<open>Result presentations\<close>

definition unsupported_keywords :: "string list" where
  "unsupported_keywords = [''$ref'', ''allOf'', ''anyOf'', ''if'', ''not'', ''oneOf'']"

definition unsupported_in :: "(string \<times> json) list \<Rightarrow> string option" where
  "unsupported_in schema = find (\<lambda>k. map_of schema k \<noteq> None) unsupported_keywords"

definition type_or_empty :: "(string \<times> json) list \<Rightarrow> string" where
  "type_or_empty schema = (case unmarshal_string (raw_lookup schema ''type'') of None \<Rightarrow> [] | Some t \<Rightarrow> t)"

definition has_member :: "(string \<times> json) list \<Rightarrow> string \<Rightarrow> bool" where
  "has_member schema k \<longleftrightarrow> map_of schema k \<noteq> None"

text \<open>The schema a field is presented by (an array by its items), its type, and whether it is
  an enumeration.\<close>

definition effectiveResultSchema :: "json \<Rightarrow> schema_error + json \<times> string \<times> bool" where
  "effectiveResultSchema raw =
     (case unmarshal_map (RawJson raw) of
        None \<Rightarrow> Inl (SErr ''schema must be an object'' [])
      | Some schema \<Rightarrow>
          (case unsupported_in schema of
             Some k \<Rightarrow> Inl (SErr ''schema keyword is not supported by resultPresentation'' [k])
           | None \<Rightarrow>
               if has_member schema ''enum'' then Inr (raw, type_or_empty schema, True)
               else if type_or_empty schema = ''array'' then
                 (case map_of schema ''items'' of
                    None \<Rightarrow> Inl (SErr ''array schema must declare direct items'' [])
                  | Some items \<Rightarrow>
                      (case unmarshal_map (RawJson items) of
                         None \<Rightarrow> Inl (SErr ''item schema must be an object'' [])
                       | Some item_schema \<Rightarrow>
                           (case unsupported_in item_schema of
                              Some k \<Rightarrow> Inl (SErr ''item schema keyword is not supported by resultPresentation'' [k])
                            | None \<Rightarrow>
                                if has_member item_schema ''enum'' then Inr (items, type_or_empty item_schema, True)
                                else if type_or_empty item_schema = [] then Inl (SErr ''schema must declare a direct type or enum'' [])
                                else Inr (items, type_or_empty item_schema, False))))
               else if type_or_empty schema = [] then Inl (SErr ''schema must declare a direct type or enum'' [])
               else Inr (raw, type_or_empty schema, False)))"

definition validatePropertylessResultRoot :: "string \<Rightarrow> bool option \<Rightarrow> schema_error option" where
  "validatePropertylessResultRoot schemaType additional =
     (if schemaType \<noteq> ''object'' then Some (SErr ''requires a direct object schema'' [])
      else if additional = None \<or> additional = Some True then Some (SErr ''root schema must set additionalProperties to false'' [])
      else None)"

definition sorted_members :: "(string \<times> json) list \<Rightarrow> (string \<times> json) list" where
  "sorted_members m = sort_key fst m"

abbreviation members_size :: "(string \<times> json) list \<Rightarrow> nat" where
  "members_size m \<equiv> size_list (size_prod (\<lambda>_. 0) size) m"

lemma members_size_sorted [simp]: "members_size (sorted_members m) = members_size m"
proof -
  have "members_size (insort_key fst x xs) = members_size (x # xs)" for x :: "string \<times> json" and xs
    by (induction xs) auto
  then show ?thesis unfolding sorted_members_def by (induction m) auto
qed

lemma map_of_members_size: "map_of m k = Some v \<Longrightarrow> size v < members_size m"
  by (induction m) (auto split: if_splits)

lemma effectiveResultSchema_size: "effectiveResultSchema raw = Inr (eff, ty, en) \<Longrightarrow> size eff \<le> size raw"
  by (auto simp: effectiveResultSchema_def unmarshal_map_def dest!: map_of_members_size
      split: option.splits if_splits json.splits)

definition decode_object_schema :: "json \<Rightarrow> (string \<times> (string \<times> json) list \<times> bool option) option" where
  "decode_object_schema raw =
     (case struct_members (RawJson raw) of
        None \<Rightarrow> None
      | Some kvs \<Rightarrow>
          (case (field_string ''type'' kvs [], field_map ''properties'' kvs [], field_bool_ptr ''additionalProperties'' kvs None) of
             (Some ty, Some props, Some additional) \<Rightarrow> Some (ty, props, additional)
           | _ \<Rightarrow> None))"

lemma decode_object_schema_size:
  assumes "decode_object_schema raw = Some (ty, props, additional)"
  shows "props = [] \<or> members_size props < size raw"
proof -
  obtain kvs where kvs: "struct_members (RawJson raw) = Some kvs" "field_map ''properties'' kvs [] = Some props"
    using assms by (auto simp: decode_object_schema_def split: option.splits)
  then have "members_size props \<le> members_size kvs"
    using field_map_size [of _ kvs "[]" props "members_size kvs"] by simp
  then show ?thesis using kvs by (auto simp: struct_members_def unmarshal_map_def split: json.splits)
qed

text \<open>The declared property paths of a result schema, each with its schema.\<close>

function collectResultSchemaFields ::
    "json \<Rightarrow> string list \<Rightarrow> (string list \<times> json) list \<Rightarrow> schema_error + (string list \<times> json) list"
  and collect_members ::
    "(string \<times> json) list \<Rightarrow> string list \<Rightarrow> (string list \<times> json) list \<Rightarrow> schema_error + (string list \<times> json) list"
where
  "collectResultSchemaFields raw prefix out =
     (case decode_object_schema raw of
        None \<Rightarrow> Inl (SErr ''schema must be an object'' [])
      | Some (ty, props, additional) \<Rightarrow>
          if props = [] then
            (if prefix \<noteq> [] then Inl (SErr ''object path must declare direct properties'' prefix)
             else case validatePropertylessResultRoot ty additional of Some e \<Rightarrow> Inl e | None \<Rightarrow> Inr out)
          else if ty \<noteq> ''object'' then Inl (SErr ''requires a direct object schema'' [])
          else if additional = None \<or> additional = Some True then
            Inl (SErr ''schema with presented properties must set additionalProperties to false'' [])
          else collect_members (sorted_members props) prefix out)"
| "collect_members [] prefix out = Inr out"
| "collect_members ((k, fieldSchema) # rest) prefix out =
     (let fieldPath = prefix @ [k]; out1 = (fieldPath, fieldSchema) # out
      in case effectiveResultSchema fieldSchema of
           Inl e \<Rightarrow> Inl e
         | Inr (effective, effectiveType, hasEnum) \<Rightarrow>
             if \<not> hasEnum \<and> effectiveType = ''object''
             then (case collectResultSchemaFields effective fieldPath out1 of
                     Inl e \<Rightarrow> Inl e
                   | Inr out2 \<Rightarrow> collect_members rest prefix out2)
             else collect_members rest prefix out1)"
  by pat_completeness auto
termination
  by (relation "measure (\<lambda>x. case x of Inl (raw, _, _) \<Rightarrow> size raw | Inr (m, _, _) \<Rightarrow> members_size m)")
     (auto dest: decode_object_schema_size effectiveResultSchema_size)

fun match_options :: "nat \<Rightarrow> CanonicalResultValuePresentation list \<Rightarrow> (json \<times> bool) list \<Rightarrow> schema_error option" where
  "match_options i [] values = None"
| "match_options i (opt # rest) values =
     (if \<not> localized (rv_label opt) then Some (SErr ''options label requires en and pt text'' [])
      else case List.extract (\<lambda>(v, used). \<not> used \<and> (case rv_value opt of RawJson j \<Rightarrow> json_eq j v | _ \<Rightarrow> False)) values of
        None \<Rightarrow> Some (SErr ''options value is not an unmatched schema enum value'' [])
      | Some (before, (v, _), after) \<Rightarrow> match_options (Suc i) rest (before @ (v, True) # after))"

definition validateResultOptions ::
  "raw_json \<Rightarrow> CanonicalResultValuePresentation list \<Rightarrow> schema_error option" where
  "validateResultOptions enumRaw options =
     (if enumRaw = RawNil then check (options = []) (SErr ''options require a schema enum'' [])
      else case unmarshal_list enumRaw of
        None \<Rightarrow> Some (SErr ''enum must contain at least one value'' [])
      | Some values \<Rightarrow>
          if values = [] then Some (SErr ''enum must contain at least one value'' [])
          else if length options \<noteq> length values then Some (SErr ''options must localize every enum value exactly once'' [])
          else match_options 0 options (map (\<lambda>v. (v, False)) values))"

definition validateResultFieldSchema ::
  "json \<Rightarrow> CanonicalResultValuePresentation list \<Rightarrow> schema_error option" where
  "validateResultFieldSchema raw options =
     (case effectiveResultSchema raw of
        Inl e \<Rightarrow> Some e
      | Inr (effective, effectiveType, hasEnum) \<Rightarrow>
          (case unmarshal_map (RawJson effective) of
             None \<Rightarrow> Some (SErr ''schema must be an object'' [])
           | Some schema \<Rightarrow>
               first_error [validateResultOptions (raw_lookup schema ''enum'') options,
                 check (hasEnum \<or> effectiveType \<in> {''string'', ''boolean'', ''number'', ''integer'', ''object''})
                   (SErr ''type is not supported by resultPresentation'' [effectiveType])]))"

fun indexResultPresentations ::
  "nat \<Rightarrow> CanonicalResultFieldPresentation list \<Rightarrow> (string list \<times> json) list \<Rightarrow> string list list
   \<Rightarrow> schema_error + string list list" where
  "indexResultPresentations i [] schemas indexed = Inr indexed"
| "indexResultPresentations i (f # fs) schemas indexed =
     (if rf_path f = [] then Inl (SErr ''path is required'' [])
      else if [] \<in> set (rf_path f) then Inl (SErr ''path cannot contain an empty segment'' [])
      else if rf_path f \<in> set indexed then Inl (SErr ''path is duplicated'' (rf_path f))
      else if \<not> localized (rf_label f) then Inl (SErr ''label requires en and pt text'' (rf_path f))
      else case map_of schemas (rf_path f) of
        None \<Rightarrow> Inl (SErr ''path does not exist in the result schema'' (rf_path f))
      | Some schema \<Rightarrow>
          (case validateResultFieldSchema schema (rf_options f) of
             Some e \<Rightarrow> Inl e
           | None \<Rightarrow> indexResultPresentations (Suc i) fs schemas (rf_path f # indexed)))"

definition validateResultFields ::
  "raw_json \<Rightarrow> CanonicalResultFieldPresentation list \<Rightarrow> schema_error option" where
  "validateResultFields raw flds =
     (if empty_schema raw then check (flds = []) (SErr ''cannot declare fields without a direct object schema'' [])
      else case raw of
        RawJson j \<Rightarrow>
          (case collectResultSchemaFields j [] [] of
             Inl e \<Rightarrow> Some e
           | Inr schemas \<Rightarrow>
               (case indexResultPresentations 0 flds schemas [] of
                  Inl e \<Rightarrow> Some e
                | Inr indexed \<Rightarrow>
                    first_error [check (length indexed = length schemas) (SErr ''must present every declared schema property exactly once'' []),
                      check (\<forall>p \<in> set (map fst schemas). p \<in> set indexed) (SErr ''schema property path requires localized presentation'' [])]))
      | _ \<Rightarrow> Some (SErr ''schema must be an object'' []))"

section \<open>Human gates\<close>

definition responseSchemaProperties :: "raw_json \<Rightarrow> schema_error + (string \<times> json) list" where
  "responseSchemaProperties raw =
     (if empty_schema raw then Inr []
      else case struct_members raw of
        None \<Rightarrow> Inl (SErr ''read response-schema properties'' [])
      | Some kvs \<Rightarrow>
          (case field_map ''properties'' kvs [] of
             None \<Rightarrow> Inl (SErr ''read response-schema properties'' [])
           | Some props \<Rightarrow> Inr props))"

definition dashboard_property_keywords :: "string list" where
  "dashboard_property_keywords =
     [''$comment'', ''$id'', ''$schema'', ''default'', ''deprecated'', ''description'', ''enum'', ''examples'',
      ''readOnly'', ''title'', ''type'', ''writeOnly'']"

definition dashboard_schema_keywords :: "string list" where
  "dashboard_schema_keywords =
     [''$comment'', ''$id'', ''$schema'', ''additionalProperties'', ''default'', ''deprecated'', ''description'',
      ''examples'', ''properties'', ''readOnly'', ''required'', ''title'', ''type'', ''writeOnly'']"

definition validateDashboardResponseProperty :: "string \<Rightarrow> json \<Rightarrow> schema_error option" where
  "validateDashboardResponseProperty key raw =
     (case unmarshal_map (RawJson raw) of
        None \<Rightarrow> Some (SErr ''property must be a JSON object'' [key])
      | Some property \<Rightarrow>
          (case find (\<lambda>k. k \<notin> set dashboard_property_keywords) (map fst property) of
             Some k \<Rightarrow> Some (SErr ''property keyword is not supported by the v1 Dashboard form'' [key, k])
           | None \<Rightarrow>
               if has_member property ''enum'' then
                 (case unmarshal_list (raw_lookup property ''enum'') of
                    None \<Rightarrow> Some (SErr ''property enum must contain at least one value'' [key])
                  | Some values \<Rightarrow> check (values \<noteq> []) (SErr ''property enum must contain at least one value'' [key]))
               else
                 (case unmarshal_string (raw_lookup property ''type'') of
                    None \<Rightarrow> Some (SErr ''property must declare a direct type or enum'' [key])
                  | Some ty \<Rightarrow> check (ty \<in> {''string'', ''boolean'', ''number'', ''integer'', ''object'', ''array''})
                      (SErr ''property type is not supported by the v1 Dashboard form'' [key, ty]))))"

definition validateDashboardResponseSchema :: "raw_json \<Rightarrow> schema_error option" where
  "validateDashboardResponseSchema raw =
     (if empty_schema raw then None
      else case unmarshal_map raw of
        None \<Rightarrow> Some (SErr ''must be a JSON object'' [])
      | Some schema \<Rightarrow>
          (case find (\<lambda>k. k \<notin> set dashboard_schema_keywords) (map fst schema) of
             Some k \<Rightarrow> Some (SErr ''keyword is not supported by the v1 Dashboard form'' [k])
           | None \<Rightarrow>
               if unmarshal_string (raw_lookup schema ''type'') \<noteq> Some ''object''
               then Some (SErr ''must declare type object for the v1 Dashboard form'' [])
               else case responseSchemaProperties raw of
                 Inl e \<Rightarrow> Some e
               | Inr properties \<Rightarrow>
                   (case (if has_member schema ''required'' then unmarshal_strings (raw_lookup schema ''required'') else Some []) of
                      None \<Rightarrow> Some (SErr ''required must be an array of property names'' [])
                    | Some required \<Rightarrow>
                        (case find (\<lambda>k. \<not> has_member properties k) required of
                           Some k \<Rightarrow> Some (SErr ''required property must be declared directly in properties'' [k])
                         | None \<Rightarrow>
                             first_error
                               (check (\<not> has_member schema ''additionalProperties''
                                       \<or> unmarshal_bool_ok (raw_lookup schema ''additionalProperties''))
                                  (SErr ''additionalProperties must be a boolean for the v1 Dashboard form'' [])
                                # map (\<lambda>(k, p). validateDashboardResponseProperty k p) properties)))))"

definition validateLocalizedLabels :: "CanonicalLocalizedText list \<Rightarrow> schema_error option" where
  "validateLocalizedLabels labels = check (list_all localized labels) (SErr ''requires en and pt text'' [])"

fun indexHumanGateFields ::
  "CanonicalHumanGateFieldPresentation list \<Rightarrow> (string \<times> CanonicalHumanGateFieldPresentation) list
   \<Rightarrow> schema_error + (string \<times> CanonicalHumanGateFieldPresentation) list" where
  "indexHumanGateFields [] indexed = Inr indexed"
| "indexHumanGateFields (f # fs) indexed =
     (if hf_key f = [] then Inl (SErr ''fields key is required'' [])
      else if map_of indexed (hf_key f) \<noteq> None then Inl (SErr ''field is duplicated'' [hf_key f])
      else if \<not> localized (hf_label f) then Inl (SErr ''field label requires en and pt text'' [hf_key f])
      else indexHumanGateFields fs ((hf_key f, f) # indexed))"

definition validateHumanGateFieldOptions ::
  "string \<Rightarrow> json \<Rightarrow> CanonicalLocalizedText list \<Rightarrow> schema_error option" where
  "validateHumanGateFieldOptions key raw labels =
     (case struct_members (RawJson raw) of
        None \<Rightarrow> Some (SErr ''responseSchema property must be an object'' [key])
      | Some kvs \<Rightarrow>
          (case field_list ''enum'' kvs [] of
             None \<Rightarrow> Some (SErr ''responseSchema property must be an object'' [key])
           | Some enum \<Rightarrow>
               first_error [check (length labels = length enum)
                   (SErr ''field options must provide one localized label for each enum value'' [key]),
                 validateLocalizedLabels labels]))"

definition validateHumanGatePresentation :: "CanonicalNode \<Rightarrow> CanonicalHumanGate \<Rightarrow> schema_error option" where
  "validateHumanGatePresentation node gate =
     (let presentation = hg_presentation gate
      in if length (hp_outcomes presentation) \<noteq> length (n_outcomes node)
         then Some (SErr ''outcomes must provide one localized label for each declared outcome'' [])
         else case validateLocalizedLabels (hp_outcomes presentation) of
           Some e \<Rightarrow> Some e
         | None \<Rightarrow>
             (case responseSchemaProperties (hg_response_schema gate) of
                Inl e \<Rightarrow> Some e
              | Inr properties \<Rightarrow>
                  (case indexHumanGateFields (hp_fields presentation) [] of
                     Inl e \<Rightarrow> Some e
                   | Inr flds \<Rightarrow>
                       first_error
                         (map (\<lambda>(k, _). check (has_member properties k) (SErr ''field does not exist in responseSchema.properties'' [k])) flds
                          @ map (\<lambda>(k, prop).
                              case map_of flds k of
                                None \<Rightarrow> Some (SErr ''responseSchema property requires localized presentation'' [k])
                              | Some f \<Rightarrow> validateHumanGateFieldOptions k prop (hf_options f)) (sorted_members properties)))))"

section \<open>Nodes\<close>

definition compileSchema :: "(raw_json \<Rightarrow> bool) \<Rightarrow> raw_json \<Rightarrow> bool" where
  "compileSchema compiles raw = (empty_schema raw \<or> compiles raw)"

fun first_duplicate :: "string list \<Rightarrow> string list \<Rightarrow> (string \<Rightarrow> bool) \<Rightarrow> (string \<times> bool) option" where
  "first_duplicate seen [] declared = None"
| "first_duplicate seen (x # xs) declared =
     (if x \<in> set seen then Some (x, True)
      else if \<not> declared x then Some (x, False)
      else first_duplicate (x # seen) xs declared)"

fun check_outcomes :: "nat \<Rightarrow> nat \<Rightarrow> string list \<Rightarrow> string list \<Rightarrow> graph_error option" where
  "check_outcomes i j seen [] = None"
| "check_outcomes i j seen (x # xs) =
     (if x = [] then Some (GErr [i, j] ''outcomes is empty'' [])
      else if x \<in> set seen then Some (GErr [i] ''outcome is duplicated'' [x])
      else check_outcomes i (Suc j) (x # seen) xs)"

definition check_names :: "nat \<Rightarrow> string \<Rightarrow> string \<Rightarrow> string list \<Rightarrow> string list \<Rightarrow> graph_error option" where
  "check_names i dup undeclared names declared =
     (case first_duplicate [] names (\<lambda>x. x \<in> set declared) of
        None \<Rightarrow> None
      | Some (x, True) \<Rightarrow> Some (GErr [i] dup [x])
      | Some (x, False) \<Rightarrow> Some (GErr [i] undeclared [x]))"

definition check_agent_task :: "(raw_json \<Rightarrow> bool) \<Rightarrow> CanonicalSpec \<Rightarrow> nat \<Rightarrow> CanonicalNode \<Rightarrow> graph_error option" where
  "check_agent_task compiles spec i n = first_error
     [check (n_prompt n \<noteq> []) (GErr [i] ''prompt is required for agent_task'' []),
      check (n_human_gate n = None) (GErr [i] ''humanGate is forbidden for agent_task'' []),
      check (n_model_ref n \<noteq> [] \<or> sp_default_model_ref spec \<noteq> []) (GErr [i] ''requires modelRef or spec.defaultModelRef'' []),
      check_names i ''skill is duplicated'' ''skill is not declared by the workflow'' (n_skills n) (map sk_name (sp_skills spec)),
      check_names i ''capability is duplicated'' ''capability is not requested by the workflow'' (n_capabilities n)
        (map cap_tool (sp_requested_capabilities spec)),
      check (n_timeout n = [] \<or> (case ParseDuration (n_timeout n) of None \<Rightarrow> False | Some d \<Rightarrow> d > 0))
        (GErr [i] ''timeout must be a positive duration'' []),
      check (compileSchema compiles (n_output_schema n)) (GErr [i] ''outputSchema'' [])]"

definition check_human_gate :: "(raw_json \<Rightarrow> bool) \<Rightarrow> nat \<Rightarrow> CanonicalNode \<Rightarrow> graph_error option" where
  "check_human_gate compiles i n =
     (if n_prompt n \<noteq> [] \<or> n_model_ref n \<noteq> [] \<or> n_skills n \<noteq> [] \<or> n_capabilities n \<noteq> [] \<or> n_workspace_tools n
      then Some (GErr [i] ''human_gate cannot declare agent prompt/model/skills/capabilities/workspaceTools'' [])
      else if n_output_schema n \<noteq> RawNil then Some (GErr [i] ''outputSchema is forbidden for human_gate'' [])
      else case n_human_gate n of
        None \<Rightarrow> Some (GErr [i] ''humanGate is required for human_gate'' [])
      | Some gate \<Rightarrow> first_error
          [check (hg_type gate \<in> {''information'', ''decision'', ''approval'', ''artifact''}) (GErr [i] ''humanGate.type is invalid'' [hg_type gate]),
           check (localized (hg_title gate)) (GErr [i] ''humanGate.title requires en and pt text'' []),
           check (localized (hg_description gate)) (GErr [i] ''humanGate.description requires en and pt text'' []),
           check (compileSchema compiles (hg_response_schema gate)) (GErr [i] ''humanGate.responseSchema'' []),
           map_option (GSchemaErr [i] ''humanGate.responseSchema'') (validateDashboardResponseSchema (hg_response_schema gate)),
           map_option (GSchemaErr [i] ''humanGate.presentation'') (validateHumanGatePresentation n gate)])"

fun check_nodes :: "(raw_json \<Rightarrow> bool) \<Rightarrow> CanonicalSpec \<Rightarrow> nat \<Rightarrow> string list \<Rightarrow> CanonicalNode list \<Rightarrow> graph_error option" where
  "check_nodes compiles spec i seen [] = None"
| "check_nodes compiles spec i seen (n # ns) = first_error
     [check (n_key n \<noteq> []) (GErr [i] ''key is required'' []),
      check (n_key n \<notin> set seen) (GErr [i] ''key is duplicated'' [n_key n]),
      check (localized (n_label n)) (GErr [i] ''label requires en and pt text'' []),
      check (n_outcomes n \<noteq> []) (GErr [i] ''outcomes must not be empty'' []),
      check_outcomes i 0 [] (n_outcomes n),
      (if n_kind n = NodeAgentTask then check_agent_task compiles spec i n
       else if n_kind n = NodeHumanGate then check_human_gate compiles i n
       else Some (GErr [i] ''kind is unknown'' [n_kind n])),
      check_nodes compiles spec (Suc i) (n_key n # seen) ns]"

section \<open>Walking the graph\<close>

text \<open>\<^verbatim>\<open>walk\<close>: breadth-first search over the adjacency list \<open>es\<close>; \<open>visit\<close> is
  its inner loop over the successors of the current node.\<close>

fun visit :: "string list \<Rightarrow> string list \<Rightarrow> string list \<Rightarrow> string list \<times> string list" where
  "visit [] seen queue = (seen, queue)"
| "visit (x # xs) seen queue = (if x \<in> set seen then visit xs seen queue else visit xs (x # seen) (queue @ [x]))"

definition successors :: "(string \<times> string) list \<Rightarrow> string \<Rightarrow> string list" where
  "successors es cur = map snd (filter (\<lambda>e. fst e = cur) es)"

lemma visit_seen: "set (fst (visit xs seen queue)) = set seen \<union> set xs"
  by (induction xs seen queue rule: visit.induct) auto

lemma visit_queue: "set (snd (visit xs seen queue)) = set queue \<union> (set xs - set seen)"
  by (induction xs seen queue rule: visit.induct) auto

lemma visit_idle: "set xs \<subseteq> set seen \<Longrightarrow> visit xs seen queue = (seen, queue)"
  by (induction xs seen queue rule: visit.induct) auto

lemma set_successors: "set (successors es cur) = {y. (cur, y) \<in> set es}"
  by (force simp: successors_def)

function walk_loop :: "(string \<times> string) list \<Rightarrow> string list \<Rightarrow> string list \<Rightarrow> string list" where
  "walk_loop es seen [] = seen"
| "walk_loop es seen (cur # queue) =
     (let (seen', queue') = visit (successors es cur) seen queue in walk_loop es seen' queue')"
  by pat_completeness auto
termination
proof (relation "measures [\<lambda>(es, seen, q). card (snd ` set es - set seen), \<lambda>(es, seen, q). length q]", goal_cases)
  case (2 es seen cur queue x seen' queue')
  then have v: "visit (successors es cur) seen queue = (seen', queue')" by simp
  show ?case
  proof (cases "set (successors es cur) \<subseteq> set seen")
    case True
    then show ?thesis using v by (simp add: visit_idle)
  next
    case False
    have "set seen' = set seen \<union> set (successors es cur)" using visit_seen v by (metis fst_conv)
    moreover have "set (successors es cur) \<subseteq> snd ` set es" by (force simp: set_successors)
    ultimately have "snd ` set es - set seen' \<subset> snd ` set es - set seen" using False by auto
    then have "card (snd ` set es - set seen') < card (snd ` set es - set seen)" by (intro psubset_card_mono) auto
    then show ?thesis by simp
  qed
qed simp

definition walk :: "string \<Rightarrow> (string \<times> string) list \<Rightarrow> string list" where
  "walk start es = walk_loop es [start] [start]"

section \<open>Routes\<close>

definition outcome_declared :: "CanonicalNode list \<Rightarrow> string \<Rightarrow> string \<Rightarrow> bool" where
  "outcome_declared ns k out =
     (case map_of (map (\<lambda>n. (n_key n, n_outcomes n)) ns) k of None \<Rightarrow> False | Some os \<Rightarrow> out \<in> set os)"

type_synonym routes = "((string \<times> string) \<times> string) list"

fun check_edges :: "CanonicalNode list \<Rightarrow> nat \<Rightarrow> routes \<Rightarrow> CanonicalEdge list \<Rightarrow> graph_error + routes" where
  "check_edges ns i rs [] = Inr rs"
| "check_edges ns i rs (e # es) =
     (if ed_from e \<notin> set (map n_key ns) then Inl (GErr [i] ''edges.from does not reference a node'' [ed_from e])
      else if ed_to e \<notin> set (map n_key ns) then Inl (GErr [i] ''edges.to does not reference a node'' [ed_to e])
      else if \<not> outcome_declared ns (ed_from e) (ed_outcome e)
        then Inl (GErr [i] ''edges outcome is not declared by node'' [ed_outcome e, ed_from e])
      else if map_of rs (ed_from e, ed_outcome e) \<noteq> None
        then Inl (GErr [] ''graph outcome has multiple routes'' [ed_from e, ed_outcome e])
      else check_edges ns (Suc i) (((ed_from e, ed_outcome e), ed_to e) # rs) es)"

fun check_terminals :: "CanonicalNode list \<Rightarrow> nat \<Rightarrow> routes \<Rightarrow> CanonicalTerminalOutcome list \<Rightarrow> graph_error + routes" where
  "check_terminals ns i rs [] = Inr rs"
| "check_terminals ns i rs (t # ts) =
     (if to_node t \<notin> set (map n_key ns) then Inl (GErr [i] ''terminalOutcomes.node does not reference a node'' [to_node t])
      else if \<not> outcome_declared ns (to_node t) (to_outcome t)
        then Inl (GErr [i] ''terminalOutcomes outcome is not declared by node'' [to_outcome t, to_node t])
      else if map_of rs (to_node t, to_outcome t) \<noteq> None
        then Inl (GErr [] ''graph outcome is both terminal and routed'' [to_node t, to_outcome t])
      else check_terminals ns (Suc i) (((to_node t, to_outcome t), ''$terminal'') # rs) ts)"

fun check_outcome_presentations ::
  "string \<Rightarrow> string list \<Rightarrow> string list \<Rightarrow> CanonicalResultOutcomePresentation list \<Rightarrow> graph_error option" where
  "check_outcome_presentations k terminal seen [] = None"
| "check_outcome_presentations k terminal seen (p # ps) =
     (if ro_outcome p \<notin> set terminal then Some (GErr [] ''resultPresentation.outcomes references non-terminal outcome'' [k, ro_outcome p])
      else if ro_outcome p \<in> set seen then Some (GErr [] ''resultPresentation outcome is duplicated'' [k, ro_outcome p])
      else if \<not> localized (ro_summary p) then Some (GErr [] ''resultPresentation outcome summary requires en and pt text'' [k, ro_outcome p])
      else check_outcome_presentations k terminal (ro_outcome p # seen) ps)"

definition validateResultOutcomePresentations ::
  "string \<Rightarrow> string list \<Rightarrow> CanonicalResultOutcomePresentation list \<Rightarrow> graph_error option" where
  "validateResultOutcomePresentations k terminal presentations =
     (if length presentations \<noteq> length terminal
      then Some (GErr [] ''resultPresentation.outcomes must cover each terminal outcome exactly once'' [k])
      else check_outcome_presentations k terminal [] presentations)"

definition terminal_outcomes_of :: "CanonicalTerminalOutcome list \<Rightarrow> string \<Rightarrow> string list" where
  "terminal_outcomes_of ts k = remdups (map to_outcome (filter (\<lambda>t. to_node t = k) ts))"

definition node_result_schema :: "CanonicalNode \<Rightarrow> raw_json" where
  "node_result_schema n =
     (if n_kind n = NodeHumanGate then (case n_human_gate n of None \<Rightarrow> RawNil | Some g \<Rightarrow> hg_response_schema g)
      else n_output_schema n)"

definition validateResultPresentation :: "CanonicalTerminalOutcome list \<Rightarrow> CanonicalNode \<Rightarrow> graph_error option" where
  "validateResultPresentation ts n =
     (let k = n_key n; terminal = terminal_outcomes_of ts k
      in case n_result_presentation n of
           None \<Rightarrow> check (terminal = []) (GErr [] ''requires resultPresentation for its terminal outcomes'' [k])
         | Some rp \<Rightarrow>
             if terminal = [] then Some (GErr [] ''resultPresentation is only allowed on a terminal node'' [k])
             else first_error [validateResultOutcomePresentations k terminal (rp_outcomes rp),
                    map_option (GSchemaErr [] k) (validateResultFields (node_result_schema n) (rp_fields rp))])"

definition validateResultPresentations :: "CanonicalNode list \<Rightarrow> CanonicalTerminalOutcome list \<Rightarrow> graph_error option" where
  "validateResultPresentations ns ts = first_error (map (validateResultPresentation ts) (sort_key n_key ns))"

definition edge_pairs :: "CanonicalGraph \<Rightarrow> (string \<times> string) list" where
  "edge_pairs g = map (\<lambda>e. (ed_from e, ed_to e)) (g_edges g)"

definition check_routing :: "CanonicalGraph \<Rightarrow> graph_error option" where
  "check_routing g =
     (let ns = g_nodes g; keys = map n_key ns
      in case check_edges ns 0 [] (g_edges g) of
           Inl e \<Rightarrow> Some e
         | Inr rs0 \<Rightarrow>
             (case check_terminals ns 0 rs0 (g_terminal_outcomes g) of
                Inl e \<Rightarrow> Some e
              | Inr rs \<Rightarrow>
                  let adj = edge_pairs g; reverse = map (\<lambda>(a, b). (b, a)) adj;
                      reachable = walk (g_entry_node g) adj;
                      canTerminate = concat (map (\<lambda>t. walk (to_node t) reverse) (g_terminal_outcomes g))
                  in first_error
                       [validateResultPresentations ns (g_terminal_outcomes g),
                        check (\<forall>n \<in> set ns. \<forall>out \<in> set (n_outcomes n). map_of rs (n_key n, out) \<noteq> None)
                          (GErr [] ''graph outcome has no edge or terminal declaration'' []),
                        check (set keys \<subseteq> set reachable) (GErr [] ''graph node is unreachable from entryNode'' []),
                        check (set keys \<subseteq> set canTerminate) (GErr [] ''graph node has no path to a terminal outcome'' [])]))"

definition ValidateGraph :: "(raw_json \<Rightarrow> bool) \<Rightarrow> CanonicalSpec \<Rightarrow> graph_error option" where
  "ValidateGraph compiles spec =
     (let g = sp_graph spec
      in first_error
           [check (g_entry_node g \<noteq> []) (GErr [] ''graph.entryNode is required'' []),
            check (1 \<le> g_max_transitions g \<and> g_max_transitions g \<le> 10000) (GErr [] ''graph.maxTransitions must be between 1 and 10000'' []),
            check (g_nodes g \<noteq> []) (GErr [] ''graph.nodes must not be empty'' []),
            check (g_terminal_outcomes g \<noteq> []) (GErr [] ''graph.terminalOutcomes must not be empty'' []),
            check (''complete_step'' \<notin> set (map cap_tool (sp_requested_capabilities spec)))
              (GErr [] ''requested capability complete_step is reserved by the platform'' []),
            check_nodes compiles spec 0 [] (g_nodes g),
            check (g_entry_node g \<in> set (map n_key (g_nodes g))) (GErr [] ''graph.entryNode does not reference a node'' [g_entry_node g]),
            check_routing g])"

end
