(* ===== verification/Workflow_Properties.thy ===== *)
theory Workflow_Properties
  imports Workflow_Graph
begin

text \<open>
  What \<open>ValidateGraph\<close> accepts. The breadth-first \<open>walk\<close> computes exactly the
  nodes reachable in the graph; the whole validator accepts exactly the graphs of the
  declarative \<open>valid_graph\<close>; and in an accepted graph every declared outcome of every
  node has exactly one route, every node is reachable from the entry, and from every node the
  attempt can still finish.
\<close>

section \<open>The walk is reachability\<close>

lemma walk_loop_correct:
  assumes "set q \<subseteq> set seen" and "\<forall>x \<in> set seen - set q. \<forall>y. (x, y) \<in> set es \<longrightarrow> y \<in> set seen"
  shows "set (walk_loop es seen q) = (set es)\<^sup>* `` set seen"
  using assms
proof (induction es seen q rule: walk_loop.induct)
  case (1 es seen)
  have "(set es)\<^sup>* `` set seen = set seen"
    by (rule Image_closed_trancl) (use 1 in auto)
  then show ?case by simp
next
  case (2 es seen cur queue)
  obtain seen' queue' where v: "visit (successors es cur) seen queue = (seen', queue')" by fastforce
  have s: "set seen' = set seen \<union> {y. (cur, y) \<in> set es}"
    using visit_seen [of "successors es cur" seen queue] v by (simp add: set_successors)
  have q: "set queue' = set queue \<union> ({y. (cur, y) \<in> set es} - set seen)"
    using visit_queue [of "successors es cur" seen queue] v by (simp add: set_successors)
  have "set (walk_loop es seen' queue') = (set es)\<^sup>* `` set seen'"
  proof (rule "2.IH" [OF v [symmetric] refl])
    show "set queue' \<subseteq> set seen'" using 2(2) s q by auto
    show "\<forall>x \<in> set seen' - set queue'. \<forall>y. (x, y) \<in> set es \<longrightarrow> y \<in> set seen'"
    proof (intro ballI allI impI)
      fix x y assume "x \<in> set seen' - set queue'" and "(x, y) \<in> set es"
      note xy = this
      have x: "x \<in> set seen" "x \<notin> set queue" using xy(1) unfolding s q by blast+
      show "y \<in> set seen'"
      proof (cases "x = cur")
        case True
        then show ?thesis using xy(2) unfolding s by blast
      next
        case False
        then have "y \<in> set seen" using 2(3) x xy(2) by (metis Diff_iff set_ConsD)
        then show ?thesis unfolding s by blast
      qed
    qed
  qed
  moreover have "(set es)\<^sup>* `` set seen' = (set es)\<^sup>* `` set seen"
  proof -
    have "cur \<in> set seen" using 2(2) by simp
    then have "{y. (cur, y) \<in> set es} \<subseteq> (set es)\<^sup>* `` set seen" by blast
    then have "set seen' \<subseteq> (set es)\<^sup>* `` set seen" using s by auto
    then have "(set es)\<^sup>* `` set seen' \<subseteq> (set es)\<^sup>* `` set seen" by (auto intro: rtrancl_trans)
    moreover have "set seen \<subseteq> set seen'" using s by auto
    ultimately show ?thesis by auto
  qed
  ultimately show ?case using v by simp
qed

lemma walk_reachable: "set (walk start es) = {x. (start, x) \<in> (set es)\<^sup>*}"
  using walk_loop_correct [of "[start]" "[start]" es] by (auto simp: walk_def)

section \<open>Declarative validity\<close>

definition names_ok :: "string list \<Rightarrow> string list \<Rightarrow> bool" where
  "names_ok names declared \<longleftrightarrow> distinct names \<and> set names \<subseteq> set declared"

definition agent_task_ok :: "(raw_json \<Rightarrow> bool) \<Rightarrow> CanonicalSpec \<Rightarrow> CanonicalNode \<Rightarrow> bool" where
  "agent_task_ok compiles spec n \<longleftrightarrow>
     n_prompt n \<noteq> [] \<and> n_human_gate n = None
     \<and> (n_model_ref n \<noteq> [] \<or> sp_default_model_ref spec \<noteq> [])
     \<and> names_ok (n_skills n) (map sk_name (sp_skills spec))
     \<and> names_ok (n_capabilities n) (map cap_tool (sp_requested_capabilities spec))
     \<and> (n_timeout n \<noteq> [] \<longrightarrow> (\<exists>d > 0. ParseDuration (n_timeout n) = Some d))
     \<and> (empty_schema (n_output_schema n) \<or> compiles (n_output_schema n))"

definition human_gate_ok :: "(raw_json \<Rightarrow> bool) \<Rightarrow> CanonicalNode \<Rightarrow> bool" where
  "human_gate_ok compiles n \<longleftrightarrow>
     n_prompt n = [] \<and> n_model_ref n = [] \<and> n_skills n = [] \<and> n_capabilities n = [] \<and> \<not> n_workspace_tools n
     \<and> n_output_schema n = RawNil
     \<and> (\<exists>gate. n_human_gate n = Some gate
          \<and> hg_type gate \<in> {''information'', ''decision'', ''approval'', ''artifact''}
          \<and> localized (hg_title gate) \<and> localized (hg_description gate)
          \<and> (empty_schema (hg_response_schema gate) \<or> compiles (hg_response_schema gate))
          \<and> validateDashboardResponseSchema (hg_response_schema gate) = None
          \<and> validateHumanGatePresentation n gate = None)"

definition node_ok :: "(raw_json \<Rightarrow> bool) \<Rightarrow> CanonicalSpec \<Rightarrow> CanonicalNode \<Rightarrow> bool" where
  "node_ok compiles spec n \<longleftrightarrow>
     n_key n \<noteq> [] \<and> localized (n_label n)
     \<and> n_outcomes n \<noteq> [] \<and> distinct (n_outcomes n) \<and> [] \<notin> set (n_outcomes n)
     \<and> (n_kind n = NodeAgentTask \<and> agent_task_ok compiles spec n
        \<or> n_kind n = NodeHumanGate \<and> human_gate_ok compiles n)"

definition declared_outcomes :: "CanonicalNode list \<Rightarrow> (string \<times> string) set" where
  "declared_outcomes ns = {(n_key n, out) | n out. n \<in> set ns \<and> out \<in> set (n_outcomes n)}"

definition edge_key :: "CanonicalEdge \<Rightarrow> string \<times> string" where
  "edge_key e = (ed_from e, ed_outcome e)"

definition terminal_key :: "CanonicalTerminalOutcome \<Rightarrow> string \<times> string" where
  "terminal_key t = (to_node t, to_outcome t)"

definition routing_ok :: "CanonicalGraph \<Rightarrow> bool" where
  "routing_ok g \<longleftrightarrow>
     distinct (map edge_key (g_edges g) @ map terminal_key (g_terminal_outcomes g))
     \<and> edge_key ` set (g_edges g) \<union> terminal_key ` set (g_terminal_outcomes g) = declared_outcomes (g_nodes g)
     \<and> ed_to ` set (g_edges g) \<subseteq> n_key ` set (g_nodes g)"

definition valid_graph :: "(raw_json \<Rightarrow> bool) \<Rightarrow> CanonicalSpec \<Rightarrow> bool" where
  "valid_graph compiles spec \<longleftrightarrow>
     (let g = sp_graph spec; E = set (edge_pairs g); K = n_key ` set (g_nodes g)
      in g_entry_node g \<noteq> [] \<and> 1 \<le> g_max_transitions g \<and> g_max_transitions g \<le> 10000
         \<and> g_nodes g \<noteq> [] \<and> g_terminal_outcomes g \<noteq> []
         \<and> ''complete_step'' \<notin> cap_tool ` set (sp_requested_capabilities spec)
         \<and> distinct (map n_key (g_nodes g)) \<and> (\<forall>n \<in> set (g_nodes g). node_ok compiles spec n)
         \<and> g_entry_node g \<in> K
         \<and> routing_ok g
         \<and> (\<forall>n \<in> set (g_nodes g). validateResultPresentation (g_terminal_outcomes g) n = None)
         \<and> (\<forall>k \<in> K. (g_entry_node g, k) \<in> E\<^sup>*)
         \<and> (\<forall>k \<in> K. \<exists>t \<in> set (g_terminal_outcomes g). (k, to_node t) \<in> E\<^sup>*))"

section \<open>The checks decide their conditions\<close>

lemma check_outcomes_None:
  "check_outcomes i j seen xs = None \<longleftrightarrow> distinct xs \<and> [] \<notin> set xs \<and> set xs \<inter> set seen = {}"
  by (induction i j seen xs rule: check_outcomes.induct) auto

lemma first_duplicate_None:
  "first_duplicate seen xs declared = None \<longleftrightarrow> distinct xs \<and> (\<forall>x \<in> set xs. declared x) \<and> set xs \<inter> set seen = {}"
  by (induction seen xs declared rule: first_duplicate.induct) auto

lemma check_names_None: "check_names i d u names declared = None \<longleftrightarrow> names_ok names declared"
  using first_duplicate_None [of "[]" names "\<lambda>x. x \<in> set declared"]
  by (auto simp: check_names_def names_ok_def split: option.splits bool.splits)

lemma check_agent_task_None: "check_agent_task compiles spec i n = None \<longleftrightarrow> agent_task_ok compiles spec n"
  by (auto simp: check_agent_task_def agent_task_ok_def check_names_None compileSchema_def split: option.splits)

lemma check_human_gate_None: "check_human_gate compiles i n = None \<longleftrightarrow> human_gate_ok compiles n"
  by (auto simp: check_human_gate_def human_gate_ok_def compileSchema_def split: option.splits)

lemma check_nodes_None:
  "check_nodes compiles spec i seen ns = None \<longleftrightarrow>
     distinct (map n_key ns) \<and> n_key ` set ns \<inter> set seen = {} \<and> (\<forall>n \<in> set ns. node_ok compiles spec n)"
proof (induction compiles spec i seen ns rule: check_nodes.induct)
  case (2 compiles spec i seen n ns)
  then show ?case
    by (auto simp: node_ok_def check_outcomes_None check_agent_task_None check_human_gate_None)
qed simp

definition edge_refs_ok :: "CanonicalNode list \<Rightarrow> CanonicalEdge \<Rightarrow> bool" where
  "edge_refs_ok ns e \<longleftrightarrow> ed_from e \<in> n_key ` set ns \<and> ed_to e \<in> n_key ` set ns
     \<and> outcome_declared ns (ed_from e) (ed_outcome e)"

lemma check_edges_Inr:
  "check_edges ns i rs es = Inr rs' \<longleftrightarrow>
     (\<forall>e \<in> set es. edge_refs_ok ns e) \<and> distinct (map edge_key es)
     \<and> edge_key ` set es \<inter> fst ` set rs = {}
     \<and> rs' = rev (map (\<lambda>e. (edge_key e, ed_to e)) es) @ rs"
proof (induction ns i rs es rule: check_edges.induct)
  case (2 ns i rs e es)
  show ?case
  proof (cases "edge_refs_ok ns e \<and> edge_key e \<notin> fst ` set rs")
    case True
    then have "check_edges ns i rs (e # es) = check_edges ns (Suc i) ((edge_key e, ed_to e) # rs) es"
      by (simp add: edge_refs_ok_def edge_key_def map_of_eq_None_iff)
    moreover have "check_edges ns (Suc i) ((edge_key e, ed_to e) # rs) es = Inr rs' \<longleftrightarrow>
      (\<forall>e \<in> set es. edge_refs_ok ns e) \<and> distinct (map edge_key es)
      \<and> edge_key ` set es \<inter> fst ` set ((edge_key e, ed_to e) # rs) = {}
      \<and> rs' = rev (map (\<lambda>e. (edge_key e, ed_to e)) es) @ (edge_key e, ed_to e) # rs"
      using 2 True by (simp add: edge_refs_ok_def edge_key_def [abs_def] map_of_eq_None_iff)
    ultimately show ?thesis using True by auto
  next
    case False
    then show ?thesis
      by (auto simp: edge_refs_ok_def edge_key_def map_of_eq_None_iff [symmetric] split: if_splits)
  qed
qed auto

lemma check_terminals_Inr:
  "check_terminals ns i rs ts = Inr rs' \<longleftrightarrow>
     (\<forall>t \<in> set ts. to_node t \<in> n_key ` set ns \<and> outcome_declared ns (to_node t) (to_outcome t))
     \<and> distinct (map terminal_key ts)
     \<and> terminal_key ` set ts \<inter> fst ` set rs = {}
     \<and> rs' = rev (map (\<lambda>t. (terminal_key t, ''$terminal'')) ts) @ rs"
proof (induction ns i rs ts rule: check_terminals.induct)
  case (2 ns i rs t ts)
  show ?case
  proof (cases "to_node t \<in> n_key ` set ns \<and> outcome_declared ns (to_node t) (to_outcome t) \<and> terminal_key t \<notin> fst ` set rs")
    case True
    then have "check_terminals ns i rs (t # ts) = check_terminals ns (Suc i) ((terminal_key t, ''$terminal'') # rs) ts"
      by (simp add: terminal_key_def map_of_eq_None_iff)
    moreover have "check_terminals ns (Suc i) ((terminal_key t, ''$terminal'') # rs) ts = Inr rs' \<longleftrightarrow>
      (\<forall>t \<in> set ts. to_node t \<in> n_key ` set ns \<and> outcome_declared ns (to_node t) (to_outcome t))
      \<and> distinct (map terminal_key ts)
      \<and> terminal_key ` set ts \<inter> fst ` set ((terminal_key t, ''$terminal'') # rs) = {}
      \<and> rs' = rev (map (\<lambda>t. (terminal_key t, ''$terminal'')) ts) @ (terminal_key t, ''$terminal'') # rs"
      using 2 True by (simp add: terminal_key_def [abs_def] map_of_eq_None_iff)
    ultimately show ?thesis using True by auto
  next
    case False
    then show ?thesis
      by (auto simp: terminal_key_def map_of_eq_None_iff [symmetric] split: if_splits)
  qed
qed auto

lemma outcome_declared_iff:
  assumes "distinct (map n_key ns)"
  shows "outcome_declared ns k out \<longleftrightarrow> (k, out) \<in> declared_outcomes ns"
proof -
  have d: "distinct (map fst (map (\<lambda>n. (n_key n, n_outcomes n)) ns))" using assms by (simp add: comp_def)
  let ?m = "map_of (map (\<lambda>n. (n_key n, n_outcomes n)) ns) k"
  have m: "?m = Some os \<longleftrightarrow> (\<exists>n \<in> set ns. n_key n = k \<and> n_outcomes n = os)" for os
    using map_of_eq_Some_iff [OF d] by auto
  have "outcome_declared ns k out \<longleftrightarrow> (\<exists>os. ?m = Some os \<and> out \<in> set os)"
    by (simp add: outcome_declared_def split: option.splits)
  then show ?thesis unfolding m declared_outcomes_def by blast
qed

lemma declared_key: "(k, out) \<in> declared_outcomes ns \<Longrightarrow> k \<in> n_key ` set ns"
  by (auto simp: declared_outcomes_def)

lemma routes_ok_iff:
  assumes "distinct (map n_key (g_nodes g))"
  shows "(\<exists>rs0 rs. check_edges (g_nodes g) 0 [] (g_edges g) = Inr rs0
            \<and> check_terminals (g_nodes g) 0 rs0 (g_terminal_outcomes g) = Inr rs
            \<and> (\<forall>n \<in> set (g_nodes g). \<forall>out \<in> set (n_outcomes n). map_of rs (n_key n, out) \<noteq> None))
         \<longleftrightarrow> routing_ok g"
proof -
  let ?ns = "g_nodes g" and ?D = "declared_outcomes (g_nodes g)"
  let ?EK = "edge_key ` set (g_edges g)" and ?TK = "terminal_key ` set (g_terminal_outcomes g)"
  let ?redges = "rev (map (\<lambda>e. (edge_key e, ed_to e)) (g_edges g))"
  let ?rs = "rev (map (\<lambda>t. (terminal_key t, ''$terminal'')) (g_terminal_outcomes g)) @ ?redges"
  have dom0: "fst ` set ?redges = ?EK" by (simp add: image_image)
  have dom: "fst ` set ?rs = ?EK \<union> ?TK" by (simp add: image_Un image_image Un_commute)
  have cover: "(\<forall>n \<in> set ?ns. \<forall>out \<in> set (n_outcomes n). map_of ?rs (n_key n, out) \<noteq> None) \<longleftrightarrow> ?D \<subseteq> ?EK \<union> ?TK"
    unfolding map_of_eq_None_iff dom by (auto simp: declared_outcomes_def)
  have refs: "(\<forall>e \<in> set (g_edges g). edge_refs_ok ?ns e) \<longleftrightarrow> ?EK \<subseteq> ?D \<and> ed_to ` set (g_edges g) \<subseteq> n_key ` set ?ns"
    using declared_key by (auto simp: edge_refs_ok_def outcome_declared_iff [OF assms] edge_key_def)
  have terms: "(\<forall>t \<in> set (g_terminal_outcomes g). to_node t \<in> n_key ` set ?ns \<and> outcome_declared ?ns (to_node t) (to_outcome t))
      \<longleftrightarrow> ?TK \<subseteq> ?D"
    using declared_key by (auto simp: outcome_declared_iff [OF assms] terminal_key_def)
  let ?ok = "?EK \<subseteq> ?D \<and> ed_to ` set (g_edges g) \<subseteq> n_key ` set ?ns \<and> distinct (map edge_key (g_edges g))
    \<and> ?TK \<subseteq> ?D \<and> distinct (map terminal_key (g_terminal_outcomes g)) \<and> ?TK \<inter> ?EK = {} \<and> ?D \<subseteq> ?EK \<union> ?TK"
  have edges: "check_edges ?ns 0 [] (g_edges g) = Inr re \<longleftrightarrow>
      (?EK \<subseteq> ?D \<and> ed_to ` set (g_edges g) \<subseteq> n_key ` set ?ns) \<and> distinct (map edge_key (g_edges g)) \<and> re = ?redges" for re
    unfolding check_edges_Inr refs by simp
  have terminals: "check_terminals ?ns 0 ?redges (g_terminal_outcomes g) = Inr rs \<longleftrightarrow>
      ?TK \<subseteq> ?D \<and> distinct (map terminal_key (g_terminal_outcomes g)) \<and> ?TK \<inter> ?EK = {} \<and> rs = ?rs" for rs
    unfolding check_terminals_Inr terms dom0 by simp
  have "(\<exists>re rs. check_edges ?ns 0 [] (g_edges g) = Inr re \<and> check_terminals ?ns 0 re (g_terminal_outcomes g) = Inr rs
      \<and> (\<forall>n \<in> set ?ns. \<forall>out \<in> set (n_outcomes n). map_of rs (n_key n, out) \<noteq> None)) \<longleftrightarrow> ?ok"
    (is "?L \<longleftrightarrow> _")
  proof
    assume ?L
    then obtain re rs where h: "check_edges ?ns 0 [] (g_edges g) = Inr re"
      "check_terminals ?ns 0 re (g_terminal_outcomes g) = Inr rs"
      "\<forall>n \<in> set ?ns. \<forall>out \<in> set (n_outcomes n). map_of rs (n_key n, out) \<noteq> None" by blast
    note e = h(1) [unfolded edges]
    then have t: "check_terminals ?ns 0 ?redges (g_terminal_outcomes g) = Inr rs" using h(2) by simp
    note t' = t [unfolded terminals]
    then have "rs = ?rs" by blast
    from h(3) [unfolded this cover] e t' show ?ok by - (elim conjE, intro conjI; assumption)
  next
    assume ok: ?ok
    have "check_edges ?ns 0 [] (g_edges g) = Inr ?redges"
      unfolding edges using ok by - (elim conjE, intro conjI refl; assumption)
    moreover have "check_terminals ?ns 0 ?redges (g_terminal_outcomes g) = Inr ?rs"
      unfolding terminals using ok by - (elim conjE, intro conjI refl; assumption)
    moreover have "\<forall>n \<in> set ?ns. \<forall>out \<in> set (n_outcomes n). map_of ?rs (n_key n, out) \<noteq> None"
      unfolding cover using ok by - (elim conjE, assumption)
    ultimately show ?L by blast
  qed
  also have "?ok \<longleftrightarrow> routing_ok g"
    unfolding routing_ok_def distinct_append set_map set_eq_subset [of "?EK \<union> ?TK"] Un_subset_iff Int_commute [of ?EK]
    by (intro iffI; elim conjE; intro conjI; assumption)
  finally show ?thesis .
qed

lemma check_routing_None:
  assumes "distinct (map n_key (g_nodes g))"
  shows "check_routing g = None \<longleftrightarrow>
     routing_ok g
     \<and> (\<forall>n \<in> set (g_nodes g). validateResultPresentation (g_terminal_outcomes g) n = None)
     \<and> (\<forall>k \<in> n_key ` set (g_nodes g). (g_entry_node g, k) \<in> (set (edge_pairs g))\<^sup>*)
     \<and> (\<forall>k \<in> n_key ` set (g_nodes g). \<exists>t \<in> set (g_terminal_outcomes g). (k, to_node t) \<in> (set (edge_pairs g))\<^sup>*)"
proof -
  have rev: "set (map (\<lambda>(a, b). (b, a)) (edge_pairs g)) = (set (edge_pairs g))\<inverse>" by (auto simp: image_iff)
  have "check_routing g = None \<longleftrightarrow>
    (\<exists>rs0 rs. check_edges (g_nodes g) 0 [] (g_edges g) = Inr rs0
            \<and> check_terminals (g_nodes g) 0 rs0 (g_terminal_outcomes g) = Inr rs
            \<and> (\<forall>n \<in> set (g_nodes g). \<forall>out \<in> set (n_outcomes n). map_of rs (n_key n, out) \<noteq> None))
     \<and> (\<forall>n \<in> set (g_nodes g). validateResultPresentation (g_terminal_outcomes g) n = None)
     \<and> n_key ` set (g_nodes g) \<subseteq> set (walk (g_entry_node g) (edge_pairs g))
     \<and> n_key ` set (g_nodes g) \<subseteq> (\<Union>t \<in> set (g_terminal_outcomes g). set (walk (to_node t) (map (\<lambda>(a, b). (b, a)) (edge_pairs g))))"
  proof (cases "check_edges (g_nodes g) 0 [] (g_edges g)")
    case (Inr re)
    then show ?thesis
      by (cases "check_terminals (g_nodes g) 0 re (g_terminal_outcomes g)")
         (simp_all add: check_routing_def Let_def validateResultPresentations_def conj_ac)
  qed (simp add: check_routing_def)
  then show ?thesis
    unfolding routes_ok_iff [OF assms] walk_reachable rev
    by (auto simp: rtrancl_converse)
qed

section \<open>Presentations\<close>


lemma indexHumanGateFields_Inr:
  "indexHumanGateFields fs indexed = Inr ix \<Longrightarrow> distinct (map fst indexed) \<Longrightarrow>
     map fst ix = rev (map hf_key fs) @ map fst indexed \<and> distinct (map fst ix)
     \<and> (\<forall>f \<in> set fs. localized (hf_label f) \<and> hf_key f \<noteq> [])"
proof (induction fs indexed rule: indexHumanGateFields.induct)
  case (2 f fs indexed)
  have f: "hf_key f \<noteq> []" "map_of indexed (hf_key f) = None" "localized (hf_label f)"
    and rest: "indexHumanGateFields fs ((hf_key f, f) # indexed) = Inr ix"
    using "2.prems"(1) by (simp_all split: if_splits)
  have ih: "map fst ix = rev (map hf_key fs) @ map fst ((hf_key f, f) # indexed) \<and> distinct (map fst ix)
      \<and> (\<forall>f \<in> set fs. localized (hf_label f) \<and> hf_key f \<noteq> [])"
    by (rule "2.IH") (use f rest "2.prems"(2) in \<open>simp_all add: map_of_eq_None_iff\<close>)
  show ?case
  proof (intro conjI)
    show "map fst ix = rev (map hf_key (f # fs)) @ map fst indexed" using ih by simp
    show "distinct (map fst ix)" using ih by blast
    show "\<forall>g \<in> set (f # fs). localized (hf_label g) \<and> hf_key g \<noteq> []" using ih f by simp
  qed
qed simp

section \<open>Properties\<close>

definition loc :: CanonicalLocalizedText where "loc = \<lparr>lt_en = ''yes'', lt_pt = ''sim''\<rparr>"

text \<open>An example: a task that is done or asks a person, and the person's decision.\<close>

definition example_task :: CanonicalNode where
  "example_task = \<lparr>n_key = ''task'', n_label = loc, n_kind = ''agent_task'', n_prompt = ''do it'', n_model_ref = ''gpt'',
     n_skills = [], n_capabilities = [''mail''], n_workspace_tools = False, n_timeout = ''1h30m'',
     n_outcomes = [''done'', ''unsure''],
     n_output_schema = RawJson (JObj [(''type'', JStr ''object''), (''additionalProperties'', JBool False),
        (''properties'', JObj [(''total'', JObj [(''type'', JStr ''number'')])])]),
     n_result_presentation = Some \<lparr>rp_outcomes = [\<lparr>ro_outcome = ''done'', ro_summary = loc\<rparr>],
        rp_fields = [\<lparr>rf_path = [''total''], rf_label = loc, rf_options = []\<rparr>]\<rparr>,
     n_human_gate = None\<rparr>"

definition example_gate :: CanonicalNode where
  "example_gate = \<lparr>n_key = ''ask'', n_label = loc, n_kind = ''human_gate'', n_prompt = [], n_model_ref = [],
     n_skills = [], n_capabilities = [], n_workspace_tools = False, n_timeout = [], n_outcomes = [''retry''],
     n_output_schema = RawNil, n_result_presentation = None,
     n_human_gate = Some \<lparr>hg_type = ''decision'', hg_title = loc, hg_description = loc,
        hg_response_schema = RawJson (JObj [(''type'', JStr ''object''),
          (''properties'', JObj [(''why'', JObj [(''type'', JStr ''string'')])])]),
        hg_presentation = \<lparr>hp_outcomes = [loc], hp_fields = [\<lparr>hf_key = ''why'', hf_label = loc, hf_options = []\<rparr>]\<rparr>\<rparr>\<rparr>"

definition example_spec :: CanonicalSpec where
  "example_spec = \<lparr>sp_key = ''wf'', sp_scope_identity_key = ''scope'', sp_source = \<lparr>src_type = ''manual'', src_triggers = []\<rparr>,
     sp_skills = [], sp_requested_capabilities = [\<lparr>cap_tool = ''mail'', cap_max_effect_class = ''read_only'', cap_actions = []\<rparr>],
     sp_default_model_ref = [],
     sp_graph = \<lparr>g_entry_node = ''task'', g_max_transitions = 10, g_nodes = [example_task, example_gate],
        g_edges = [\<lparr>ed_from = ''task'', ed_outcome = ''unsure'', ed_to = ''ask''\<rparr>,
                   \<lparr>ed_from = ''ask'', ed_outcome = ''retry'', ed_to = ''task''\<rparr>],
        g_terminal_outcomes = [\<lparr>to_node = ''task'', to_outcome = ''done''\<rparr>]\<rparr>,
     sp_value_model_ref = [],
     sp_presentation = \<lparr>cp_workflow_title = ''T'', cp_persona_name = ''P'', cp_persona_avatar = [], cp_locale = []\<rparr>,
     sp_pool_ref = ''pool''\<rparr>"

lemma example_spec_accepted: "ValidateGraph (\<lambda>_. True) example_spec = None"
  by code_simp

lemma ValidateGraph_decides: "ValidateGraph compiles spec = None \<longleftrightarrow> valid_graph compiles spec"
proof -
  let ?g = "sp_graph spec"
  have nodes: "check_nodes compiles spec 0 [] (g_nodes ?g) = None \<longleftrightarrow>
      distinct (map n_key (g_nodes ?g)) \<and> (\<forall>n \<in> set (g_nodes ?g). node_ok compiles spec n)"
    by (simp add: check_nodes_None)
  show ?thesis
  proof (cases "distinct (map n_key (g_nodes ?g))")
    case True
    then show ?thesis
      by (simp add: ValidateGraph_def valid_graph_def Let_def nodes check_routing_None)
  qed (simp add: ValidateGraph_def valid_graph_def Let_def nodes)
qed

lemma length_filter_key:
  "distinct (map k xs) \<Longrightarrow> length (filter (\<lambda>x. k x = c) xs) = (if c \<in> k ` set xs then 1 else 0)"
  by (induction xs) auto

lemma routing_ok_one:
  assumes "routing_ok g" and "c \<in> declared_outcomes (g_nodes g)"
  shows "length (filter (\<lambda>e. edge_key e = c) (g_edges g)) + length (filter (\<lambda>t. terminal_key t = c) (g_terminal_outcomes g)) = 1"
proof -
  have "distinct (map edge_key (g_edges g))" "distinct (map terminal_key (g_terminal_outcomes g))"
    "c \<in> edge_key ` set (g_edges g) \<longleftrightarrow> c \<notin> terminal_key ` set (g_terminal_outcomes g)"
    using assms unfolding routing_ok_def distinct_append set_map by (auto simp del: distinct_map)
  then show ?thesis by (simp add: length_filter_key)
qed

text \<open>C10. \<^verbatim>\<open>ValidateGraph\<close> accepts exactly the valid graphs: all nodes well formed and
  distinct, each declared outcome routed exactly once, every node reachable from the entry,
  and a terminal outcome reachable from every node.\<close>

theorem ValidateGraph_iff: "ValidateGraph compiles spec = None \<longleftrightarrow> valid_graph compiles spec"
  by (rule ValidateGraph_decides)

text \<open>C11. In an accepted graph every declared outcome of every node has exactly one route:
  one edge and no terminal declaration, or one terminal declaration and no edge.\<close>

theorem validated_one_route:
  assumes "ValidateGraph compiles spec = None" and "n \<in> set (g_nodes (sp_graph spec))" and "out \<in> set (n_outcomes n)"
  shows "length (filter (\<lambda>e. ed_from e = n_key n \<and> ed_outcome e = out) (g_edges (sp_graph spec)))
       + length (filter (\<lambda>t. to_node t = n_key n \<and> to_outcome t = out) (g_terminal_outcomes (sp_graph spec))) = 1"
proof -
  have "routing_ok (sp_graph spec)"
    using assms(1) by (simp add: ValidateGraph_decides valid_graph_def Let_def)
  moreover have "(n_key n, out) \<in> declared_outcomes (g_nodes (sp_graph spec))"
    using assms(2,3) by (auto simp: declared_outcomes_def)
  ultimately show ?thesis
    using routing_ok_one [of "sp_graph spec" "(n_key n, out)"] by (simp add: edge_key_def terminal_key_def)
qed

theorem validated_one_route_example:
  "length (filter (\<lambda>e. ed_from e = ''task'' \<and> ed_outcome e = ''done'') (g_edges (sp_graph example_spec)))
   + length (filter (\<lambda>t. to_node t = ''task'' \<and> to_outcome t = ''done'') (g_terminal_outcomes (sp_graph example_spec))) = 1"
  using validated_one_route [OF example_spec_accepted, of example_task "''done''"]
  by (simp add: example_spec_def example_task_def)

text \<open>C12. In an accepted graph every node is reached from the entry node, and from every node
  some terminal outcome is at most as many transitions away as the graph has edges; so a cycle
  without an exit is refused.\<close>

theorem validated_can_finish:
  assumes "ValidateGraph compiles spec = None" and "n \<in> set (g_nodes (sp_graph spec))"
  shows "(g_entry_node (sp_graph spec), n_key n) \<in> (set (edge_pairs (sp_graph spec)))\<^sup>*
       \<and> (\<exists>t \<in> set (g_terminal_outcomes (sp_graph spec)). \<exists>m \<le> length (g_edges (sp_graph spec)).
            (n_key n, to_node t) \<in> (set (edge_pairs (sp_graph spec))) ^^ m)"
proof -
  let ?g = "sp_graph spec" and ?E = "set (edge_pairs (sp_graph spec))"
  have reach: "(g_entry_node ?g, n_key n) \<in> ?E\<^sup>*" and "\<exists>t \<in> set (g_terminal_outcomes ?g). (n_key n, to_node t) \<in> ?E\<^sup>*"
    using assms by (auto simp: ValidateGraph_decides valid_graph_def Let_def)
  then obtain t where t: "t \<in> set (g_terminal_outcomes ?g)" "(n_key n, to_node t) \<in> ?E\<^sup>*" by blast
  then obtain m where m: "m \<le> card ?E" "(n_key n, to_node t) \<in> ?E ^^ m"
    using rtrancl_finite_eq_relpow [of ?E] by auto
  have "card ?E \<le> length (g_edges ?g)" using card_length [of "edge_pairs ?g"] by (simp add: edge_pairs_def)
  then show ?thesis using reach t(1) m by (meson order_trans)
qed

theorem validated_can_finish_example:
  "\<exists>t \<in> set (g_terminal_outcomes (sp_graph example_spec)). \<exists>m \<le> length (g_edges (sp_graph example_spec)).
     (n_key example_gate, to_node t) \<in> (set (edge_pairs (sp_graph example_spec))) ^^ m"
proof -
  have "example_gate \<in> set (g_nodes (sp_graph example_spec))" by (simp add: example_spec_def)
  from validated_can_finish [OF example_spec_accepted this] show ?thesis by blast
qed

text \<open>C13. The breadth-first \<^verbatim>\<open>walk\<close> returns, for every graph, cyclic or not, and every
  start, exactly the nodes reachable along the edges.\<close>

theorem walk_is_reachability: "set (walk start es) = {x. (start, x) \<in> (set es)\<^sup>*}"
  by (rule walk_reachable)



text \<open>C15. When the presentation of a human gate is accepted, its fields are exactly the
  properties of the response schema, each once, and there is one label per declared outcome.\<close>

theorem human_gate_fields_cover_schema:
  assumes "validateHumanGatePresentation n gate = None"
  shows "\<exists>properties. responseSchemaProperties (hg_response_schema gate) = Inr properties
           \<and> distinct (map hf_key (hp_fields (hg_presentation gate)))
           \<and> hf_key ` set (hp_fields (hg_presentation gate)) = fst ` set properties
           \<and> length (hp_outcomes (hg_presentation gate)) = length (n_outcomes n)
           \<and> list_all localized (hp_outcomes (hg_presentation gate))"
proof -
  note unfold = validateHumanGatePresentation_def Let_def
  have lbl: "length (hp_outcomes (hg_presentation gate)) = length (n_outcomes n)"
    "validateLocalizedLabels (hp_outcomes (hg_presentation gate)) = None"
    using assms by (simp_all add: unfold split: if_splits option.splits)
  obtain properties where p: "responseSchemaProperties (hg_response_schema gate) = Inr properties"
    using assms lbl by (cases "responseSchemaProperties (hg_response_schema gate)") (simp_all add: unfold)
  obtain ix where ix: "indexHumanGateFields (hp_fields (hg_presentation gate)) [] = Inr ix"
    using assms lbl p by (cases "indexHumanGateFields (hp_fields (hg_presentation gate)) []") (simp_all add: unfold)
  have checks: "\<forall>c \<in> set (map (\<lambda>(k, _). check (has_member properties k)
        (SErr ''field does not exist in responseSchema.properties'' [k])) ix). c = None"
    "\<forall>c \<in> set (map (\<lambda>(k, prop). case map_of ix k of
        None \<Rightarrow> Some (SErr ''responseSchema property requires localized presentation'' [k])
      | Some f \<Rightarrow> validateHumanGateFieldOptions k prop (hf_options f)) (sorted_members properties)). c = None"
    using assms lbl p ix by (simp_all add: unfold ball_Un)
  have known: "has_member properties k" if "(k, x) \<in> set ix" for k x
    using bspec [OF checks(1), of "check (has_member properties k) (SErr ''field does not exist in responseSchema.properties'' [k])"] that
    by force
  have covered: "map_of ix k \<noteq> None" if "(k, x) \<in> set properties" for k x
  proof
    assume "map_of ix k = None"
    moreover have "(k, x) \<in> set (sorted_members properties)" using that by (simp add: sorted_members_def)
    ultimately show False using checks(2) by force
  qed
  have f: "map fst ix = rev (map hf_key (hp_fields (hg_presentation gate)))" "distinct (map fst ix)"
    using indexHumanGateFields_Inr [OF ix] unfolding list.map append_Nil2 by (blast intro: distinct.simps(1) [THEN iffD2])+
  have keys: "fst ` set ix = hf_key ` set (hp_fields (hg_presentation gate))" using arg_cong [OF f(1), of set] by simp
  have "fst ` set ix \<subseteq> fst ` set properties"
    using known unfolding has_member_def map_of_eq_None_iff by force
  moreover have "fst ` set properties \<subseteq> fst ` set ix"
    using covered unfolding map_of_eq_None_iff by force
  moreover have "list_all localized (hp_outcomes (hg_presentation gate))"
    using lbl(2) by (simp add: validateLocalizedLabels_def)
  ultimately show ?thesis using p lbl(1) f keys by (metis distinct_rev set_eq_subset)
qed

theorem human_gate_fields_cover_schema_example:
  "\<exists>properties. responseSchemaProperties (hg_response_schema (the (n_human_gate example_gate))) = Inr properties
     \<and> {''why''} = fst ` set properties"
proof -
  have "validateHumanGatePresentation example_gate (the (n_human_gate example_gate)) = None" by code_simp
  from human_gate_fields_cover_schema [OF this] show ?thesis by (auto simp: example_gate_def)
qed

end
