(* ===== verification/Workflow_Store.thy ===== *)
theory Workflow_Store
  imports Workflow_Graph "HOL-Library.Product_Lexorder"
begin

text \<open>
  The workflow definition store, \<^verbatim>\<open>src/control-plane/internal/workflow/store.go\<close>: immutable
  versioned definitions, their trigger bindings and the resolution of a definition for an
  attempt. The state is the record \<open>workflow_db\<close> of the tables of migration
  \<^verbatim>\<open>000015_workflow.up.sql\<close>, the keys of the identities they reference and the rows of
  \<^verbatim>\<open>toolgateway.workflow_pool_bindings\<close> the resolution reads. A stored specification is
  the value \<^verbatim>\<open>json.Unmarshal\<close> decodes from it, or \<open>SpecBad\<close> where it does not decode.
\<close>

section \<open>Data\<close>

datatype spec_doc = SpecNil | SpecBad | SpecDoc CanonicalSpec

record Definition =
  d_id :: uuid
  d_key :: string
  d_version :: string
  d_digest :: string
  d_spec_json :: spec_doc
  d_validation_status :: string
  d_scope_identity_id :: uuid
  d_source_type :: string
  d_pool_key :: string
  d_presentation :: "json option"
  d_created_at :: time
  d_updated_at :: time
  d_deleted_at :: "time option"

record TriggerBindingRow =
  tb_id :: uuid
  tb_definition_id :: uuid
  tb_name :: string
  tb_source_type :: string
  tb_binding_key :: string
  tb_created_at :: time
  tb_updated_at :: time
  tb_deleted_at :: "time option"

record TriggerBindingInput = tbi_name :: string tbi_binding_key :: string

record PoolBindingRow =
  pb_definition_key :: string
  pb_pool_id :: uuid
  pb_permitted_tools :: "CanonicalCapability list option"
  pb_deleted_at :: "time option"

record workflow_db =
  wf_identities :: "(uuid \<times> string) list"
  definitions :: "Definition list"
  trigger_bindings :: "TriggerBindingRow list"
  pool_bindings :: "PoolBindingRow list"

record ResolvedDefinition =
  rd_definition :: Definition
  rd_trigger_bindings :: "TriggerBindingRow list"
  rd_spec :: CanonicalSpec
  rd_skills :: "CanonicalSkill list"
  rd_permitted_tools :: "string list"
  rd_requested_capabilities :: "CanonicalCapability list"

datatype wf_error =
    WfNotFound | WfImmutableVersion string | WfDefinitionOwnership uuid | WfRequired string
  | WfConstraint | WfInvalid | WfSpecUndecodable | WfToolsUndecodable | WfSpec string | WfGraph graph_error

text \<open>The specification the document \<^verbatim>\<open>{}\<close> decodes to.\<close>

definition zero_spec :: CanonicalSpec where
  "zero_spec = \<lparr>sp_key = [], sp_scope_identity_key = [], sp_source = \<lparr>src_type = [], src_triggers = []\<rparr>,
     sp_skills = [], sp_requested_capabilities = [], sp_default_model_ref = [],
     sp_graph = \<lparr>g_entry_node = [], g_max_transitions = 0, g_nodes = [], g_edges = [], g_terminal_outcomes = []\<rparr>,
     sp_value_model_ref = [],
     sp_presentation = \<lparr>cp_workflow_title = [], cp_persona_name = [], cp_persona_avatar = [], cp_locale = []\<rparr>,
     sp_pool_ref = []\<rparr>"

definition definition_sources :: "string list" where
  "definition_sources = [''graph_email'', ''operator_artifact'', ''manual_api'']"

definition DefinitionKey :: "string \<Rightarrow> string \<Rightarrow> string" where
  "DefinitionKey key version = key @ '':'' @ version"

section \<open>Registering a definition\<close>

definition prepareDefinition :: "Definition \<Rightarrow> wf_error + Definition" where
  "prepareDefinition d =
     (if d_key d = [] \<or> d_version d = [] \<or> d_digest d = [] then Inl (WfRequired ''key, version, and digest are required'')
      else if d_scope_identity_id d = [] then Inl (WfRequired ''scope_identity_id is required'')
      else Inr (d\<lparr>d_spec_json := (if d_spec_json d = SpecNil then SpecDoc zero_spec else d_spec_json d),
                  d_presentation := (case d_presentation d of None \<Rightarrow> Some (JObj []) | p \<Rightarrow> p)\<rparr>))"

text \<open>The advisory lock on the logical key serializes registrations of it; the model's
  transactions are serial.\<close>

definition lockAndCheckDefinitionOwner :: "Definition \<Rightarrow> (wf_error, workflow_db, unit) tx" where
  "lockAndCheckDefinitionOwner d db =
     (case limit1 (order_by (\<lambda>r. (d_created_at r, d_id r)) (filter (\<lambda>r. d_key r = d_key d) (definitions db))) of
        None \<Rightarrow> Inr ((), db)
      | Some r \<Rightarrow>
          if d_scope_identity_id r \<noteq> d_scope_identity_id d then Inl (WfDefinitionOwnership (d_scope_identity_id r))
          else Inr ((), db))"

definition same_version :: "Definition \<Rightarrow> Definition \<Rightarrow> bool" where
  "same_version d r \<longleftrightarrow> d_key r = d_key d \<and> d_version r = d_version d"

definition revive_row :: "time \<Rightarrow> Definition \<Rightarrow> Definition" where
  "revive_row now r = r\<lparr>d_deleted_at := None, d_updated_at := now\<rparr>"

definition insertDefinition :: "time \<Rightarrow> uuid \<Rightarrow> Definition \<Rightarrow> (wf_error, workflow_db, unit) tx" where
  "insertDefinition now did d db =
     (if d_validation_status d \<notin> {''valid'', ''invalid''} \<or> d_source_type d \<notin> set definition_sources
      then Inl WfConstraint
      else if exists_row (same_version d) (definitions db)
      then Inr ((), db\<lparr>definitions :=
             update_where (\<lambda>r. same_version d r \<and> d_scope_identity_id r = d_scope_identity_id d
                              \<and> d_digest r = d_digest d \<and> d_deleted_at r \<noteq> None)
               (revive_row now) (definitions db)\<rparr>)
      else if exists_row (\<lambda>r. d_id r = did) (definitions db)
              \<or> d_scope_identity_id d \<notin> fst ` set (wf_identities db)
      then Inl WfConstraint
      else Inr ((), db\<lparr>definitions := definitions db @
             [d\<lparr>d_id := did, d_created_at := now, d_updated_at := now, d_deleted_at := None\<rparr>]\<rparr>))"

definition readRegisteredDefinition :: "Definition \<Rightarrow> (wf_error, workflow_db, Definition) tx" where
  "readRegisteredDefinition d db =
     (case find (same_version d) (definitions db) of
        None \<Rightarrow> Inl WfNotFound
      | Some r \<Rightarrow>
          if d_scope_identity_id r \<noteq> d_scope_identity_id d then Inl (WfDefinitionOwnership (d_scope_identity_id r))
          else if d_digest r \<noteq> d_digest d then Inl (WfImmutableVersion (d_digest r))
          else Inr (r, db))"

definition RegisterDefinition ::
  "bool \<Rightarrow> time \<Rightarrow> uuid \<Rightarrow> Definition \<Rightarrow> workflow_db \<Rightarrow> (wf_error failure + Definition) \<times> workflow_db" where
  "RegisterDefinition fault now did d0 db =
     (case prepareDefinition d0 of
        Inl e \<Rightarrow> (Inl (Fail e), db)
      | Inr d \<Rightarrow>
          run_tx fault
            (tx_bind (lockAndCheckDefinitionOwner d) (\<lambda>_.
             tx_bind (insertDefinition now did d) (\<lambda>_.
               readRegisteredDefinition d))) db)"

section \<open>Reading definitions\<close>

definition GetDefinition :: "string \<Rightarrow> string \<Rightarrow> workflow_db \<Rightarrow> wf_error + Definition" where
  "GetDefinition key version db =
     (case find (\<lambda>r. d_key r = key \<and> d_version r = version \<and> d_deleted_at r = None) (definitions db) of
        None \<Rightarrow> Inl WfNotFound | Some r \<Rightarrow> Inr r)"

text \<open>\<^verbatim>\<open>ORDER BY created_at DESC, id DESC LIMIT 1\<close> is the last row in ascending order.\<close>

definition GetLatestDefinition :: "string \<Rightarrow> workflow_db \<Rightarrow> wf_error + Definition" where
  "GetLatestDefinition key db =
     (case limit1 (rev (order_by (\<lambda>r. (d_created_at r, d_id r))
             (filter (\<lambda>r. d_key r = key \<and> d_deleted_at r = None) (definitions db)))) of
        None \<Rightarrow> Inl WfNotFound | Some r \<Rightarrow> Inr r)"

definition ListDefinitionsByKey :: "string \<Rightarrow> workflow_db \<Rightarrow> Definition list" where
  "ListDefinitionsByKey key db =
     order_by d_version (filter (\<lambda>r. d_key r = key \<and> d_deleted_at r = None) (definitions db))"

definition owned_by :: "string \<Rightarrow> workflow_db \<Rightarrow> Definition \<Rightarrow> bool" where
  "owned_by scopeIdentityKey db r \<longleftrightarrow> (d_scope_identity_id r, scopeIdentityKey) \<in> set (wf_identities db)"

definition ListDefinitionsByOwner :: "string \<Rightarrow> workflow_db \<Rightarrow> Definition list" where
  "ListDefinitionsByOwner scopeIdentityKey db =
     order_by (\<lambda>r. (d_key r, d_version r))
       (filter (\<lambda>r. owned_by scopeIdentityKey db r \<and> d_deleted_at r = None) (definitions db))"

section \<open>Trigger bindings\<close>

definition clear_binding :: "time \<Rightarrow> TriggerBindingRow \<Rightarrow> TriggerBindingRow" where
  "clear_binding now b = b\<lparr>tb_deleted_at := Some now, tb_updated_at := now\<rparr>"

definition clear_bindings :: "time \<Rightarrow> (TriggerBindingRow \<Rightarrow> bool) \<Rightarrow> workflow_db \<Rightarrow> workflow_db" where
  "clear_bindings now P db =
     db\<lparr>trigger_bindings := update_where (\<lambda>b. P b \<and> tb_deleted_at b = None) (clear_binding now) (trigger_bindings db)\<rparr>"

definition upsert_binding ::
  "time \<Rightarrow> uuid \<Rightarrow> uuid \<Rightarrow> string \<Rightarrow> TriggerBindingInput \<Rightarrow> (wf_error, workflow_db, unit) tx" where
  "upsert_binding now bid definitionID sourceType b db =
     (if sourceType \<notin> set definition_sources then Inl WfConstraint
      else if exists_row (\<lambda>r. tb_definition_id r = definitionID \<and> tb_name r = tbi_name b) (trigger_bindings db)
      then Inr ((), db\<lparr>trigger_bindings :=
             update_where (\<lambda>r. tb_definition_id r = definitionID \<and> tb_name r = tbi_name b)
               (\<lambda>r. r\<lparr>tb_source_type := sourceType, tb_binding_key := tbi_binding_key b,
                      tb_deleted_at := None, tb_updated_at := now\<rparr>) (trigger_bindings db)\<rparr>)
      else if exists_row (\<lambda>r. tb_id r = bid) (trigger_bindings db)
              \<or> \<not> exists_row (\<lambda>d. d_id d = definitionID) (definitions db)
      then Inl WfConstraint
      else Inr ((), db\<lparr>trigger_bindings := trigger_bindings db @
             [\<lparr>tb_id = bid, tb_definition_id = definitionID, tb_name = tbi_name b, tb_source_type = sourceType,
               tb_binding_key = tbi_binding_key b, tb_created_at = now, tb_updated_at = now, tb_deleted_at = None\<rparr>]\<rparr>))"

fun upsert_bindings ::
  "time \<Rightarrow> uuid \<Rightarrow> string \<Rightarrow> string list \<Rightarrow> (uuid \<times> TriggerBindingInput) list \<Rightarrow> (wf_error, workflow_db, unit) tx" where
  "upsert_bindings now definitionID sourceType seen [] db = Inr ((), db)"
| "upsert_bindings now definitionID sourceType seen ((bid, b) # bs) db =
     (if tbi_name b = [] then Inl (WfRequired ''binding name is required'')
      else if tbi_binding_key b = [] then Inl (WfRequired ''bindingKey is required'')
      else if tbi_name b \<in> set seen then Inl (WfRequired ''binding name is duplicated'')
      else case upsert_binding now bid definitionID sourceType b db of
        Inl e \<Rightarrow> Inl e
      | Inr (_, db') \<Rightarrow> upsert_bindings now definitionID sourceType (tbi_name b # seen) bs db')"

definition ReplaceTriggerBindings ::
  "bool \<Rightarrow> time \<Rightarrow> (nat \<Rightarrow> uuid) \<Rightarrow> uuid \<Rightarrow> string \<Rightarrow> TriggerBindingInput list
   \<Rightarrow> workflow_db \<Rightarrow> (wf_error failure + unit) \<times> workflow_db" where
  "ReplaceTriggerBindings fault now bids definitionID sourceType bindings =
     run_tx fault (\<lambda>db.
       upsert_bindings now definitionID sourceType [] (zip (map bids [0..<length bindings]) bindings)
         (clear_bindings now (\<lambda>b. tb_definition_id b = definitionID) db))"

definition ListTriggerBindings :: "uuid \<Rightarrow> workflow_db \<Rightarrow> TriggerBindingRow list" where
  "ListTriggerBindings definitionID db =
     order_by tb_name (filter (\<lambda>b. tb_definition_id b = definitionID \<and> tb_deleted_at b = None) (trigger_bindings db))"

section \<open>Soft deletion\<close>

definition soft_delete_where ::
  "time \<Rightarrow> (Definition \<Rightarrow> bool) \<Rightarrow> (wf_error, workflow_db, unit) tx" where
  "soft_delete_where now P db =
     (let db1 = clear_bindings now (\<lambda>b. exists_row (\<lambda>d. d_id d = tb_definition_id b \<and> P d) (definitions db)) db
      in Inr ((), db1\<lparr>definitions := update_where (\<lambda>d. P d \<and> d_deleted_at d = None)
              (\<lambda>d. d\<lparr>d_deleted_at := Some now, d_updated_at := now\<rparr>) (definitions db1)\<rparr>))"

definition SoftDeleteDefinitionByKey ::
  "bool \<Rightarrow> time \<Rightarrow> string \<Rightarrow> workflow_db \<Rightarrow> (wf_error failure + unit) \<times> workflow_db" where
  "SoftDeleteDefinitionByKey fault now key = run_tx fault (soft_delete_where now (\<lambda>d. d_key d = key))"

definition SoftDeleteDefinitionsByOwner ::
  "bool \<Rightarrow> time \<Rightarrow> string \<Rightarrow> workflow_db \<Rightarrow> (wf_error failure + unit) \<times> workflow_db" where
  "SoftDeleteDefinitionsByOwner fault now scopeIdentityKey =
     run_tx fault (\<lambda>db. soft_delete_where now (owned_by scopeIdentityKey db) db)"

section \<open>Resolving a definition for an attempt\<close>

definition validateCanonicalSpecForAttempt ::
  "(raw_json \<Rightarrow> bool) \<Rightarrow> Definition \<Rightarrow> CanonicalSpec \<Rightarrow> wf_error option" where
  "validateCanonicalSpecForAttempt compiles d spec =
     first_error
       [check (sp_key spec \<noteq> [] \<and> sp_key spec = d_key d) (WfSpec ''key must match definition key''),
        check (sp_scope_identity_key spec \<noteq> []) (WfSpec ''scopeIdentityKey is required''),
        check (src_type (sp_source spec) \<noteq> []) (WfSpec ''source.type is required''),
        check (list_all (\<lambda>s. sk_name s \<noteq> [] \<and> sk_version s \<noteq> [] \<and> sk_digest s \<noteq> []) (sp_skills spec))
          (WfSpec ''skills requires name, version, and digest''),
        map_option WfGraph (ValidateGraph compiles spec)]"

definition readPermittedTools :: "string \<Rightarrow> workflow_db \<Rightarrow> wf_error + string list" where
  "readPermittedTools definitionKey db =
     (case find (\<lambda>b. pb_definition_key b = definitionKey \<and> pb_deleted_at b = None) (pool_bindings db) of
        None \<Rightarrow> Inl WfNotFound
      | Some b \<Rightarrow>
          (case pb_permitted_tools b of
             None \<Rightarrow> Inl WfToolsUndecodable
           | Some caps \<Rightarrow> Inr (map cap_tool caps)))"

definition resolveForAttempt ::
  "(raw_json \<Rightarrow> bool) \<Rightarrow> string \<Rightarrow> string \<Rightarrow> workflow_db \<Rightarrow> wf_error + ResolvedDefinition" where
  "resolveForAttempt compiles key version db =
     (case (if version = [] then GetLatestDefinition key db else GetDefinition key version db) of
        Inl e \<Rightarrow> Inl e
      | Inr d \<Rightarrow>
          if d_validation_status d = ''invalid'' then Inl WfInvalid
          else case readPermittedTools (DefinitionKey (d_key d) (d_version d)) db of
            Inl e \<Rightarrow> Inl e
          | Inr permitted \<Rightarrow>
              (case d_spec_json d of
                 SpecDoc spec \<Rightarrow>
                   (case validateCanonicalSpecForAttempt compiles d spec of
                      Some e \<Rightarrow> Inl e
                    | None \<Rightarrow> Inr \<lparr>rd_definition = d, rd_trigger_bindings = ListTriggerBindings (d_id d) db,
                        rd_spec = spec, rd_skills = sp_skills spec, rd_permitted_tools = permitted,
                        rd_requested_capabilities = sp_requested_capabilities spec\<rparr>)
               | _ \<Rightarrow> Inl WfSpecUndecodable))"

end
