(* ===== verification/Workflow_Store_Properties.thy ===== *)
theory Workflow_Store_Properties
  imports Workflow_Store
begin

text \<open>
  The promises of the workflow store: a published version never changes and is never lost,
  every version of a logical key has one owner, registering is idempotent and refuses a
  different content or owner, a registered version is the one a reader gets, and replacing
  trigger bindings leaves exactly the given ones active.
\<close>

section \<open>The store as a transition system\<close>

text \<open>The last rule is everything that other stores do to the identities and the pool
  bindings.\<close>

inductive wf_step :: "workflow_db \<Rightarrow> workflow_db \<Rightarrow> bool" where
  wf_register: "wf_step db (snd (RegisterDefinition fault now did d db))"
| wf_triggers: "wf_step db (snd (ReplaceTriggerBindings fault now bids definitionID src bs db))"
| wf_delete_key: "wf_step db (snd (SoftDeleteDefinitionByKey fault now key db))"
| wf_delete_owner: "wf_step db (snd (SoftDeleteDefinitionsByOwner fault now owner db))"
| wf_others: "definitions db' = definitions db \<Longrightarrow> trigger_bindings db' = trigger_bindings db \<Longrightarrow> wf_step db db'"

text \<open>All of a definition but its deletion mark and the time of its last change.\<close>

definition content :: "Definition \<Rightarrow> Definition" where
  "content d = d\<lparr>d_deleted_at := None, d_updated_at := 0\<rparr>"

definition wf_inv :: "workflow_db \<Rightarrow> bool" where
  "wf_inv db \<longleftrightarrow>
     distinct (map (\<lambda>d. (d_key d, d_version d)) (definitions db))
     \<and> distinct (map d_id (definitions db))
     \<and> (\<forall>d \<in> set (definitions db). \<forall>d' \<in> set (definitions db).
          d_key d = d_key d' \<longrightarrow> d_scope_identity_id d = d_scope_identity_id d')"

lemma wf_inv_distinct:
  "wf_inv db \<Longrightarrow> distinct (map (\<lambda>d. (d_key d, d_version d)) (definitions db))"
  "wf_inv db \<Longrightarrow> distinct (map d_id (definitions db))"
  unfolding wf_inv_def by (elim conjE, assumption)+

lemma content_eqD:
  assumes "content d = content d'"
  shows "d_id d = d_id d'" "d_key d = d_key d'" "d_version d = d_version d'" "d_digest d = d_digest d'"
    "d_spec_json d = d_spec_json d'" "d_scope_identity_id d = d_scope_identity_id d'"
    "d_validation_status d = d_validation_status d'"
  using arg_cong [OF assms, of d_id] arg_cong [OF assms, of d_key] arg_cong [OF assms, of d_version]
    arg_cong [OF assms, of d_digest] arg_cong [OF assms, of d_spec_json]
    arg_cong [OF assms, of d_scope_identity_id] arg_cong [OF assms, of d_validation_status]
  by (simp_all add: content_def)

lemma content_changes [simp]:
  "content (d\<lparr>d_deleted_at := x, d_updated_at := y\<rparr>) = content d"
  "content (revive_row now d) = content d"
  by (simp_all add: content_def revive_row_def)

section \<open>What an operation does to the definitions\<close>

text \<open>Every operation keeps each row's content in place and adds at most one row.\<close>

lemma map_content_update:
  "(\<And>d. P d \<Longrightarrow> content (f d) = content d) \<Longrightarrow> map content (update_where P f ds) = map content ds"
  by (rule map_update_where)

lemma insertDefinition_okE:
  assumes "insertDefinition now did d db = Inr (u, db')"
  obtains (old) "exists_row (same_version d) (definitions db)"
    "definitions db' = update_where (\<lambda>r. same_version d r \<and> d_scope_identity_id r = d_scope_identity_id d
        \<and> d_digest r = d_digest d \<and> d_deleted_at r \<noteq> None) (revive_row now) (definitions db)"
  | (new) "\<not> exists_row (same_version d) (definitions db)" "did \<notin> d_id ` set (definitions db)"
    "definitions db' = definitions db @ [d\<lparr>d_id := did, d_created_at := now, d_updated_at := now, d_deleted_at := None\<rparr>]"
proof (cases "exists_row (same_version d) (definitions db)")
  case True
  then show ?thesis
    by (rule old) (use assms True in \<open>auto simp: insertDefinition_def simp del: exists_row_iff split: if_splits\<close>)
next
  case False
  then show ?thesis
    by (rule new)
       (use assms False in \<open>auto simp: insertDefinition_def exists_row_key simp del: exists_row_iff split: if_splits\<close>)
qed

lemma RegisterDefinition_okE:
  assumes "RegisterDefinition fault now did d0 db = (Inr r, db')"
  obtains d where "prepareDefinition d0 = Inr d" "lockAndCheckDefinitionOwner d db = Inr ((), db)"
    "insertDefinition now did d db = Inr ((), db')" "find (same_version d) (definitions db') = Some r"
    "d_scope_identity_id r = d_scope_identity_id d" "d_digest r = d_digest d"
proof -
  obtain d where d: "prepareDefinition d0 = Inr d"
    using assms by (cases "prepareDefinition d0") (auto simp: RegisterDefinition_def)
  then obtain db1 db2 where tx: "lockAndCheckDefinitionOwner d db = Inr ((), db1)" "insertDefinition now did d db1 = Inr ((), db2)"
    "readRegisteredDefinition d db2 = Inr (r, db')"
    using assms by (auto simp: RegisterDefinition_def tx_simps)
  from tx(1) have "db1 = db" by (auto simp: lockAndCheckDefinitionOwner_def split: option.splits if_splits)
  moreover from tx(3) have "db2 = db'" "find (same_version d) (definitions db') = Some r"
    "d_scope_identity_id r = d_scope_identity_id d" "d_digest r = d_digest d"
    by (auto simp: readRegisteredDefinition_def split: option.splits if_splits)
  ultimately show ?thesis using that d tx by blast
qed

lemma RegisterDefinition_rollback:
  "fst (RegisterDefinition fault now did d db) = Inl e \<Longrightarrow> snd (RegisterDefinition fault now did d db) = db"
  by (auto simp: RegisterDefinition_def run_tx_rollback split: sum.splits)

lemma prepareDefinition_keeps:
  "prepareDefinition d0 = Inr d \<Longrightarrow> d_key d = d_key d0 \<and> d_version d = d_version d0 \<and> d_digest d = d_digest d0
     \<and> d_scope_identity_id d = d_scope_identity_id d0"
  by (auto simp: prepareDefinition_def split: if_splits)

lemma upsert_bindings_definitions:
  "upsert_bindings now definitionID src seen bs db = Inr (u, db') \<Longrightarrow> definitions db' = definitions db"
proof (induction now definitionID src seen bs db rule: upsert_bindings.induct)
  case (2 now definitionID src seen bid b bs db)
  obtain db1 where "upsert_binding now bid definitionID src b db = Inr ((), db1)"
    "upsert_bindings now definitionID src (tbi_name b # seen) bs db1 = Inr (u, db')"
    and ok: "tbi_name b \<noteq> []" "tbi_binding_key b \<noteq> []" "tbi_name b \<notin> set seen"
    using "2.prems" by (auto split: sum.splits if_splits)
  moreover from this(1) have "definitions db1 = definitions db"
    by (auto simp: upsert_binding_def split: if_splits)
  ultimately show ?case using "2.IH" by simp
qed simp

lemma ReplaceTriggerBindings_definitions:
  "definitions (snd (ReplaceTriggerBindings fault now bids definitionID src bs db)) = definitions db"
  unfolding ReplaceTriggerBindings_def
  by (rule run_tx_invariant [where I = "\<lambda>x. definitions x = definitions db"])
     (auto dest!: upsert_bindings_definitions simp: clear_bindings_def)

lemma soft_delete_content:
  "soft_delete_where now P db = Inr (u, db') \<Longrightarrow> map content (definitions db') = map content (definitions db)"
  by (auto simp: soft_delete_where_def clear_bindings_def Let_def map_content_update)

lemma RegisterDefinition_content:
  "\<exists>new. map content (definitions (snd (RegisterDefinition fault now did d db))) = map content (definitions db) @ new"
proof (rule outcome_invariant [where I = "\<lambda>x. \<exists>new. map content (definitions x) = map content (definitions db) @ new",
      OF _ RegisterDefinition_rollback])
  fix r db' assume "RegisterDefinition fault now did d db = (Inr r, db')"
  then obtain d' where "insertDefinition now did d' db = Inr ((), db')" by (rule RegisterDefinition_okE)
  then show "\<exists>new. map content (definitions db') = map content (definitions db) @ new"
    by (cases rule: insertDefinition_okE) (auto simp: map_content_update)
qed simp

lemma wf_step_content: "wf_step db db' \<Longrightarrow> \<exists>new. map content (definitions db') = map content (definitions db) @ new"
proof (induction rule: wf_step.induct)
  case (wf_register db fault now did d)
  show ?case by (rule RegisterDefinition_content)
next
  case (wf_delete_key db fault now key)
  show ?case unfolding SoftDeleteDefinitionByKey_def
    by (rule run_tx_invariant [where I = "\<lambda>x. \<exists>new. map content (definitions x) = map content (definitions db) @ new"])
       (auto dest: soft_delete_content)
next
  case (wf_delete_owner db fault now owner)
  show ?case unfolding SoftDeleteDefinitionsByOwner_def
    by (rule run_tx_invariant [where I = "\<lambda>x. \<exists>new. map content (definitions x) = map content (definitions db) @ new"])
       (auto dest: soft_delete_content)
qed (simp_all add: ReplaceTriggerBindings_definitions)

lemma wf_steps_content:
  "wf_step\<^sup>*\<^sup>* db db' \<Longrightarrow> \<exists>new. map content (definitions db') = map content (definitions db) @ new"
proof (induction rule: rtranclp_induct)
  case (step y z)
  then obtain n1 n2 where "map content (definitions y) = map content (definitions db) @ n1"
    "map content (definitions z) = map content (definitions y) @ n2" using wf_step_content by blast
  then show ?case by simp
qed simp

section \<open>The invariant\<close>

lemma map_via_content:
  assumes "\<And>d. f (content d) = f d" and "map content ds' = map content ds"
  shows "map f ds' = map f ds"
proof -
  have "map f xs = map f (map content xs)" for xs using assms(1) by simp
  then show ?thesis using assms(2) by metis
qed

lemma wf_inv_content: "map content (definitions db') = map content (definitions db) \<Longrightarrow> wf_inv db \<Longrightarrow> wf_inv db'"
proof -
  assume eq: "map content (definitions db') = map content (definitions db)" and inv: "wf_inv db"
  have kv: "map (\<lambda>d. (d_key d, d_version d)) (definitions db') = map (\<lambda>d. (d_key d, d_version d)) (definitions db)"
    and ids: "map d_id (definitions db') = map d_id (definitions db)"
    and owners: "map (\<lambda>d. (d_key d, d_scope_identity_id d)) (definitions db') = map (\<lambda>d. (d_key d, d_scope_identity_id d)) (definitions db)"
    by (rule map_via_content [OF _ eq], simp add: content_def)+
  have own: "(\<forall>d \<in> set ds. \<forall>d' \<in> set ds. d_key d = d_key d' \<longrightarrow> d_scope_identity_id d = d_scope_identity_id d')
      \<longleftrightarrow> (\<forall>p \<in> set (map (\<lambda>d. (d_key d, d_scope_identity_id d)) ds). \<forall>q \<in> set (map (\<lambda>d. (d_key d, d_scope_identity_id d)) ds).
            fst p = fst q \<longrightarrow> snd p = snd q)" for ds by simp
  show "wf_inv db'" using inv unfolding wf_inv_def own kv ids owners .
qed

lemma insertDefinition_inv:
  assumes inv: "wf_inv db" and lock: "lockAndCheckDefinitionOwner d db = Inr ((), db)"
    and ins: "insertDefinition now did d db = Inr ((), db')"
  shows "wf_inv db'"
  using ins
proof (cases rule: insertDefinition_okE)
  case old
  then show ?thesis by (intro wf_inv_content [OF _ inv]) (simp add: map_content_update)
next
  case new
  have fresh: "(d_key d, d_version d) \<notin> (\<lambda>d. (d_key d, d_version d)) ` set (definitions db)"
    using new(1) by (auto simp: same_version_def)
  have owner: "d_scope_identity_id r = d_scope_identity_id d" if r: "r \<in> set (definitions db)" "d_key r = d_key d" for r
  proof -
    let ?rows = "filter (\<lambda>r. d_key r = d_key d) (definitions db)"
    have "order_by (\<lambda>r. (d_created_at r, d_id r)) ?rows \<noteq> []" using r by (auto simp: filter_empty_conv)
    then obtain s where s: "limit1 (order_by (\<lambda>r. (d_created_at r, d_id r)) ?rows) = Some s"
      by (cases "order_by (\<lambda>r. (d_created_at r, d_id r)) ?rows") auto
    then have "s \<in> set (definitions db)" "d_key s = d_key d" using limit1_order_by_least(1) [OF s] by auto
    moreover have "d_scope_identity_id s = d_scope_identity_id d"
      using lock s by (simp add: lockAndCheckDefinitionOwner_def split: if_splits)
    ultimately show ?thesis using inv r unfolding wf_inv_def by (metis (no_types))
  qed
  let ?new = "d\<lparr>d_id := did, d_created_at := now, d_updated_at := now, d_deleted_at := None\<rparr>"
  have "\<forall>x \<in> set (definitions db'). \<forall>y \<in> set (definitions db').
      d_key x = d_key y \<longrightarrow> d_scope_identity_id x = d_scope_identity_id y"
  proof (intro ballI impI)
    fix x y assume "x \<in> set (definitions db')" "y \<in> set (definitions db')" and key: "d_key x = d_key y"
    then consider "x \<in> set (definitions db)" "y \<in> set (definitions db)" | "x \<in> set (definitions db)" "y = ?new"
      | "x = ?new" "y \<in> set (definitions db)" | "x = ?new" "y = ?new" unfolding new(3) by auto
    then show "d_scope_identity_id x = d_scope_identity_id y"
    proof cases
      case 1
      then show ?thesis using inv key unfolding wf_inv_def by blast
    next
      case 2
      then show ?thesis using owner [of x] key by simp
    next
      case 3
      then show ?thesis using owner [of y] key by simp
    qed simp
  qed
  moreover have "distinct (map (\<lambda>d. (d_key d, d_version d)) (definitions db'))" "distinct (map d_id (definitions db'))"
    using wf_inv_distinct [OF inv] fresh new(2) by (auto simp: new(3))
  ultimately show ?thesis unfolding wf_inv_def by (intro conjI)
qed

lemma soft_delete_inv: "soft_delete_where now P db = Inr (r, db') \<Longrightarrow> wf_inv db \<Longrightarrow> wf_inv db'"
  by (rule wf_inv_content [OF soft_delete_content])

lemma wf_step_inv: "wf_step db db' \<Longrightarrow> wf_inv db \<Longrightarrow> wf_inv db'"
proof (induction rule: wf_step.induct)
  case (wf_register db fault now did d)
  show ?case
  proof (rule outcome_invariant [where I = wf_inv, OF wf_register RegisterDefinition_rollback])
    fix r db' assume "RegisterDefinition fault now did d db = (Inr r, db')"
    then show "wf_inv db'" by (rule RegisterDefinition_okE) (rule insertDefinition_inv [OF wf_register])
  qed
next
  case (wf_triggers db fault now bids definitionID src bs)
  then show ?case by (rule wf_inv_content [rotated]) (simp add: ReplaceTriggerBindings_definitions)
next
  case (wf_delete_key db fault now key)
  show ?case unfolding SoftDeleteDefinitionByKey_def
    by (rule run_tx_invariant [where I = wf_inv, OF wf_delete_key]) (erule soft_delete_inv [OF _ wf_delete_key])
next
  case (wf_delete_owner db fault now owner)
  show ?case unfolding SoftDeleteDefinitionsByOwner_def
    by (rule run_tx_invariant [where I = wf_inv, OF wf_delete_owner]) (erule soft_delete_inv [OF _ wf_delete_owner])
next
  case (wf_others db' db)
  show ?case by (rule wf_inv_content [OF _ wf_others(3)]) (simp add: wf_others(1))
qed

lemma wf_steps_inv: "wf_step\<^sup>*\<^sup>* db db' \<Longrightarrow> wf_inv db \<Longrightarrow> wf_inv db'"
  by (induction rule: rtranclp_induct) (auto intro: wf_step_inv)

section \<open>Trigger bindings as a finite map\<close>

text \<open>What a definition's bindings are to a reader: a finite map from the name to the source
  type and the binding key, of the rows that are not deleted.\<close>

definition rows_view :: "uuid \<Rightarrow> TriggerBindingRow list \<Rightarrow> string \<rightharpoonup> (string \<times> string)" where
  "rows_view did rows n =
     map_option (\<lambda>r. (tb_source_type r, tb_binding_key r))
       (find (\<lambda>r. tb_definition_id r = did \<and> tb_name r = n \<and> tb_deleted_at r = None) rows)"

lemma rows_view_simps [simp]:
  "rows_view did [] n = None"
  "rows_view did (r # rows) n =
     (if tb_definition_id r = did \<and> tb_name r = n \<and> tb_deleted_at r = None
      then Some (tb_source_type r, tb_binding_key r) else rows_view did rows n)"
  by (simp_all add: rows_view_def)

abbreviation binding_view :: "uuid \<Rightarrow> workflow_db \<Rightarrow> string \<rightharpoonup> (string \<times> string)" where
  "binding_view did db \<equiv> rows_view did (trigger_bindings db)"

lemma rows_view_clear:
  "rows_view did (update_where (\<lambda>b. tb_definition_id b = d \<and> tb_deleted_at b = None) (clear_binding now) rows)
     = (if did = d then Map.empty else rows_view did rows)"
proof
  show "rows_view did (update_where (\<lambda>b. tb_definition_id b = d \<and> tb_deleted_at b = None) (clear_binding now) rows) n
     = (if did = d then Map.empty else rows_view did rows) n" for n
    by (induction rows) (auto simp: clear_binding_def)
qed

lemma rows_view_set:
  assumes "\<And>r. tb_definition_id (f r) = tb_definition_id r \<and> tb_name (f r) = tb_name r \<and> tb_source_type (f r) = src
    \<and> tb_binding_key (f r) = k \<and> tb_deleted_at (f r) = None"
  shows "rows_view did (update_where (\<lambda>r. tb_definition_id r = d \<and> tb_name r = m) f rows) n =
    (if did = d \<and> n = m \<and> exists_row (\<lambda>r. tb_definition_id r = d \<and> tb_name r = m) rows then Some (src, k)
     else rows_view did rows n)"
  using assms by (induction rows) (auto simp del: exists_row_iff simp: exists_row_def)

lemma upsert_binding_view:
  assumes "upsert_binding now bid d src b db = Inr (u, db')"
  shows "binding_view did db' = (if did = d then (binding_view did db)(tbi_name b \<mapsto> (src, tbi_binding_key b)) else binding_view did db)"
proof (cases "exists_row (\<lambda>r. tb_definition_id r = d \<and> tb_name r = tbi_name b) (trigger_bindings db)")
  case True
  have "binding_view did db' n = (if did = d then (binding_view did db)(tbi_name b \<mapsto> (src, tbi_binding_key b)) else binding_view did db) n" for n
    using assms True by (auto simp: upsert_binding_def rows_view_set [where src = src and k = "tbi_binding_key b"]
        simp del: exists_row_iff split: if_splits)
  then show ?thesis by (rule ext)
next
  case False
  then have "find (\<lambda>r. tb_definition_id r = d \<and> tb_name r = tbi_name b \<and> tb_deleted_at r = None) (trigger_bindings db) = None"
    by (auto simp: find_None_iff)
  then have "binding_view did db' n = (if did = d then (binding_view did db)(tbi_name b \<mapsto> (src, tbi_binding_key b)) else binding_view did db) n" for n
    using assms False by (auto simp: upsert_binding_def rows_view_def find_append simp del: exists_row_iff split: if_splits option.splits)
  then show ?thesis by (rule ext)
qed

abbreviation requested_view :: "string \<Rightarrow> TriggerBindingInput list \<Rightarrow> string \<rightharpoonup> (string \<times> string)" where
  "requested_view src bs \<equiv> map_of (map (\<lambda>b. (tbi_name b, src, tbi_binding_key b)) bs)"

lemma upsert_bindings_view:
  "upsert_bindings now d src seen bs db = Inr (u, db')
   \<Longrightarrow> distinct (map (tbi_name \<circ> snd) bs) \<and> set (map (tbi_name \<circ> snd) bs) \<inter> set seen = {}
     \<and> binding_view did db' = (if did = d then binding_view did db ++ requested_view src (map snd bs) else binding_view did db)"
proof (induction now d src seen bs db rule: upsert_bindings.induct)
  case (2 now d src seen bid b bs db)
  obtain db1 where one: "upsert_binding now bid d src b db = Inr ((), db1)" and new: "tbi_name b \<notin> set seen"
    and rest: "upsert_bindings now d src (tbi_name b # seen) bs db1 = Inr (u, db')" and named: "tbi_name b \<noteq> []" "tbi_binding_key b \<noteq> []"
    using "2.prems" by (auto split: if_splits sum.splits)
  note IH = "2.IH" [OF named new one refl rest]
  have "tbi_name b \<notin> dom (requested_view src (map snd bs))" using IH by (simp add: dom_map_of_conv_image_fst image_image)
  then have "(binding_view did db)(tbi_name b \<mapsto> (src, tbi_binding_key b)) ++ requested_view src (map snd bs)
      = binding_view did db ++ requested_view src (map snd ((bid, b) # bs))"
    by (simp add: map_add_upd_left)
  then show ?case using IH new upsert_binding_view [OF one, of did] by (cases "did = d") simp_all
qed simp

section \<open>Properties\<close>

definition example_store :: workflow_db where
  "example_store = \<lparr>wf_identities = [(''id1'', ''ns/one''), (''id2'', ''ns/two'')], definitions = [],
     trigger_bindings = [], pool_bindings = []\<rparr>"

definition example_definition :: Definition where
  "example_definition = \<lparr>d_id = [], d_key = ''wf'', d_version = ''v1'', d_digest = ''sha'', d_spec_json = SpecNil,
     d_validation_status = ''valid'', d_scope_identity_id = ''id1'', d_source_type = ''manual_api'', d_pool_key = ''p'',
     d_presentation = None, d_created_at = 0, d_updated_at = 0, d_deleted_at = None\<rparr>"

definition example_registered :: workflow_db where
  "example_registered = snd (RegisterDefinition False 5 ''def1'' example_definition example_store)"

lemma example_registered_inv: "wf_inv example_registered"
  unfolding example_registered_def
  by (rule wf_step_inv [OF wf_register]) (simp add: wf_inv_def example_store_def)

text \<open>C16. A published version is immutable and durable: whatever operations follow, its row
  keeps its identifier, key, version, digest, specification, owner and status; only the
  deletion mark and the time of last change move.\<close>

theorem definition_immutable:
  assumes "wf_step\<^sup>*\<^sup>* db db'" and "d \<in> set (definitions db)"
  shows "\<exists>d' \<in> set (definitions db'). content d' = content d"
proof -
  obtain new where "map content (definitions db') = map content (definitions db) @ new"
    using wf_steps_content [OF assms(1)] by blast
  then have "content d \<in> content ` set (definitions db')"
    using assms(2) by (metis UnI1 imageI list.set_map set_append)
  then show ?thesis by auto
qed

theorem definition_immutable_example:
  "\<exists>d' \<in> set (definitions (snd (SoftDeleteDefinitionByKey False 9 ''wf'' example_registered))).
     content d' = content (hd (definitions example_registered))"
proof (rule definition_immutable)
  show "wf_step\<^sup>*\<^sup>* example_registered (snd (SoftDeleteDefinitionByKey False 9 ''wf'' example_registered))"
    by (rule r_into_rtranclp) (rule wf_delete_key)
  show "hd (definitions example_registered) \<in> set (definitions example_registered)" by code_simp
qed

text \<open>C17. One owner per logical key: in every database reached from an empty definition
  table, versions of one key, deleted ones included, belong to one scope identity, and no two
  rows share a key and version.\<close>

theorem definition_single_owner:
  assumes "definitions db0 = []" and "wf_step\<^sup>*\<^sup>* db0 db" and "d \<in> set (definitions db)" and "d' \<in> set (definitions db)"
    and "d_key d = d_key d'"
  shows "d_scope_identity_id d = d_scope_identity_id d' \<and> (d_version d = d_version d' \<longrightarrow> d = d')"
proof -
  have "wf_inv db0" using assms(1) by (simp add: wf_inv_def)
  then have inv: "wf_inv db" by (rule wf_steps_inv [OF assms(2)])
  have "inj_on (\<lambda>d. (d_key d, d_version d)) (set (definitions db))" using inv by (simp add: wf_inv_def distinct_map)
  then show ?thesis using inv assms(3-5) unfolding wf_inv_def inj_on_def by blast
qed

theorem definition_single_owner_example:
  "d_scope_identity_id (hd (definitions example_registered)) = d_scope_identity_id (last (definitions example_registered))"
proof -
  have "wf_step\<^sup>*\<^sup>* example_store example_registered"
    unfolding example_registered_def by (rule r_into_rtranclp) (rule wf_register)
  moreover have "hd (definitions example_registered) \<in> set (definitions example_registered)"
    "last (definitions example_registered) \<in> set (definitions example_registered)"
    "d_key (hd (definitions example_registered)) = d_key (last (definitions example_registered))"
    by code_simp+
  moreover have "definitions example_store = []" by (simp add: example_store_def)
  ultimately show ?thesis using definition_single_owner by blast
qed

text \<open>Under the invariant a version has one row, and the owner check passes for its owner.\<close>

lemma same_version_row:
  assumes inv: "wf_inv db" and r: "r \<in> set (definitions db)" and same: "d_key r = d_key d" "d_version r = d_version d"
  shows "find (same_version d) (definitions db) = Some r"
    and "\<And>x. x \<in> set (definitions db) \<Longrightarrow> same_version d x \<Longrightarrow> x = r"
    and "exists_row (same_version d) (definitions db)"
proof -
  have dist: "distinct (map (\<lambda>d. (d_key d, d_version d)) (definitions db))" using inv by (simp add: wf_inv_def)
  have sv: "same_version d = (\<lambda>x. (d_key x, d_version x) = (d_key r, d_version r))"
    using same by (auto simp: same_version_def)
  have "find (\<lambda>x. (d_key x, d_version x) = (d_key r, d_version r)) (definitions db) = Some r"
    by (rule find_distinct_key [OF dist r])
  then show "find (same_version d) (definitions db) = Some r" by (simp only: sv)
  have "inj_on (\<lambda>d. (d_key d, d_version d)) (set (definitions db))" using dist by (simp add: distinct_map)
  then show "x = r" if "x \<in> set (definitions db)" "same_version d x" for x
    by (rule inj_onD [OF _ _ that(1) r]) (use that(2) same in \<open>simp add: same_version_def\<close>)
  show "exists_row (same_version d) (definitions db)"
    unfolding exists_row_iff using r same by (auto simp: same_version_def)
qed

lemma lock_owner:
  assumes inv: "wf_inv db" and r: "r \<in> set (definitions db)" "d_key r = d_key d"
  shows "lockAndCheckDefinitionOwner d db =
    (if d_scope_identity_id r \<noteq> d_scope_identity_id d then Inl (WfDefinitionOwnership (d_scope_identity_id r)) else Inr ((), db))"
proof -
  let ?rows = "order_by (\<lambda>r. (d_created_at r, d_id r)) (filter (\<lambda>r. d_key r = d_key d) (definitions db))"
  have "?rows \<noteq> []" using r by (auto simp: filter_empty_conv)
  then obtain s where s: "limit1 ?rows = Some s" by (cases ?rows) auto
  have "s \<in> set (definitions db)" "d_key s = d_key d" using limit1_order_by_least(1) [OF s] by auto
  then have "d_scope_identity_id s = d_scope_identity_id r" using inv r unfolding wf_inv_def by metis
  then show ?thesis using s by (simp add: lockAndCheckDefinitionOwner_def)
qed

lemma insertDefinition_noop:
  assumes "wf_inv db" and "r \<in> set (definitions db)" and "d_key r = d_key d" "d_version r = d_version d"
    and "d_validation_status d \<in> {''valid'', ''invalid''}" "d_source_type d \<in> set definition_sources"
    and "d_digest r \<noteq> d_digest d \<or> d_deleted_at r = None"
  shows "insertDefinition now did d db = Inr ((), db)"
proof -
  note row = same_version_row [OF assms(1-4)]
  have "update_where (\<lambda>x. same_version d x \<and> d_scope_identity_id x = d_scope_identity_id d \<and> d_digest x = d_digest d
      \<and> d_deleted_at x \<noteq> None) (revive_row now) (definitions db) = definitions db"
    by (rule update_where_none) (metis row(2) assms(7))
  then show ?thesis using row(3) assms(5,6) by (simp add: insertDefinition_def del: exists_row_iff not_None_eq)
qed

text \<open>C18. Publishing other content or another owner under a registered version is refused
  with the error that says which, and nothing changes.\<close>

theorem RegisterDefinition_conflict:
  assumes inv: "wf_inv db" and r: "r \<in> set (definitions db)" and prep: "prepareDefinition d0 = Inr d"
    and same: "d_key r = d_key d0" "d_version r = d_version d0"
    and checks: "d_validation_status d0 \<in> {''valid'', ''invalid''}" "d_source_type d0 \<in> set definition_sources"
    and diff: "d_scope_identity_id r \<noteq> d_scope_identity_id d0 \<or> d_digest r \<noteq> d_digest d0"
  shows "RegisterDefinition False now did d0 db =
    (Inl (Fail (if d_scope_identity_id r \<noteq> d_scope_identity_id d0 then WfDefinitionOwnership (d_scope_identity_id r)
                else WfImmutableVersion (d_digest r))), db)"
proof -
  note keep = prepareDefinition_keeps [OF prep]
  have checks': "d_validation_status d \<in> {''valid'', ''invalid''}" "d_source_type d \<in> set definition_sources"
    using prep checks by (auto simp: prepareDefinition_def split: if_splits)
  note lock = lock_owner [OF inv r, of d]
  show ?thesis
  proof (cases "d_scope_identity_id r = d_scope_identity_id d0")
    case False
    then show ?thesis using lock same keep prep by (simp add: RegisterDefinition_def run_tx_def tx_bind_def)
  next
    case True
    then have dig: "d_digest r \<noteq> d_digest d" using diff keep by simp
    have "insertDefinition now did d db = Inr ((), db)"
      by (rule insertDefinition_noop [OF inv r]) (use same keep checks' dig in auto)
    moreover have "find (same_version d) (definitions db) = Some r"
      by (rule same_version_row [OF inv r]) (use same keep in auto)
    ultimately show ?thesis using True lock same keep prep dig
      by (simp add: RegisterDefinition_def run_tx_def tx_bind_def readRegisteredDefinition_def)
  qed
qed

theorem RegisterDefinition_conflict_example:
  "RegisterDefinition False 9 ''x'' (example_definition\<lparr>d_digest := ''other''\<rparr>) example_registered
     = (Inl (Fail (WfImmutableVersion ''sha'')), example_registered)"
proof -
  let ?r = "hd (definitions example_registered)" and ?d = "example_definition\<lparr>d_digest := ''other''\<rparr>"
  have "?r \<in> set (definitions example_registered)" by code_simp
  moreover have "prepareDefinition ?d = Inr (projr (prepareDefinition ?d))" by code_simp
  moreover have facts: "d_key ?r = d_key ?d" "d_version ?r = d_version ?d" "d_validation_status ?d \<in> {''valid'', ''invalid''}"
    "d_source_type ?d \<in> set definition_sources" "d_scope_identity_id ?r = d_scope_identity_id ?d" "d_digest ?r = ''sha''" "d_digest ?d = ''other''"
    by code_simp+
  ultimately show ?thesis using RegisterDefinition_conflict [OF example_registered_inv, of ?r ?d] by simp
qed

lemma registered_row:
  assumes inv: "wf_inv db" and ins: "insertDefinition now did d db = Inr (u, db')"
    and r: "find (same_version d) (definitions db') = Some r" "d_scope_identity_id r = d_scope_identity_id d" "d_digest r = d_digest d"
  shows "d_deleted_at r = None"
  using ins
proof (cases rule: insertDefinition_okE)
  case old
  let ?hit = "\<lambda>x. same_version d x \<and> d_scope_identity_id x = d_scope_identity_id d \<and> d_digest x = d_digest d \<and> d_deleted_at x \<noteq> None"
  have "r \<in> set (definitions db')" "same_version d r" using find_SomeD [OF r(1)] by auto
  then obtain x where x: "x \<in> set (definitions db)" "r = (if ?hit x then revive_row now x else x)"
    unfolding old(2) by (auto simp: update_where_def)
  show ?thesis
  proof (cases "?hit x")
    case True
    then show ?thesis using x(2) by (simp add: revive_row_def)
  next
    case False
    then have "r = x" using x(2) by (simp only: if_False)
    then show ?thesis using False \<open>same_version d r\<close> r(2,3) by blast
  qed
next
  case new
  let ?n = "d\<lparr>d_id := did, d_created_at := now, d_updated_at := now, d_deleted_at := None\<rparr>"
  have "r = ?n" using r(1) new(1) unfolding new(3) by (auto simp: find_append same_version_def split: option.splits dest!: find_SomeD)
  then show ?thesis by simp
qed

text \<open>C19. What is registered is what is read: a successful registration returns an active row
  with the digest and owner that were asked for, \<^verbatim>\<open>GetDefinition\<close> returns that row from
  the new database, and registering it again returns it and changes nothing.\<close>

theorem RegisterDefinition_roundtrip:
  assumes inv: "wf_inv db" and ok: "RegisterDefinition fault now did d0 db = (Inr r, db')"
  shows "d_digest r = d_digest d0 \<and> d_scope_identity_id r = d_scope_identity_id d0
       \<and> GetDefinition (d_key d0) (d_version d0) db' = Inr r
       \<and> RegisterDefinition False now' did' d0 db' = (Inr r, db')"
proof -
  obtain d where d: "prepareDefinition d0 = Inr d" "lockAndCheckDefinitionOwner d db = Inr ((), db)"
    "insertDefinition now did d db = Inr ((), db')" "find (same_version d) (definitions db') = Some r"
    "d_scope_identity_id r = d_scope_identity_id d" "d_digest r = d_digest d"
    using ok by (rule RegisterDefinition_okE)
  note keep = prepareDefinition_keeps [OF d(1)]
  have inv': "wf_inv db'" by (rule insertDefinition_inv [OF inv d(2,3)])
  have r: "r \<in> set (definitions db')" "d_key r = d_key d" "d_version r = d_version d"
    using find_SomeD [OF d(4)] by (auto simp: same_version_def)
  have live: "d_deleted_at r = None" by (rule registered_row [OF inv d(3-6)])
  have "distinct (map (\<lambda>d. (d_key d, d_version d)) (definitions db'))" using inv' by (simp add: wf_inv_def)
  from find_key_guard [OF this, of "(d_key d, d_version d)" "\<lambda>x. d_deleted_at x = None" r]
  have "GetDefinition (d_key d0) (d_version d0) db' = Inr r"
    using d(4) live keep by (simp add: GetDefinition_def same_version_def [abs_def] conj_assoc)
  moreover have "d_validation_status d \<in> {''valid'', ''invalid''}" "d_source_type d \<in> set definition_sources"
    using d(3) by (auto simp: insertDefinition_def split: if_splits)
  then have "insertDefinition now' did' d db' = Inr ((), db')"
    by (intro insertDefinition_noop [OF inv' r(1)]) (use r live in auto)
  then have "RegisterDefinition False now' did' d0 db' = (Inr r, db')"
    using d lock_owner [OF inv' r(1,2)]
    by (simp add: RegisterDefinition_def run_tx_def tx_bind_def readRegisteredDefinition_def)
  ultimately show ?thesis using d(5,6) keep by simp
qed

theorem RegisterDefinition_roundtrip_example:
  "\<exists>r. GetDefinition ''wf'' ''v1'' example_registered = Inr r \<and> d_digest r = ''sha''"
proof -
  have "RegisterDefinition False 5 ''def1'' example_definition example_store =
      (Inr (hd (definitions example_registered)), example_registered)"
    by code_simp
  moreover have "wf_inv example_store" by (simp add: wf_inv_def example_store_def)
  ultimately show ?thesis using RegisterDefinition_roundtrip by (fastforce simp: example_definition_def)
qed

text \<open>C20. Replacing trigger bindings refines an assignment on the map of bindings: afterwards
  the definition has exactly the requested names with the requested source and key, whatever
  it had before, and no other definition's bindings move.\<close>

theorem ReplaceTriggerBindings_refines:
  assumes "ReplaceTriggerBindings fault now bids definitionID sourceType bindings db = (Inr (), db')"
  shows "binding_view definitionID db' = requested_view sourceType bindings
       \<and> (\<forall>other. other \<noteq> definitionID \<longrightarrow> binding_view other db' = binding_view other db)"
proof -
  have "upsert_bindings now definitionID sourceType [] (zip (map bids [0..<length bindings]) bindings)
      (clear_bindings now (\<lambda>b. tb_definition_id b = definitionID) db) = Inr ((), db')"
    using assms by (auto simp: ReplaceTriggerBindings_def run_tx_def split: sum.splits if_splits)
  note view = upsert_bindings_view [OF this, THEN conjunct2, THEN conjunct2]
  have "binding_view did (clear_bindings now (\<lambda>b. tb_definition_id b = definitionID) db)
      = (if did = definitionID then Map.empty else binding_view did db)" for did
    by (simp add: clear_bindings_def rows_view_clear)
  then show ?thesis using view by simp
qed

theorem ReplaceTriggerBindings_refines_example:
  "binding_view ''def1'' (snd (ReplaceTriggerBindings False 9 (\<lambda>i. replicate i CHR ''b'') ''def1'' ''graph_email''
      [\<lparr>tbi_name = ''push'', tbi_binding_key = ''k1''\<rparr>, \<lparr>tbi_name = ''tag'', tbi_binding_key = ''k2''\<rparr>] example_registered)) ''tag''
   = Some (''graph_email'', ''k2'')"
proof -
  let ?bs = "[\<lparr>tbi_name = ''push'', tbi_binding_key = ''k1''\<rparr>, \<lparr>tbi_name = ''tag'', tbi_binding_key = ''k2''\<rparr>]"
  let ?run = "ReplaceTriggerBindings False 9 (\<lambda>i. replicate i CHR ''b'') ''def1'' ''graph_email'' ?bs example_registered"
  have "fst ?run = Inr ()" by code_simp
  then have "?run = (Inr (), snd ?run)" by (metis prod.collapse)
  from ReplaceTriggerBindings_refines [OF this] show ?thesis by simp
qed

text \<open>C21. The wire format of a definition key is unambiguous for keys without a colon: it
  determines the key and the version.\<close>

theorem DefinitionKey_injective:
  assumes "CHR '':'' \<notin> set k" and "CHR '':'' \<notin> set k'"
  shows "DefinitionKey k v = DefinitionKey k' v' \<longleftrightarrow> k = k' \<and> v = v'"
proof -
  have "takeWhile (\<lambda>c. c \<noteq> CHR '':'') (DefinitionKey x y) = x" if "CHR '':'' \<notin> set x" for x y
    using that by (auto simp: DefinitionKey_def takeWhile_append)
  then have "DefinitionKey k v = DefinitionKey k' v' \<Longrightarrow> k = k'" using assms by metis
  then show ?thesis by (auto simp: DefinitionKey_def)
qed

theorem DefinitionKey_injective_example:
  "DefinitionKey ''wf'' ''v1'' = DefinitionKey ''wf'' ''v2'' \<longleftrightarrow> ''wf'' = ''wf'' \<and> ''v1'' = ''v2''"
  by (rule DefinitionKey_injective) simp_all

end
