(* ===== verification/Work_Tables.thy ===== *)
theory Work_Tables
  imports Runtime_Lifecycle Workflow_Store
begin

text \<open>
  The tables of the customer work domain, migration \<^verbatim>\<open>000016_work_graph.up.sql\<close> and its
  successors, with the types of \<^verbatim>\<open>src/control-plane/internal/work/types.go\<close>.

  \<open>work_db\<close> extends the runtime's database, so every runtime operation acts on it
  unchanged; the workflow store's tables are its field \<open>wf\<close>. The JSON columns the code
  itself writes from a typed value and reads back into the same type (the graph, the models,
  the artifact references of a node, the disclosed consequences) are kept as that value;
  JSON that comes from outside stays a document. Tables that the work store only reads are
  reduced to the columns it reads.

  An operation takes a \<open>tx_env\<close>: the transaction's \<^verbatim>\<open>now()\<close>, the process's
  \<^verbatim>\<open>time.Now()\<close>, per table and row position the identifier that
  \<^verbatim>\<open>gen_random_uuid()\<close> or \<^verbatim>\<open>uuid.NewString()\<close> hands out, and PostgreSQL's numeric
  \<^verbatim>\<open>baseline * cost / 3600\<close> as the column rounds it. An identity column hands out a
  number above every row's.
\<close>

section \<open>Rows\<close>

record tx_env =
  env_now :: time
  env_clock :: time
  env_uuid :: "string \<Rightarrow> nat \<Rightarrow> uuid"
  env_credit :: "int \<Rightarrow> int \<Rightarrow> int"

datatype NodeState = NodePending | NodeRunning | NodeBlocked | NodeSucceeded | NodeFailed

record ArtifactRef = ar_artifact_id :: string ar_role :: string ar_metadata :: raw_json

record PresentationField = pf_label :: CanonicalLocalizedText pf_value :: string

record SourcePresentation =
  spn_kind :: string
  spn_title :: string
  spn_subtitle :: string
  spn_original_url :: string
  spn_evidence :: "PresentationField list"

record principals =
  pr_initiating_human :: "uuid option"
  pr_request_actor :: "uuid option"
  pr_authorization_source :: "string option"
  pr_authorization_api_key :: "uuid option"
  pr_authorization_session :: "uuid option"

record WorkItemRow =
  wi_id :: uuid
  wi_workflow_key :: string
  wi_scope_identity_id :: uuid
  wi_title :: string
  wi_source :: json
  wi_source_presentation :: SourcePresentation
  wi_start_identity_id :: uuid
  wi_start_idempotency_key :: string
  wi_start_payload_hash :: string
  wi_principals :: principals
  wi_current_attempt_id :: "uuid option"
  wi_created_at :: time
  wi_updated_at :: time

record modelSnapshot =
  ms_key :: string
  ms_id :: string
  ms_api :: string
  ms_context_window :: int
  ms_max_output_tokens :: int
  ms_thinking_level :: string
  ms_default_params :: json
  ms_reasoning_config :: json

record valueSnapshot =
  vs_ref :: string
  vs_version :: string
  vs_currency :: string
  vs_baseline_seconds :: int
  vs_loaded_hourly_cost :: int
  vs_assumptions :: json
  vs_explanation :: json

record Attempt =
  at_id :: uuid
  at_work_item_id :: uuid
  at_number :: nat
  at_definition_id :: uuid
  at_definition_key :: string
  at_definition_version :: string
  at_definition_digest :: string
  at_graph :: CanonicalGraph
  at_skills :: "CanonicalSkill list"
  at_capabilities :: "CanonicalCapability list"
  at_models :: "(string \<times> modelSnapshot) list"
  at_presentation :: json
  at_value_model_id :: "uuid option"
  at_value_snapshot :: "valueSnapshot option"
  at_revised_from :: "uuid option"
  at_revision_feedback_id :: "uuid option"
  at_guidance :: "string option"
  at_confirmation :: "string list"
  at_customer_failure :: "json option"
  at_operator_failure :: "json option"
  at_created_at :: time
  at_finished_at :: "time option"

record NodeExecution =
  ne_id :: uuid
  ne_attempt_id :: uuid
  ne_node_key :: string
  ne_label :: CanonicalLocalizedText
  ne_result_presentation :: "CanonicalResultPresentation option"
  ne_visit :: nat
  ne_seq :: nat
  ne_kind :: string
  ne_prompt :: "string option"
  ne_context :: json
  ne_model :: "modelSnapshot option"
  ne_skills :: "CanonicalSkill list"
  ne_capabilities :: "CanonicalCapability list"
  ne_workspace_tools :: bool
  ne_timeout_ms :: "int option"
  ne_state :: NodeState
  ne_outcome :: "string option"
  ne_summary :: "string option"
  ne_output :: "json option"
  ne_artifact_refs :: "ArtifactRef list"
  ne_reported_at :: "time option"
  ne_started_at :: "time option"
  ne_finished_at :: "time option"
  ne_created_at :: time

record GraphTransition =
  gt_attempt_id :: uuid
  gt_from :: uuid
  gt_outcome :: string
  gt_to :: "uuid option"
  gt_terminal :: bool
  gt_created_at :: time

record Consequence = cq_invocation_id :: uuid cq_summary :: raw_json cq_state :: string

datatype BlockerState = BlockerOpen | BlockerResolved

record Blocker =
  bl_id :: uuid
  bl_work_item_id :: uuid
  bl_attempt_id :: uuid
  bl_node_execution_id :: "uuid option"
  bl_kind :: string
  bl_title :: CanonicalLocalizedText
  bl_description :: CanonicalLocalizedText
  bl_response_schema :: raw_json
  bl_allowed_outcomes :: "string list"
  bl_response_presentation :: CanonicalHumanGatePresentation
  bl_required_consequences :: "Consequence list"
  bl_state :: BlockerState
  bl_response_outcome :: "string option"
  bl_response :: "json option"
  bl_responded_by :: "uuid option"
  bl_created_at :: time
  bl_resolved_at :: "time option"

record Feedback =
  fb_id :: uuid
  fb_work_item_id :: uuid
  fb_attempt_id :: uuid
  fb_category :: string
  fb_explanation :: "string option"
  fb_corrected_result :: "json option"
  fb_created_by :: uuid
  fb_created_at :: time

record ArtifactLink =
  al_id :: uuid
  al_artifact_id :: string
  al_work_item_id :: uuid
  al_attempt_id :: uuid
  al_node_execution_id :: "uuid option"
  al_role :: string
  al_metadata :: json
  al_created_at :: time

record ArtifactRow =
  af_id :: string
  af_state :: string
  af_source_type :: string
  af_mime_type :: string
  af_size_bytes :: "int option"
  af_digest :: "string option"

record TimelineEvent =
  te_cursor :: nat
  te_id :: uuid
  te_work_item_id :: uuid
  te_attempt_id :: "uuid option"
  te_node_execution_id :: "uuid option"
  te_code :: string
  te_params :: json
  te_artifact_refs :: "ArtifactRef list"
  te_actor_identity_id :: "uuid option"
  te_created_at :: time

record ValueModel =
  vm_id :: uuid
  vm_ref :: string
  vm_version :: string
  vm_currency :: string
  vm_baseline_seconds :: int
  vm_loaded_hourly_cost :: int
  vm_assumptions :: json
  vm_explanation :: json
  vm_created_at :: time

datatype LedgerKind = CompletionCredit | FeedbackDeduction

record LedgerRow =
  vl_cursor :: nat
  vl_id :: uuid
  vl_work_item_id :: uuid
  vl_attempt_id :: uuid
  vl_feedback_id :: "uuid option"
  vl_value_model_id :: uuid
  vl_kind :: LedgerKind
  vl_amount :: int
  vl_currency :: string
  vl_formula :: "valueSnapshot option"
  vl_created_at :: time

record RunPoolRow = rp_run_id :: uuid rp_pool_id :: uuid rp_assigned_at :: time

record CatalogModel =
  cm_model_key :: string
  cm_model_id :: string
  cm_context_length :: "int option"
  cm_default_params :: json
  cm_reasoning_config :: json
  cm_available :: bool

record ToolVersionRow = tv_id :: uuid tv_name :: string tv_digest :: string tv_effect_class :: string tv_created_at :: time

record PoolGrantRow = pg_pool_id :: uuid pg_tool_name :: string pg_max_effect_class :: string pg_deleted_at :: "time option"

record ToolPinRow = tp_attempt_id :: uuid tp_tool_name :: string tp_digest :: string

record InvocationRow =
  iv_id :: uuid
  iv_caller_scope :: string
  iv_caller_scope_id :: string
  iv_effect_class :: string
  iv_state :: string
  iv_consequence_summary :: raw_json
  iv_created_at :: time

text \<open>Money is in millionths, the scale of the \<^verbatim>\<open>numeric(20,6)\<close> columns.\<close>

record work_db = runtime_db +
  wf :: workflow_db
  run_principals :: "(uuid \<times> principals) list"
  work_items :: "WorkItemRow list"
  attempts :: "Attempt list"
  node_executions :: "NodeExecution list"
  graph_transitions :: "GraphTransition list"
  blockers :: "Blocker list"
  feedback :: "Feedback list"
  artifact_links :: "ArtifactLink list"
  artifacts :: "ArtifactRow list"
  timeline :: "TimelineEvent list"
  value_models :: "ValueModel list"
  value_ledger :: "LedgerRow list"
  run_pools :: "RunPoolRow list"
  catalog :: "CatalogModel list"
  available_tool_versions :: "ToolVersionRow list"
  pool_grants :: "PoolGrantRow list"
  attempt_tool_pins :: "ToolPinRow list"
  invocations :: "InvocationRow list"

datatype work_error =
    WkNotFound | WkConflict string | WkInvalidTransition string | WkInvalidInput string
  | WkConfirmation string | WkWorkflow wf_error | WkSnapshot string | WkConstraint | WkPanic

end
