(* ===== verification/Work_Graph.thy ===== *)
theory Work_Graph
  imports Work_Tables
begin

text \<open>
  The single-active-node graph executor, \<^verbatim>\<open>src/control-plane/internal/work/graph.go\<close>, with
  the helpers of \<^verbatim>\<open>store.go\<close> it calls: preparing the active node, recording a completion
  report, settling a turn and routing along the immutable graph of the attempt.

  Validation of a document against a JSON schema is done by the third-party
  \<^verbatim>\<open>jsonschema\<close> package: the parameter \<open>validates\<close>, given the schema and the document.
\<close>

section \<open>Helpers\<close>

definition findNode :: "CanonicalGraph \<Rightarrow> string \<Rightarrow> CanonicalNode option" where
  "findNode graph key = find (\<lambda>n. n_key n = key) (g_nodes graph)"

text \<open>\<open>Some (target, terminal)\<close>, or None where the code returns \<^verbatim>\<open>ok = false\<close>.\<close>

definition route :: "CanonicalGraph \<Rightarrow> string \<Rightarrow> string \<Rightarrow> (string \<times> bool) option" where
  "route graph node outcome =
     (if exists_row (\<lambda>t. to_node t = node \<and> to_outcome t = outcome) (g_terminal_outcomes graph) then Some ([], True)
      else case find (\<lambda>e. ed_from e = node \<and> ed_outcome e = outcome) (g_edges graph) of
        Some e \<Rightarrow> Some (ed_to e, False)
      | None \<Rightarrow> None)"

definition deref :: "string option \<Rightarrow> string" where
  "deref v = (case v of None \<Rightarrow> [] | Some s \<Rightarrow> s)"

definition jsonOrObject :: "raw_json \<Rightarrow> raw_json" where
  "jsonOrObject raw = (case raw of RawNil \<Rightarrow> RawJson (JObj []) | _ \<Rightarrow> raw)"

definition jsonValue :: "raw_json \<Rightarrow> json" where
  "jsonValue raw = (case raw of RawJson j \<Rightarrow> j | _ \<Rightarrow> JObj [])"

text \<open>A document written to a \<^verbatim>\<open>jsonb\<close> column: the database refuses bytes that are not JSON.\<close>

definition json_column :: "raw_json \<Rightarrow> json option" where
  "json_column raw = (case jsonOrObject raw of RawJson j \<Rightarrow> Some j | _ \<Rightarrow> None)"

definition json_opt_str :: "string option \<Rightarrow> json" where
  "json_opt_str v = (case v of None \<Rightarrow> JNull | Some s \<Rightarrow> JStr s)"

definition json_nat :: "nat \<Rightarrow> json" where
  "json_nat n = JNum (of_nat n)"

definition artifact_ref_json :: "ArtifactRef \<Rightarrow> json" where
  "artifact_ref_json r = JObj
     ([(''artifactId'', JStr (ar_artifact_id r))]
      @ (if ar_role r = [] then [] else [(''role'', JStr (ar_role r))])
      @ (case ar_metadata r of RawJson j \<Rightarrow> [(''metadata'', j)] | _ \<Rightarrow> []))"

definition consequence_json :: "Consequence \<Rightarrow> json" where
  "consequence_json c = JObj [(''invocationId'', JStr (cq_invocation_id c)),
     (''summary'', jsonValue (cq_summary c)), (''state'', JStr (cq_state c))]"

definition validateInstance :: "(raw_json \<Rightarrow> json \<Rightarrow> bool) \<Rightarrow> raw_json \<Rightarrow> raw_json \<Rightarrow> bool" where
  "validateInstance validates raw schema =
     (case jsonOrObject raw of
        RawJson v \<Rightarrow> empty_schema schema \<or> validates schema v
      | _ \<Rightarrow> False)"

definition sortedIDs :: "Consequence list \<Rightarrow> string list" where
  "sortedIDs cs = sort (map cq_invocation_id cs)"

section \<open>Statements\<close>

abbreviation item_exists :: "uuid \<Rightarrow> 'z work_db_scheme \<Rightarrow> bool" where
  "item_exists i db \<equiv> exists_row (\<lambda>r. wi_id r = i) (work_items db)"

abbreviation attempt_exists :: "uuid \<Rightarrow> 'z work_db_scheme \<Rightarrow> bool" where
  "attempt_exists a db \<equiv> exists_row (\<lambda>r. at_id r = a) (attempts db)"

abbreviation node_exists :: "uuid \<Rightarrow> 'z work_db_scheme \<Rightarrow> bool" where
  "node_exists n db \<equiv> exists_row (\<lambda>r. ne_id r = n) (node_executions db)"

definition null_or :: "('a \<Rightarrow> bool) \<Rightarrow> 'a option \<Rightarrow> bool" where
  "null_or P v = (case v of None \<Rightarrow> True | Some x \<Rightarrow> P x)"

definition appendTimelineTx ::
  "tx_env \<Rightarrow> uuid \<Rightarrow> string \<Rightarrow> string \<Rightarrow> string \<Rightarrow> json \<Rightarrow> ArtifactRef list \<Rightarrow> string
   \<Rightarrow> (work_error, 'z work_db_scheme, unit) tx" where
  "appendTimelineTx env itemID attemptID nodeID code params refs actorID db =
     (let e = \<lparr>te_cursor = next_seq (\<lambda>_. True) te_cursor (timeline db),
               te_id = env_uuid env ''timeline_events'' (length (timeline db)),
               te_work_item_id = itemID, te_attempt_id = nullable attemptID,
               te_node_execution_id = nullable nodeID, te_code = code, te_params = params,
               te_artifact_refs = refs, te_actor_identity_id = nullable actorID, te_created_at = env_now env\<rparr>
      in if \<not> exists_row (\<lambda>x. te_id x = te_id e) (timeline db) \<and> item_exists itemID db
            \<and> null_or (\<lambda>a. attempt_exists a db) (te_attempt_id e)
            \<and> null_or (\<lambda>n. node_exists n db) (te_node_execution_id e)
            \<and> null_or (\<lambda>i. i \<in> set (identities db)) (te_actor_identity_id e)
         then Inr ((), db\<lparr>timeline := timeline db @ [e]\<rparr>)
         else Inl WkConstraint)"

definition appendRuntimeEventTx ::
  "tx_env \<Rightarrow> uuid \<Rightarrow> string \<Rightarrow> string \<Rightarrow> EventKind \<Rightarrow> json \<Rightarrow> (work_error, 'z work_db_scheme, unit) tx" where
  "appendRuntimeEventTx env runID turnID nodeID kind payload db =
     (let e = \<lparr>ev_id = env_uuid env ''events'' (length (events db)), ev_run_id = runID, ev_turn_id = nullable turnID,
               ev_step_id = None, ev_node_execution_id = nullable nodeID,
               ev_seq = next_seq (\<lambda>x. ev_run_id x = runID) ev_seq (events db),
               ev_kind = kind, ev_payload = payload, ev_ts = env_now env\<rparr>
      in if insert_event_ok e db \<and> null_or (\<lambda>n. node_exists n db) (ev_node_execution_id e)
         then Inr ((), db\<lparr>events := events db @ [e]\<rparr>)
         else Inl WkConstraint)"

definition set_run :: "tx_env \<Rightarrow> uuid \<Rightarrow> (RunState \<Rightarrow> bool) \<Rightarrow> (Run \<Rightarrow> Run) \<Rightarrow> 'z work_db_scheme \<Rightarrow> 'z work_db_scheme" where
  "set_run env rid P f db = db\<lparr>runs := update_where (\<lambda>r. run_id r = rid \<and> P (run_state r))
      (\<lambda>r. (f r)\<lparr>run_updated_at := env_now env\<rparr>) (runs db)\<rparr>"

definition set_node :: "uuid \<Rightarrow> (NodeState \<Rightarrow> bool) \<Rightarrow> (NodeExecution \<Rightarrow> NodeExecution) \<Rightarrow> 'z work_db_scheme \<Rightarrow> 'z work_db_scheme" where
  "set_node nid P f db = db\<lparr>node_executions := update_where (\<lambda>n. ne_id n = nid \<and> P (ne_state n)) f (node_executions db)\<rparr>"

definition set_attempt :: "uuid \<Rightarrow> (Attempt \<Rightarrow> Attempt) \<Rightarrow> 'z work_db_scheme \<Rightarrow> 'z work_db_scheme" where
  "set_attempt aid f db = db\<lparr>attempts := update_where (\<lambda>a. at_id a = aid) f (attempts db)\<rparr>"

definition set_turn :: "tx_env \<Rightarrow> uuid \<Rightarrow> TurnState \<Rightarrow> 'z work_db_scheme \<Rightarrow> 'z work_db_scheme" where
  "set_turn env tid to db =
     db\<lparr>turns := update_where (\<lambda>t. turn_id t = tid) (settle_turn_row (env_now env) to) (turns db)\<rparr>"

definition active_node_states :: "NodeState list" where
  "active_node_states = [NodePending, NodeRunning, NodeBlocked]"

definition blocker_kinds :: "string list" where
  "blocker_kinds = [''information'', ''decision'', ''approval'', ''artifact'', ''consequence_confirmation'']"

definition insert_blocker :: "Blocker \<Rightarrow> (work_error, 'z work_db_scheme, unit) tx" where
  "insert_blocker b db =
     (if \<not> exists_row (\<lambda>x. bl_id x = bl_id b) (blockers db)
         \<and> item_exists (bl_work_item_id b) db \<and> attempt_exists (bl_attempt_id b) db
         \<and> null_or (\<lambda>n. node_exists n db) (bl_node_execution_id b)
         \<and> bl_kind b \<in> set blocker_kinds
         \<and> \<not> exists_row (\<lambda>x. bl_work_item_id x = bl_work_item_id b \<and> bl_state x = BlockerOpen) (blockers db)
      then Inr ((), db\<lparr>blockers := blockers db @ [b]\<rparr>)
      else Inl WkConstraint)"

definition link_conflict :: "ArtifactLink \<Rightarrow> ArtifactLink \<Rightarrow> bool" where
  "link_conflict l x \<longleftrightarrow> al_artifact_id x = al_artifact_id l \<and> al_work_item_id x = al_work_item_id l
     \<and> al_attempt_id x = al_attempt_id l \<and> al_node_execution_id l \<noteq> None
     \<and> al_node_execution_id x = al_node_execution_id l \<and> al_role x = al_role l"

definition insert_link :: "tx_env \<Rightarrow> string \<Rightarrow> uuid \<Rightarrow> uuid \<Rightarrow> uuid \<Rightarrow> string \<Rightarrow> json \<Rightarrow> (work_error, 'z work_db_scheme, unit) tx" where
  "insert_link env artifactID itemID attemptID nodeID role metadata db =
     (let l = \<lparr>al_id = env_uuid env ''artifact_links'' (length (artifact_links db)), al_artifact_id = artifactID,
               al_work_item_id = itemID, al_attempt_id = attemptID, al_node_execution_id = Some nodeID,
               al_role = role, al_metadata = metadata, al_created_at = env_now env\<rparr>
      in if exists_row (link_conflict l) (artifact_links db) then Inr ((), db)
         else if \<not> exists_row (\<lambda>x. al_id x = al_id l) (artifact_links db)
            \<and> exists_row (\<lambda>a. af_id a = artifactID) (artifacts db)
            \<and> item_exists itemID db \<and> attempt_exists attemptID db \<and> node_exists nodeID db
            \<and> role \<in> {''source'', ''input'', ''output'', ''corrected_result'', ''evidence''}
         then Inr ((), db\<lparr>artifact_links := artifact_links db @ [l]\<rparr>)
         else Inl WkConstraint)"

fun insert_links ::
  "tx_env \<Rightarrow> uuid \<Rightarrow> uuid \<Rightarrow> uuid \<Rightarrow> (string \<times> string \<times> raw_json) list \<Rightarrow> (work_error, 'z work_db_scheme, unit) tx" where
  "insert_links env itemID attemptID nodeID [] db = Inr ((), db)"
| "insert_links env itemID attemptID nodeID ((artifactID, role, metadata) # rest) db =
     (case json_column metadata of
        None \<Rightarrow> Inl WkConstraint
      | Some j \<Rightarrow>
          (case insert_link env artifactID itemID attemptID nodeID role j db of
             Inl e \<Rightarrow> Inl e
           | Inr (_, db') \<Rightarrow> insert_links env itemID attemptID nodeID rest db'))"

section \<open>Consequences of earlier visits\<close>

fun string_values :: "(string \<times> json) list \<Rightarrow> bool" where
  "string_values [] = True"
| "string_values ((_, v) # kvs) = ((case v of JStr _ \<Rightarrow> True | JNull \<Rightarrow> True | _ \<Rightarrow> False) \<and> string_values kvs)"

definition string_member :: "(string \<times> json) list \<Rightarrow> string \<Rightarrow> string" where
  "string_member kvs k = (case map_of kvs k of Some (JStr s) \<Rightarrow> s | _ \<Rightarrow> [])"

definition validateConsequenceSummary :: "raw_json \<Rightarrow> bool" where
  "validateConsequenceSummary raw =
     (case unmarshal_map raw of
        None \<Rightarrow> False
      | Some kvs \<Rightarrow> string_values kvs \<and> string_member kvs ''en'' \<noteq> [] \<and> string_member kvs ''pt'' \<noteq> [])"

fun scan_consequences :: "InvocationRow list \<Rightarrow> work_error + Consequence list" where
  "scan_consequences [] = Inr []"
| "scan_consequences (i # is) =
     (if \<not> validateConsequenceSummary (iv_consequence_summary i) then Inl (WkSnapshot ''consequence summary'')
      else case scan_consequences is of
        Inl e \<Rightarrow> Inl e
      | Inr cs \<Rightarrow> Inr (\<lparr>cq_invocation_id = iv_id i, cq_summary = iv_consequence_summary i, cq_state = iv_state i\<rparr> # cs))"

definition consequential :: "InvocationRow \<Rightarrow> bool" where
  "consequential i \<longleftrightarrow> iv_effect_class i \<in> {''idempotent_write'', ''non_idempotent_write''}
     \<and> iv_state i \<in> {''succeeded'', ''outcome_unknown''}"

text \<open>The node execution whose turn made the invocation.\<close>

definition invoked_by :: "(NodeExecution \<Rightarrow> bool) \<Rightarrow> 'z work_db_scheme \<Rightarrow> InvocationRow \<Rightarrow> bool" where
  "invoked_by P db i \<longleftrightarrow> iv_caller_scope i = ''turn''
     \<and> exists_row (\<lambda>t. turn_id t = iv_caller_scope_id i
         \<and> exists_row (\<lambda>n. turn_node_execution_id t = Some (ne_id n) \<and> P n) (node_executions db)) (turns db)"

definition consequencesForNodeTx :: "uuid \<Rightarrow> string \<Rightarrow> uuid \<Rightarrow> 'z work_db_scheme \<Rightarrow> work_error + Consequence list" where
  "consequencesForNodeTx attemptID nodeKey excludeNodeID db =
     scan_consequences (order_by (\<lambda>i. (iv_created_at i, iv_id i))
       (filter (\<lambda>i. consequential i
          \<and> invoked_by (\<lambda>n. ne_attempt_id n = attemptID \<and> ne_node_key n = nodeKey \<and> ne_id n \<noteq> excludeNodeID) db i)
        (invocations db)))"

definition consequencesConfirmedTx :: "uuid \<Rightarrow> Consequence list \<Rightarrow> 'z work_db_scheme \<Rightarrow> bool" where
  "consequencesConfirmedTx nodeID current db =
     (case limit1 (order_by_desc_nulls_first bl_resolved_at
             (filter (\<lambda>b. bl_node_execution_id b = Some nodeID \<and> bl_kind b = ''consequence_confirmation''
                        \<and> bl_state b = BlockerResolved) (blockers db))) of
        None \<Rightarrow> False
      | Some b \<Rightarrow> sortedIDs (bl_required_consequences b) = sortedIDs current)"

definition createHumanBlockerTx ::
  "tx_env \<Rightarrow> uuid \<Rightarrow> uuid \<Rightarrow> uuid \<Rightarrow> CanonicalNode \<Rightarrow> (work_error, 'z work_db_scheme, unit) tx" where
  "createHumanBlockerTx env itemID attemptID nodeID node db =
     (case n_human_gate node of
        None \<Rightarrow> Inl WkPanic
      | Some gate \<Rightarrow>
          if json_column (hg_response_schema gate) = None then Inl WkConstraint
          else insert_blocker
            \<lparr>bl_id = env_uuid env ''blockers'' (length (blockers db)), bl_work_item_id = itemID, bl_attempt_id = attemptID,
             bl_node_execution_id = Some nodeID, bl_kind = hg_type gate, bl_title = hg_title gate,
             bl_description = hg_description gate, bl_response_schema = jsonOrObject (hg_response_schema gate),
             bl_allowed_outcomes = n_outcomes node, bl_response_presentation = hg_presentation gate,
             bl_required_consequences = [], bl_state = BlockerOpen, bl_response_outcome = None, bl_response = None,
             bl_responded_by = None, bl_created_at = env_now env, bl_resolved_at = None\<rparr> db)"

text \<open>The UTF-8 bytes of the Portuguese word for actions.\<close>

definition acoes :: string where
  "acoes = ''a'' @ [CHR 0xC3, CHR 0xA7, CHR 0xC3, CHR 0xB5] @ ''es''"

definition createConsequenceBlockerTx ::
  "tx_env \<Rightarrow> uuid \<Rightarrow> uuid \<Rightarrow> uuid \<Rightarrow> Consequence list \<Rightarrow> (work_error, 'z work_db_scheme, unit) tx" where
  "createConsequenceBlockerTx env itemID attemptID nodeID consequences db =
     insert_blocker
       \<lparr>bl_id = env_uuid env ''blockers'' (length (blockers db)), bl_work_item_id = itemID, bl_attempt_id = attemptID,
        bl_node_execution_id = Some nodeID, bl_kind = ''consequence_confirmation'',
        bl_title = \<lparr>lt_en = ''Confirm repeated external actions'', lt_pt = ''Confirmar '' @ acoes @ '' externas repetidas''\<rparr>,
        bl_description = \<lparr>lt_en = ''This step may repeat external actions from an earlier visit.'',
                          lt_pt = ''Este passo pode repetir '' @ acoes @ '' externas de uma visita anterior.''\<rparr>,
        bl_response_schema = RawJson (JObj []), bl_allowed_outcomes = [''confirmed''],
        bl_response_presentation = \<lparr>hp_outcomes = [\<lparr>lt_en = ''Confirm'', lt_pt = ''Confirmar''\<rparr>], hp_fields = []\<rparr>,
        bl_required_consequences = consequences, bl_state = BlockerOpen, bl_response_outcome = None, bl_response = None,
        bl_responded_by = None, bl_created_at = env_now env, bl_resolved_at = None\<rparr> db"

section \<open>Preparing the active node\<close>

definition IsGraphAttempt :: "uuid \<Rightarrow> 'z work_db_scheme \<Rightarrow> bool" where
  "IsGraphAttempt runID db = attempt_exists runID db"

definition ActiveNode :: "uuid \<Rightarrow> 'z work_db_scheme \<Rightarrow> work_error + NodeExecution" where
  "ActiveNode attemptID db =
     (case find (\<lambda>n. ne_attempt_id n = attemptID \<and> ne_state n \<in> set active_node_states) (node_executions db) of
        None \<Rightarrow> Inl WkNotFound
      | Some n \<Rightarrow> Inr n)"

definition awaiting :: "Run \<Rightarrow> Run" where
  "awaiting r = r\<lparr>run_state := RunAwaitingApproval\<rparr>"

definition started :: "tx_env \<Rightarrow> RunState \<Rightarrow> Run \<Rightarrow> Run" where
  "started env to r = r\<lparr>run_state := to, run_started_at := coalesce (run_started_at r) (Some (env_now env))\<rparr>"

definition node_started :: "tx_env \<Rightarrow> NodeState \<Rightarrow> NodeExecution \<Rightarrow> NodeExecution" where
  "node_started env to n = n\<lparr>ne_state := to, ne_started_at := coalesce (ne_started_at n) (Some (env_now env))\<rparr>"

text \<open>Re-entering an agent node whose earlier visits made external writes: either the writes
  are none or confirmed (the result is None and preparation goes on), or the node is blocked
  until they are confirmed.\<close>

definition block_on_consequences ::
  "tx_env \<Rightarrow> uuid \<Rightarrow> uuid \<Rightarrow> NodeExecution \<Rightarrow> (work_error, 'z work_db_scheme, NodeExecution option) tx" where
  "block_on_consequences env itemID attemptID node db =
     (case consequencesForNodeTx attemptID (ne_node_key node) (ne_id node) db of
        Inl e \<Rightarrow> Inl e
      | Inr cs \<Rightarrow>
          if cs = [] \<or> consequencesConfirmedTx (ne_id node) cs db then Inr (None, db)
          else (case createConsequenceBlockerTx env itemID attemptID (ne_id node) cs db of
              Inl e \<Rightarrow> Inl e
            | Inr (_, db1) \<Rightarrow>
                let db2 = set_node (ne_id node) (\<lambda>_. True) (\<lambda>n. n\<lparr>ne_state := NodeBlocked\<rparr>) db1;
                    db3 = set_run env attemptID (\<lambda>s. s \<in> {RunPending, RunRunning}) awaiting db2
                in (case appendTimelineTx env itemID attemptID (ne_id node) ''consequence_confirmation_required''
                           (JObj [(''consequences'', JArr (map consequence_json cs)), (''nodeKey'', JStr (ne_node_key node))]) [] [] db3 of
                      Inl e \<Rightarrow> Inl e
                    | Inr (_, db4) \<Rightarrow> Inr (Some (node\<lparr>ne_state := NodeBlocked\<rparr>), db4))))"

definition prepare_human_gate ::
  "tx_env \<Rightarrow> uuid \<Rightarrow> uuid \<Rightarrow> CanonicalNode \<Rightarrow> NodeExecution \<Rightarrow> (work_error, 'z work_db_scheme, NodeExecution) tx" where
  "prepare_human_gate env itemID attemptID def node db =
     (if ne_state node \<noteq> NodePending then Inr (node, db)
      else (case createHumanBlockerTx env itemID attemptID (ne_id node) def db of
          Inl e \<Rightarrow> Inl e
        | Inr (_, db1) \<Rightarrow>
            let db2 = set_node (ne_id node) (\<lambda>_. True) (node_started env NodeBlocked) db1;
                db3 = set_run env attemptID (\<lambda>s. s \<in> {RunPending, RunRunning}) (started env RunAwaitingApproval) db2
            in (case appendTimelineTx env itemID attemptID (ne_id node) ''work_blocked''
                       (JObj [(''nodeKey'', JStr (ne_node_key node)),
                              (''type'', JStr (case n_human_gate def of None \<Rightarrow> [] | Some g \<Rightarrow> hg_type g))]) [] [] db3 of
                  Inl e \<Rightarrow> Inl e
                | Inr (_, db4) \<Rightarrow> Inr (node\<lparr>ne_state := NodeBlocked\<rparr>, db4))))"

definition start_agent_turn ::
  "tx_env \<Rightarrow> uuid \<Rightarrow> uuid \<Rightarrow> NodeExecution \<Rightarrow> (work_error, 'z work_db_scheme, NodeExecution \<times> Turn) tx" where
  "start_agent_turn env itemID attemptID node db =
     (case (ne_model node, find_run attemptID db) of
        (None, _) \<Rightarrow> Inl (WkSnapshot ''no valid model snapshot'')
      | (Some m, None) \<Rightarrow> Inl (if ms_id m = [] then WkSnapshot ''no valid model snapshot'' else WkSnapshot ''no rows'')
      | (Some m, Some r) \<Rightarrow>
          if ms_id m = [] then Inl (WkSnapshot ''no valid model snapshot'')
          else
            let t = \<lparr>turn_id = env_uuid env ''turns'' (length (turns db)), turn_run_id = attemptID, turn_step_id = None,
                     turn_node_execution_id = Some (ne_id node), turn_session_id = run_session_id r,
                     turn_model = Some (ms_id m), turn_state = TurnRunning,
                     turn_started_at = Some (env_now env), turn_settled_at = None,
                     turn_created_at = env_now env, turn_updated_at = env_now env\<rparr>
            in if \<not> (insert_turn_ok t db \<and> node_exists (ne_id node) db) then Inl WkConstraint
               else
                 let db1 = db\<lparr>turns := turns db @ [t]\<rparr>;
                     db2 = set_node (ne_id node) (\<lambda>s. s = NodePending) (node_started env NodeRunning) db1;
                     db3 = set_run env attemptID (\<lambda>s. s \<in> {RunPending, RunAwaitingApproval}) (started env RunRunning) db2
                 in tx_bind (appendRuntimeEventTx env attemptID (turn_id t) (ne_id node) EvTurnStarted (JObj [(''model'', JStr (ms_id m))]))
                      (\<lambda>_. tx_bind (appendTimelineTx env itemID attemptID (ne_id node) ''node_started''
                                     (JObj [(''nodeKey'', JStr (ne_node_key node)), (''visit'', json_nat (ne_visit node))]) [] [])
                        (\<lambda>_. tx_return (node\<lparr>ne_state := NodeRunning, ne_started_at := Some (env_clock env)\<rparr>, t))) db3)"

text \<open>The result is the node, its turn where it has one, and whether a worker is needed.\<close>

definition prepare_node_tx ::
  "tx_env \<Rightarrow> uuid \<Rightarrow> (work_error, 'z work_db_scheme, NodeExecution \<times> Turn option \<times> bool) tx" where
  "prepare_node_tx env attemptID db =
     (case ActiveNode attemptID db of
        Inl e \<Rightarrow> Inl e
      | Inr node \<Rightarrow>
          if ne_state node = NodeBlocked then Inr ((node, None, False), db)
          else (case (find (\<lambda>a. at_id a = attemptID) (attempts db), find_run attemptID db) of
              (Some a, Some r) \<Rightarrow>
                if run_state r \<notin> {RunPending, RunRunning} then Inl (WkInvalidTransition ''attempt state'')
                else (case findNode (at_graph a) (ne_node_key node) of
                    None \<Rightarrow> Inl (WkSnapshot ''graph node missing from snapshot'')
                  | Some def \<Rightarrow>
                      (case (if ne_state node = NodePending \<and> 1 < ne_visit node \<and> n_kind def = NodeAgentTask
                             then block_on_consequences env (at_work_item_id a) attemptID node db
                             else Inr (None, db)) of
                         Inl e \<Rightarrow> Inl e
                       | Inr (Some blocked, db1) \<Rightarrow> Inr ((blocked, None, False), db1)
                       | Inr (None, db1) \<Rightarrow>
                           if n_kind def = NodeHumanGate
                           then map_sum id (\<lambda>(n, db2). ((n, None, False), db2))
                                  (prepare_human_gate env (at_work_item_id a) attemptID def node db1)
                           else if ne_state node = NodeRunning
                           then (case find (\<lambda>t. turn_node_execution_id t = Some (ne_id node)) (turns db1) of
                                   None \<Rightarrow> Inl (WkSnapshot ''no rows'')
                                 | Some t \<Rightarrow> Inr ((node, Some t, True), db1))
                           else map_sum id (\<lambda>((n, t), db2). ((n, Some t, True), db2))
                                  (start_agent_turn env (at_work_item_id a) attemptID node db1)))
            | _ \<Rightarrow> Inl (WkSnapshot ''no rows'')))"

definition PrepareNode ::
  "bool \<Rightarrow> tx_env \<Rightarrow> uuid \<Rightarrow> 'z work_db_scheme
   \<Rightarrow> (work_error failure + NodeExecution \<times> Turn option \<times> bool) \<times> 'z work_db_scheme" where
  "PrepareNode fault env attemptID = run_tx fault (prepare_node_tx env attemptID)"

section \<open>Completion reports\<close>

record CompletionReport =
  cr_outcome :: string
  cr_summary :: string
  cr_output :: raw_json
  cr_artifact_refs :: "ArtifactRef list"

text \<open>An artifact a node may report: available, produced by execution, linked to this visit.\<close>

definition published_by :: "string \<Rightarrow> uuid \<Rightarrow> uuid \<Rightarrow> 'z work_db_scheme \<Rightarrow> bool" where
  "published_by artifactID attemptID nodeID db \<longleftrightarrow>
     exists_row (\<lambda>a. af_id a = artifactID \<and> af_state a = ''available''
        \<and> af_source_type a \<in> {''sandbox_publish'', ''tool_output'', ''workflow''}) (artifacts db)
     \<and> exists_row (\<lambda>l. al_artifact_id l = artifactID \<and> al_attempt_id l = attemptID \<and> al_node_execution_id l = Some nodeID)
          (artifact_links db)"

fun check_report_refs ::
  "uuid \<Rightarrow> uuid \<Rightarrow> 'z work_db_scheme \<Rightarrow> ArtifactRef list \<Rightarrow> work_error + ArtifactRef list" where
  "check_report_refs attemptID nodeID db [] = Inr []"
| "check_report_refs attemptID nodeID db (r # rs) =
     (let role = (if ar_role r = [] then ''output'' else ar_role r) in
      if ar_artifact_id r = [] then Inl (WkInvalidInput ''artifactId is required'')
      else if role \<notin> {''output'', ''evidence''} then Inl (WkInvalidInput ''artifact role is not allowed for complete_step'')
      else if ar_metadata r = RawBad then Inl (WkInvalidInput ''artifact metadata must be valid JSON'')
      else if \<not> published_by (ar_artifact_id r) attemptID nodeID db
        then Inl (WkInvalidInput ''artifact is not an output published by this node'')
      else (case check_report_refs attemptID nodeID db rs of
              Inl e \<Rightarrow> Inl e
            | Inr refs \<Rightarrow> Inr (r\<lparr>ar_role := role\<rparr> # refs)))"

definition report_row :: "tx_env \<Rightarrow> CompletionReport \<Rightarrow> json \<Rightarrow> ArtifactRef list \<Rightarrow> NodeExecution \<Rightarrow> NodeExecution" where
  "report_row env report output refs n =
     n\<lparr>ne_outcome := Some (cr_outcome report), ne_summary := Some (cr_summary report), ne_output := Some output,
       ne_artifact_refs := refs, ne_reported_at := Some (env_now env)\<rparr>"

definition record_report_tx ::
  "(raw_json \<Rightarrow> json \<Rightarrow> bool) \<Rightarrow> tx_env \<Rightarrow> uuid \<Rightarrow> CompletionReport \<Rightarrow> (work_error, 'z work_db_scheme, unit) tx" where
  "record_report_tx validates env turnID report db =
     (case find_turn turnID db of
        None \<Rightarrow> Inl WkNotFound
      | Some t \<Rightarrow>
          (case find (\<lambda>n. turn_node_execution_id t = Some (ne_id n)) (node_executions db) of
             None \<Rightarrow> Inl WkNotFound
           | Some n \<Rightarrow>
               (case find (\<lambda>a. at_id a = ne_attempt_id n) (attempts db) of
                  None \<Rightarrow> Inl WkNotFound
                | Some a \<Rightarrow>
                    if ne_state n \<noteq> NodeRunning then Inl (WkInvalidTransition ''node state'')
                    else (case findNode (at_graph a) (ne_node_key n) of
                        None \<Rightarrow> Inl (WkInvalidTransition ''completion report is not for an agent node'')
                      | Some def \<Rightarrow>
                          if n_kind def \<noteq> NodeAgentTask then Inl (WkInvalidTransition ''completion report is not for an agent node'')
                          else if cr_outcome report \<notin> set (n_outcomes def) then Inl (WkInvalidInput ''outcome is not declared by node'')
                          else if \<not> validateInstance validates (cr_output report) (n_output_schema def) then Inl (WkInvalidInput ''output'')
                          else (case check_report_refs (ne_attempt_id n) (ne_id n) db (cr_artifact_refs report) of
                              Inl e \<Rightarrow> Inl e
                            | Inr refs \<Rightarrow>
                                if ne_reported_at n \<noteq> None then Inl (WkConflict ''complete_step already reported'')
                                else insert_links env (at_work_item_id a) (ne_attempt_id n) (ne_id n)
                                       (map (\<lambda>r. (ar_artifact_id r, ar_role r, ar_metadata r)) refs)
                                       (set_node (ne_id n) (\<lambda>s. s = NodeRunning)
                                          (report_row env report (jsonValue (cr_output report)) refs) db))))))"

definition RecordCompletionReport ::
  "(raw_json \<Rightarrow> json \<Rightarrow> bool) \<Rightarrow> bool \<Rightarrow> tx_env \<Rightarrow> uuid \<Rightarrow> CompletionReport \<Rightarrow> 'z work_db_scheme
   \<Rightarrow> (work_error failure + unit) \<times> 'z work_db_scheme" where
  "RecordCompletionReport validates fault env turnID report db =
     (if cr_outcome report = [] \<or> cr_summary report = [] then (Inl (Fail (WkInvalidInput ''outcome and summary are required'')), db)
      else run_tx fault (record_report_tx validates env turnID report) db)"

section \<open>Node executions\<close>

definition zero_model :: modelSnapshot where
  "zero_model = \<lparr>ms_key = [], ms_id = [], ms_api = [], ms_context_window = 0, ms_max_output_tokens = 0,
     ms_thinking_level = [], ms_default_params = JNull, ms_reasoning_config = JNull\<rparr>"

definition select_named :: "('a \<Rightarrow> string) \<Rightarrow> 'a list \<Rightarrow> string list \<Rightarrow> 'a list" where
  "select_named name xs wanted = List.map_filter (\<lambda>w. find (\<lambda>x. name x = w) xs) wanted"

text \<open>\<^verbatim>\<open>d.Milliseconds()\<close> of the parsed timeout, NULL where there is none; None where the
  code refuses it.\<close>

definition node_timeout_ms :: "CanonicalNode \<Rightarrow> int option option" where
  "node_timeout_ms node =
     (if n_timeout node = [] then Some None
      else case ParseDuration (n_timeout node) of
        None \<Rightarrow> None
      | Some d \<Rightarrow> if d \<le> 0 then None else Some (Some (d div 1000000)))"

definition new_execution ::
  "tx_env \<Rightarrow> uuid \<Rightarrow> uuid \<Rightarrow> CanonicalNode \<Rightarrow> nat \<Rightarrow> nat \<Rightarrow> json \<Rightarrow> (string \<times> modelSnapshot) list \<Rightarrow> CanonicalSpec
   \<Rightarrow> int option \<Rightarrow> NodeExecution" where
  "new_execution env nid attemptID node vno seq ctx models spec timeout =
     \<lparr>ne_id = nid, ne_attempt_id = attemptID, ne_node_key = n_key node, ne_label = n_label node,
      ne_result_presentation = n_result_presentation node, ne_visit = vno, ne_seq = seq, ne_kind = n_kind node,
      ne_prompt = nullable (n_prompt node), ne_context = ctx,
      ne_model = (if n_kind node = NodeAgentTask
                  then Some (case map_of models (if n_model_ref node = [] then sp_default_model_ref spec else n_model_ref node) of
                               None \<Rightarrow> zero_model | Some m \<Rightarrow> m)
                  else None),
      ne_skills = select_named sk_name (sp_skills spec) (n_skills node),
      ne_capabilities = select_named cap_tool (sp_requested_capabilities spec) (n_capabilities node),
      ne_workspace_tools = n_workspace_tools node, ne_timeout_ms = timeout, ne_state = NodePending,
      ne_outcome = None, ne_summary = None, ne_output = None, ne_artifact_refs = [], ne_reported_at = None,
      ne_started_at = None, ne_finished_at = None, ne_created_at = env_now env\<rparr>"

definition insert_node_ok :: "NodeExecution \<Rightarrow> 'z work_db_scheme \<Rightarrow> bool" where
  "insert_node_ok n db \<longleftrightarrow>
     \<not> node_exists (ne_id n) db \<and> attempt_exists (ne_attempt_id n) db
     \<and> 0 < ne_visit n \<and> 0 < ne_seq n \<and> ne_kind n \<in> {NodeAgentTask, NodeHumanGate}
     \<and> null_or (\<lambda>ms. 0 < ms) (ne_timeout_ms n)
     \<and> \<not> exists_row (\<lambda>x. ne_attempt_id x = ne_attempt_id n \<and> ne_node_key x = ne_node_key n \<and> ne_visit x = ne_visit n) (node_executions db)
     \<and> \<not> exists_row (\<lambda>x. ne_attempt_id x = ne_attempt_id n \<and> ne_seq x = ne_seq n) (node_executions db)
     \<and> \<not> exists_row (\<lambda>x. ne_attempt_id x = ne_attempt_id n \<and> ne_state x \<in> set active_node_states) (node_executions db)"

definition insertNodeExecutionTx ::
  "tx_env \<Rightarrow> uuid \<Rightarrow> CanonicalNode \<Rightarrow> nat \<Rightarrow> nat \<Rightarrow> json \<Rightarrow> (string \<times> modelSnapshot) list \<Rightarrow> CanonicalSpec
   \<Rightarrow> (work_error, 'z work_db_scheme, uuid) tx" where
  "insertNodeExecutionTx env attemptID node vno seq ctx models spec db =
     (case node_timeout_ms node of
        None \<Rightarrow> Inl (WkInvalidInput ''invalid node timeout'')
      | Some timeout \<Rightarrow>
          let nid = env_uuid env ''node_executions'' (length (node_executions db));
              n = new_execution env nid attemptID node vno seq ctx models spec timeout
          in if insert_node_ok n db then Inr (nid, db\<lparr>node_executions := node_executions db @ [n]\<rparr>)
             else Inl WkConstraint)"

section \<open>The context a node receives\<close>

fun remdups_key :: "('a \<Rightarrow> 'k) \<Rightarrow> 'k list \<Rightarrow> 'a list \<Rightarrow> 'a list" where
  "remdups_key k seen [] = []"
| "remdups_key k seen (x # xs) = (if k x \<in> set seen then remdups_key k seen xs else x # remdups_key k (k x # seen) xs)"

definition artifact_link_ref :: "ArtifactLink \<Rightarrow> ArtifactRef" where
  "artifact_link_ref l = \<lparr>ar_artifact_id = al_artifact_id l, ar_role = ''source'', ar_metadata = RawJson (al_metadata l)\<rparr>"

text \<open>\<^verbatim>\<open>SELECT DISTINCT artifact_id, metadata ... ORDER BY artifact_id\<close>.\<close>

definition sourceArtifactsTx :: "uuid \<Rightarrow> 'z work_db_scheme \<Rightarrow> ArtifactRef list" where
  "sourceArtifactsTx itemID db =
     map artifact_link_ref (remdups_key (\<lambda>l. (al_artifact_id l, al_metadata l)) []
       (order_by al_artifact_id (filter (\<lambda>l. al_work_item_id l = itemID \<and> al_role l = ''source'') (artifact_links db))))"

definition latest_json :: "NodeExecution \<Rightarrow> json" where
  "latest_json n = JObj [(''artifactRefs'', JArr (map artifact_ref_json (ne_artifact_refs n))), (''executionId'', JStr (ne_id n)),
     (''outcome'', json_opt_str (ne_outcome n)),
     (''output'', case ne_output n of None \<Rightarrow> JObj [] | Some j \<Rightarrow> j),
     (''summary'', json_opt_str (ne_summary n)), (''visit'', json_nat (ne_visit n))]"

text \<open>\<^verbatim>\<open>SELECT DISTINCT ON (node_key) ... ORDER BY node_key, visit DESC\<close>.\<close>

definition latest_by_node :: "uuid \<Rightarrow> 'z work_db_scheme \<Rightarrow> (string \<times> json) list" where
  "latest_by_node attemptID db =
     map (\<lambda>n. (ne_node_key n, latest_json n))
       (remdups_key ne_node_key []
         (order_by (\<lambda>n. (ne_node_key n, - int (ne_visit n)))
           (filter (\<lambda>n. ne_attempt_id n = attemptID \<and> ne_state n = NodeSucceeded) (node_executions db))))"

definition previous_json :: "NodeExecution \<Rightarrow> json" where
  "previous_json n = JObj [(''artifactRefs'', JArr (map artifact_ref_json (ne_artifact_refs n))), (''executionId'', JStr (ne_id n)),
     (''nodeKey'', JStr (ne_node_key n)), (''outcome'', json_opt_str (ne_outcome n)),
     (''output'', case ne_output n of None \<Rightarrow> JObj [] | Some j \<Rightarrow> j),
     (''summary'', json_opt_str (ne_summary n)), (''visit'', json_nat (ne_visit n))]"

definition guidance_member :: "string option \<Rightarrow> (string \<times> json) list" where
  "guidance_member g = (case g of None \<Rightarrow> [] | Some s \<Rightarrow> [(''revisionGuidance'', JStr s)])"

definition buildContextTx :: "uuid \<Rightarrow> NodeExecution \<Rightarrow> 'z work_db_scheme \<Rightarrow> work_error + json" where
  "buildContextTx attemptID previous db =
     (case find (\<lambda>a. at_id a = attemptID) (attempts db) of
        None \<Rightarrow> Inl (WkSnapshot ''no rows'')
      | Some a \<Rightarrow>
          (case find (\<lambda>i. wi_id i = at_work_item_id a) (work_items db) of
             None \<Rightarrow> Inl (WkSnapshot ''no rows'')
           | Some i \<Rightarrow> Inr (JObj
               ([(''executionHistoryRef'', JObj [(''attemptId'', JStr attemptID), (''throughExecutionSeq'', json_nat (ne_seq previous))]),
                 (''latestByNode'', JObj (latest_by_node attemptID db)),
                 (''previous'', previous_json previous)]
                @ guidance_member (at_guidance a)
                @ [(''source'', wi_source i),
                   (''sourceArtifacts'', JArr (map artifact_ref_json (sourceArtifactsTx (wi_id i) db)))]))))"

section \<open>Credit for completed work\<close>

definition is_currency :: "string \<Rightarrow> bool" where
  "is_currency c \<longleftrightarrow> length c = 3 \<and> list_all (\<lambda>x. 65 \<le> (of_char x :: int) \<and> (of_char x :: int) \<le> 90) c"

definition ledger_row_ok :: "LedgerRow \<Rightarrow> 'z work_db_scheme \<Rightarrow> bool" where
  "ledger_row_ok r db \<longleftrightarrow>
     item_exists (vl_work_item_id r) db \<and> attempt_exists (vl_attempt_id r) db
     \<and> null_or (\<lambda>f. exists_row (\<lambda>x. fb_id x = f) (feedback db)) (vl_feedback_id r)
     \<and> exists_row (\<lambda>m. vm_id m = vl_value_model_id r) (value_models db)
     \<and> is_currency (vl_currency r) \<and> \<bar>vl_amount r\<bar> < 100000000000000000000
     \<and> (case vl_kind r of
          CompletionCredit \<Rightarrow> 0 < vl_amount r \<and> vl_feedback_id r = None
        | FeedbackDeduction \<Rightarrow> vl_amount r < 0 \<and> vl_feedback_id r \<noteq> None)"

text \<open>\<^verbatim>\<open>INSERT ... ON CONFLICT DO NOTHING\<close> into the ledger, and whether a row went in.\<close>

definition insert_ledger :: "LedgerRow \<Rightarrow> (work_error, 'z work_db_scheme, bool) tx" where
  "insert_ledger r db =
     (if \<not> ledger_row_ok r db then Inl WkConstraint
      else if exists_row (\<lambda>x. vl_id x = vl_id r) (value_ledger db)
           \<or> exists_row (\<lambda>x. vl_work_item_id x = vl_work_item_id r \<and> vl_kind x = vl_kind r) (value_ledger db)
      then Inr (False, db)
      else Inr (True, db\<lparr>value_ledger := value_ledger db @ [r]\<rparr>))"

definition creditValueTx :: "tx_env \<Rightarrow> uuid \<Rightarrow> uuid \<Rightarrow> (work_error, 'z work_db_scheme, unit) tx" where
  "creditValueTx env itemID attemptID db =
     (case find (\<lambda>a. at_id a = attemptID) (attempts db) of
        None \<Rightarrow> Inl (WkSnapshot ''no rows'')
      | Some a \<Rightarrow>
          if at_number a \<noteq> 1 then Inr ((), db)
          else (case (at_value_model_id a, at_value_snapshot a) of
              (Some modelID, Some v) \<Rightarrow>
                tx_bind (insert_ledger
                  \<lparr>vl_cursor = next_seq (\<lambda>_. True) vl_cursor (value_ledger db),
                   vl_id = env_uuid env ''value_ledger'' (length (value_ledger db)), vl_work_item_id = itemID,
                   vl_attempt_id = attemptID, vl_feedback_id = None, vl_value_model_id = modelID,
                   vl_kind = CompletionCredit, vl_amount = env_credit env (vs_baseline_seconds v) (vs_loaded_hourly_cost v),
                   vl_currency = vs_currency v, vl_formula = Some v, vl_created_at = env_now env\<rparr>)
                  (\<lambda>inserted. if inserted
                     then appendTimelineTx env itemID attemptID [] ''value_credited''
                            (JObj [(''currency'', JStr (vs_currency v)), (''estimated'', JBool True)]) [] []
                     else tx_return ()) db
            | _ \<Rightarrow> Inr ((), db)))"

section \<open>Routing\<close>

definition finish_run :: "tx_env \<Rightarrow> RunState \<Rightarrow> Run \<Rightarrow> Run" where
  "finish_run env to r = r\<lparr>run_state := to, run_finished_at := Some (env_now env)\<rparr>"

definition insert_transition :: "GraphTransition \<Rightarrow> (work_error, 'z work_db_scheme, unit) tx" where
  "insert_transition t db =
     (if exists_row (\<lambda>x. gt_from x = gt_from t) (graph_transitions db) then Inl WkConstraint
      else Inr ((), db\<lparr>graph_transitions := graph_transitions db @ [t]\<rparr>))"

definition transition_count :: "uuid \<Rightarrow> 'z work_db_scheme \<Rightarrow> nat" where
  "transition_count attemptID db = rows_affected (\<lambda>t. gt_attempt_id t = attemptID \<and> \<not> gt_terminal t) (graph_transitions db)"

text \<open>The links handed to the next node: the inputs of the current one, and the artifacts its
  completion selected; one row per artifact, the oldest link of it.\<close>

definition handed_links :: "uuid \<Rightarrow> uuid \<Rightarrow> 'z work_db_scheme \<Rightarrow> ArtifactLink list" where
  "handed_links attemptID nodeID db =
     (case find (\<lambda>n. ne_id n = nodeID) (node_executions db) of
        None \<Rightarrow> []
      | Some ne \<Rightarrow>
          remdups_key (\<lambda>l. (al_artifact_id l, al_work_item_id l, al_attempt_id l)) []
            (order_by (\<lambda>l. (al_artifact_id l, al_work_item_id l, al_attempt_id l, al_created_at l))
              (filter (\<lambda>l. al_attempt_id l = attemptID \<and> al_node_execution_id l = Some nodeID
                 \<and> (al_role l \<in> {''source'', ''input''} \<or> al_artifact_id l \<in> ar_artifact_id ` set (ne_artifact_refs ne)))
               (artifact_links db))))"

fun hand_over :: "tx_env \<Rightarrow> uuid \<Rightarrow> ArtifactLink list \<Rightarrow> (work_error, 'z work_db_scheme, unit) tx" where
  "hand_over env nextID [] db = Inr ((), db)"
| "hand_over env nextID (l # ls) db =
     (case insert_link env (al_artifact_id l) (al_work_item_id l) (al_attempt_id l) nextID ''input'' (al_metadata l) db of
        Inl e \<Rightarrow> Inl e
      | Inr (_, db') \<Rightarrow> hand_over env nextID ls db')"

record graphAdvanceInput =
  ga_item :: uuid
  ga_attempt :: uuid
  ga_node :: NodeExecution
  ga_actor :: string

definition advance_terminal ::
  "tx_env \<Rightarrow> graphAdvanceInput \<Rightarrow> Attempt \<Rightarrow> string \<Rightarrow> (work_error, 'z work_db_scheme, RunState) tx" where
  "advance_terminal env inp a outcome db =
     (let db1 = set_run env (ga_attempt inp) (\<lambda>_. True) (finish_run env RunSucceeded) db;
          db2 = set_attempt (ga_attempt inp) (\<lambda>x. x\<lparr>at_finished_at := Some (env_now env)\<rparr>) db1
      in tx_bind (insert_transition \<lparr>gt_attempt_id = ga_attempt inp, gt_from = ne_id (ga_node inp), gt_outcome = outcome,
                     gt_to = None, gt_terminal = True, gt_created_at = env_now env\<rparr>)
           (\<lambda>_. tx_bind (creditValueTx env (ga_item inp) (ga_attempt inp))
             (\<lambda>_. tx_bind (appendTimelineTx env (ga_item inp) (ga_attempt inp) (ne_id (ga_node inp)) ''work_completed''
                    (JObj [(''definitionKey'', JStr (at_definition_key a)), (''definitionVersion'', JStr (at_definition_version a))]) []
                    (ga_actor inp))
               (\<lambda>_. tx_return RunSucceeded))) db2)"

definition transition_limit_failure :: json where
  "transition_limit_failure = JObj [(''code'', JStr ''transition_limit''),
     (''message'', JStr ''The workflow could not complete within its configured transition limit.'')]"

definition advance_limit :: "tx_env \<Rightarrow> graphAdvanceInput \<Rightarrow> (work_error, 'z work_db_scheme, RunState) tx" where
  "advance_limit env inp db =
     (let db1 = set_run env (ga_attempt inp) (\<lambda>_. True) (finish_run env RunFailed) db;
          db2 = set_attempt (ga_attempt inp) (\<lambda>x. x\<lparr>at_finished_at := Some (env_now env),
                   at_customer_failure := Some transition_limit_failure\<rparr>) db1
      in tx_bind (appendTimelineTx env (ga_item inp) (ga_attempt inp) (ne_id (ga_node inp)) ''work_failed''
                   (JObj [(''reason'', JStr ''transition_limit'')]) [] (ga_actor inp))
           (\<lambda>_. tx_return RunFailed) db2)"

definition advance_edge ::
  "tx_env \<Rightarrow> graphAdvanceInput \<Rightarrow> Attempt \<Rightarrow> CanonicalSpec \<Rightarrow> string \<Rightarrow> string \<Rightarrow> (work_error, 'z work_db_scheme, RunState) tx" where
  "advance_edge env inp a spec outcome target db =
     (case findNode (at_graph a) target of
        None \<Rightarrow> Inl (WkSnapshot ''target node missing'')
      | Some def \<Rightarrow>
          (case buildContextTx (ga_attempt inp) (ga_node inp) db of
             Inl e \<Rightarrow> Inl e
           | Inr ctx \<Rightarrow>
               tx_bind (insertNodeExecutionTx env (ga_attempt inp) def
                          (next_seq (\<lambda>n. ne_attempt_id n = ga_attempt inp \<and> ne_node_key n = target) ne_visit (node_executions db))
                          (next_seq (\<lambda>n. ne_attempt_id n = ga_attempt inp) ne_seq (node_executions db))
                          ctx (at_models a) spec)
                 (\<lambda>nextID db1. tx_bind (hand_over env nextID (handed_links (ga_attempt inp) (ne_id (ga_node inp)) db1))
                   (\<lambda>_. tx_bind (insert_transition \<lparr>gt_attempt_id = ga_attempt inp, gt_from = ne_id (ga_node inp),
                            gt_outcome = outcome, gt_to = Some nextID, gt_terminal = False, gt_created_at = env_now env\<rparr>)
                     (\<lambda>_ db3. Inr (RunRunning, set_run env (ga_attempt inp) (\<lambda>s. s \<in> {RunRunning, RunAwaitingApproval})
                                     (\<lambda>r. r\<lparr>run_state := RunRunning\<rparr>) db3))) db1) db))"

definition advanceGraphTx :: "tx_env \<Rightarrow> graphAdvanceInput \<Rightarrow> (work_error, 'z work_db_scheme, RunState) tx" where
  "advanceGraphTx env inp db =
     (case ne_outcome (ga_node inp) of
        None \<Rightarrow> Inl (WkInvalidTransition ''node completion outcome is missing'')
      | Some outcome \<Rightarrow>
          (case find (\<lambda>a. at_id a = ga_attempt inp) (attempts db) of
             None \<Rightarrow> Inl (WkSnapshot ''no rows'')
           | Some a \<Rightarrow>
               (case find (\<lambda>d. d_id d = at_definition_id a) (definitions (wf db)) of
                  None \<Rightarrow> Inl (WkSnapshot ''no rows'')
                | Some d \<Rightarrow>
                    (case d_spec_json d of
                       SpecDoc spec \<Rightarrow>
                         (case findNode (at_graph a) (ne_node_key (ga_node inp)) of
                            None \<Rightarrow> Inl (WkSnapshot ''graph node is missing or changed kind'')
                          | Some def \<Rightarrow>
                              if n_kind def \<noteq> ne_kind (ga_node inp) then Inl (WkSnapshot ''graph node is missing or changed kind'')
                              else if outcome \<notin> set (n_outcomes def) then Inl (WkInvalidInput ''outcome is not declared'')
                              else tx_bind (appendTimelineTx env (ga_item inp) (ga_attempt inp) (ne_id (ga_node inp)) ''node_completed''
                                     (JObj [(''nodeKey'', JStr (ne_node_key (ga_node inp))), (''outcome'', JStr outcome),
                                            (''summary'', JStr (deref (ne_summary (ga_node inp)))),
                                            (''visit'', json_nat (ne_visit (ga_node inp)))])
                                     (ne_artifact_refs (ga_node inp)) (ga_actor inp))
                                (\<lambda>_ db1.
                                   case route (at_graph a) (ne_node_key (ga_node inp)) outcome of
                                     None \<Rightarrow> Inl (WkSnapshot ''no route'')
                                   | Some (target, terminal) \<Rightarrow>
                                       if terminal then advance_terminal env inp a outcome db1
                                       else if g_max_transitions (at_graph a) \<le> int (transition_count (ga_attempt inp) db1)
                                       then advance_limit env inp db1
                                       else advance_edge env inp a spec outcome target db1) db)
                     | _ \<Rightarrow> Inl (WkSnapshot ''spec_json'')))))"

section \<open>Settling a turn\<close>

definition fail_turn_tx ::
  "tx_env \<Rightarrow> Turn \<Rightarrow> NodeExecution \<Rightarrow> uuid \<Rightarrow> string \<Rightarrow> json option \<Rightarrow> json option \<Rightarrow> (work_error, 'z work_db_scheme, RunState) tx" where
  "fail_turn_tx env t node itemID reason customerFailure operatorFailure db =
     (let turnTo = (if reason = ''aborted'' then TurnAborted else TurnFailed);
          runTo = (if reason = ''aborted'' then RunAborted else RunFailed);
          db1 = set_turn env (turn_id t) turnTo db;
          db2 = set_node (ne_id node) (\<lambda>_. True) (\<lambda>n. n\<lparr>ne_state := NodeFailed, ne_finished_at := Some (env_now env)\<rparr>) db1;
          db3 = set_run env (turn_run_id t) (\<lambda>_. True) (finish_run env runTo) db2;
          db4 = set_attempt (turn_run_id t) (\<lambda>a. a\<lparr>at_finished_at := Some (env_now env),
                   at_customer_failure := customerFailure, at_operator_failure := operatorFailure\<rparr>) db3
      in tx_bind (appendTimelineTx env itemID (turn_run_id t) (ne_id node) ''work_failed''
                   (JObj [(''nodeKey'', JStr (ne_node_key node))]) [] [])
           (\<lambda>_. tx_return runTo) db4)"

definition complete_turn_tx ::
  "tx_env \<Rightarrow> uuid \<Rightarrow> string \<Rightarrow> json option \<Rightarrow> json option \<Rightarrow> (work_error, 'z work_db_scheme, RunState) tx" where
  "complete_turn_tx env turnID reason customerFailure operatorFailure db =
     (case find_turn turnID db of
        None \<Rightarrow> Inl WkNotFound
      | Some t \<Rightarrow>
          (case find (\<lambda>n. turn_node_execution_id t = Some (ne_id n)) (node_executions db) of
             None \<Rightarrow> Inl WkNotFound
           | Some node \<Rightarrow>
               (case find (\<lambda>a. at_id a = ne_attempt_id node) (attempts db) of
                  None \<Rightarrow> Inl WkNotFound
                | Some a \<Rightarrow>
                    if turn_state t \<noteq> TurnRunning then Inl (WkInvalidTransition ''turn state'')
                    else if reason \<noteq> ''completed'' \<or> ne_outcome node = None \<or> ne_reported_at node = None
                    then fail_turn_tx env t node (at_work_item_id a) reason customerFailure operatorFailure db
                    else
                      let db1 = set_turn env turnID TurnSucceeded db;
                          db2 = set_node (ne_id node) (\<lambda>_. True)
                                  (\<lambda>n. n\<lparr>ne_state := NodeSucceeded, ne_finished_at := Some (env_now env)\<rparr>) db1
                      in advanceGraphTx env \<lparr>ga_item = at_work_item_id a, ga_attempt = turn_run_id t,
                           ga_node = node, ga_actor = []\<rparr> db2)))"

definition CompleteTurn ::
  "bool \<Rightarrow> tx_env \<Rightarrow> uuid \<Rightarrow> string \<Rightarrow> json option \<Rightarrow> json option \<Rightarrow> 'z work_db_scheme
   \<Rightarrow> (work_error failure + RunState) \<times> 'z work_db_scheme" where
  "CompleteTurn fault env turnID reason customerFailure operatorFailure =
     run_tx fault (complete_turn_tx env turnID reason customerFailure operatorFailure)"

end
