(* ===== verification/Work_Store.thy ===== *)
theory Work_Store
  imports Work_Graph
begin

text \<open>
  Starting work and reading it back, \<^verbatim>\<open>src/control-plane/internal/work/store.go\<close>: the
  idempotent \<open>Start\<close>, the creation of an attempt with all its snapshots in one
  transaction, the customer projection of a work item and the lists.

  The SHA-256 of the canonical start payload is the parameter \<open>sha256\<close> of the payload's
  document; nothing is assumed of it. The advisory lock on the idempotency key serializes
  starts of it; the model's transactions are serial.
\<close>

section \<open>Input\<close>

record StartInput =
  sti_actor :: uuid
  sti_workflow_key :: string
  sti_workflow_version :: string
  sti_idempotency_key :: string
  sti_title :: string
  sti_source :: raw_json
  sti_source_bytes :: int
  sti_source_presentation :: SourcePresentation
  sti_artifact_refs :: "ArtifactRef list"
  sti_initiating_human :: string
  sti_authorization_source :: string
  sti_authorization_api_key :: string
  sti_authorization_session :: string

definition MaxSourceBytes :: int where
  "MaxSourceBytes = 1048576"

text \<open>\<^verbatim>\<open>strings.TrimSpace(s) == ""\<close> on ASCII white space.\<close>

definition is_space :: "char \<Rightarrow> bool" where
  "is_space c \<longleftrightarrow> c \<in> {CHR '' '', CHR 0x09, CHR 0x0A, CHR 0x0B, CHR 0x0C, CHR 0x0D}"

definition blank :: "string \<Rightarrow> bool" where
  "blank s = list_all is_space s"

definition textOrNil :: "string \<Rightarrow> string option" where
  "textOrNil s = (if blank s then None else Some s)"

definition has_prefix :: "string \<Rightarrow> string \<Rightarrow> bool" where
  "has_prefix p s = (take (length p) s = p)"

definition validateSourcePresentation :: "SourcePresentation \<Rightarrow> work_error option" where
  "validateSourcePresentation sp =
     first_error
       [check (\<not> blank (spn_kind sp) \<and> \<not> blank (spn_title sp)) (WkInvalidInput ''sourcePresentation.kind and title are required''),
        check (spn_original_url sp = [] \<or> has_prefix ''https://'' (spn_original_url sp))
          (WkInvalidInput ''sourcePresentation.originalUrl must use https''),
        check (list_all (\<lambda>f. (lt_en (pf_label f) \<noteq> [] \<or> lt_pt (pf_label f) \<noteq> []) \<and> \<not> blank (pf_value f)) (spn_evidence sp))
          (WkInvalidInput ''sourcePresentation.evidence requires a label and value'')]"

fun source_refs :: "ArtifactRef list \<Rightarrow> work_error + ArtifactRef list" where
  "source_refs [] = Inr []"
| "source_refs (r # rs) =
     (if ar_artifact_id r = [] then Inl (WkInvalidInput ''artifactId is required'')
      else if ar_role r \<noteq> [] \<and> ar_role r \<noteq> ''source'' then Inl (WkInvalidInput ''work-item start artifacts must use role source'')
      else case source_refs rs of Inl e \<Rightarrow> Inl e | Inr refs \<Rightarrow> Inr (r\<lparr>ar_role := ''source''\<rparr> # refs))"

definition opt_member :: "string \<Rightarrow> string \<Rightarrow> (string \<times> json) list" where
  "opt_member k v = (if v = [] then [] else [(k, JStr v)])"

definition localized_json :: "CanonicalLocalizedText \<Rightarrow> json" where
  "localized_json t = JObj (opt_member ''en'' (lt_en t) @ opt_member ''pt'' (lt_pt t))"

definition presentation_json :: "SourcePresentation \<Rightarrow> json" where
  "presentation_json sp = JObj
     ([(''kind'', JStr (spn_kind sp)), (''title'', JStr (spn_title sp))]
      @ opt_member ''subtitle'' (spn_subtitle sp) @ opt_member ''originalUrl'' (spn_original_url sp)
      @ (if spn_evidence sp = [] then []
         else [(''evidence'', JArr (map (\<lambda>f. JObj [(''label'', localized_json (pf_label f)), (''value'', JStr (pf_value f))]) (spn_evidence sp)))]))"

definition start_payload :: "StartInput \<Rightarrow> ArtifactRef list \<Rightarrow> json" where
  "start_payload inp refs = JObj
     ([(''workflowKey'', JStr (sti_workflow_key inp)), (''version'', JStr (sti_workflow_version inp)),
       (''title'', JStr (sti_title inp)), (''source'', jsonValue (sti_source inp)),
       (''sourcePresentation'', presentation_json (sti_source_presentation inp))]
      @ (if refs = [] then [] else [(''artifacts'', JArr (map artifact_ref_json refs))]))"

definition startPayloadHash :: "(json \<Rightarrow> string) \<Rightarrow> StartInput \<Rightarrow> ArtifactRef list \<Rightarrow> work_error + string" where
  "startPayloadHash sha256 inp refs =
     (if sti_source inp = RawBad then Inl (WkInvalidInput ''source must be valid JSON'')
      else if exists_row (\<lambda>r. ar_metadata r = RawBad) refs then Inl (WkInvalidInput ''artifact metadata must be valid JSON'')
      else Inr (sha256 (start_payload inp refs)))"

section \<open>Resolving what an attempt pins\<close>

definition resolvePoolTx :: "string \<Rightarrow> 'z work_db_scheme \<Rightarrow> work_error + uuid" where
  "resolvePoolTx definitionKey db =
     (case find (\<lambda>b. pb_definition_key b = definitionKey \<and> pb_deleted_at b = None) (pool_bindings (wf db)) of
        None \<Rightarrow> Inl (WkInvalidInput ''workflow has no active pool binding'')
      | Some b \<Rightarrow> Inr (pb_pool_id b))"

text \<open>Decoding one pointer field of a struct whose error the code drops: a member of another
  type leaves a pointer to the zero value.\<close>

fun max_tokens_ptr :: "(string \<times> json) list \<Rightarrow> int option \<Rightarrow> int option" where
  "max_tokens_ptr [] acc = acc"
| "max_tokens_ptr ((k, v) # kvs) acc =
     (if \<not> fold_eq k ''max_tokens'' then max_tokens_ptr kvs acc
      else max_tokens_ptr kvs
        (case v of
           JNull \<Rightarrow> None
         | JNum r \<Rightarrow> if of_int \<lfloor>r\<rfloor> = r \<and> - (2 ^ 63) \<le> \<lfloor>r\<rfloor> \<and> \<lfloor>r\<rfloor> < 2 ^ 63 then Some \<lfloor>r\<rfloor>
                    else Some (case acc of Some n \<Rightarrow> n | None \<Rightarrow> 0)
         | _ \<Rightarrow> Some (case acc of Some n \<Rightarrow> n | None \<Rightarrow> 0)))"

fun enable_thinking_ptr :: "(string \<times> json) list \<Rightarrow> bool option \<Rightarrow> bool option" where
  "enable_thinking_ptr [] acc = acc"
| "enable_thinking_ptr ((k, v) # kvs) acc =
     (if \<not> fold_eq k ''enable_thinking'' then enable_thinking_ptr kvs acc
      else enable_thinking_ptr kvs
        (case v of
           JNull \<Rightarrow> None
         | JBool b \<Rightarrow> Some b
         | _ \<Rightarrow> Some (case acc of Some b \<Rightarrow> b | None \<Rightarrow> False)))"

definition members :: "json \<Rightarrow> (string \<times> json) list" where
  "members j = (case j of JObj kvs \<Rightarrow> kvs | _ \<Rightarrow> [])"

definition model_of_row :: "CatalogModel \<Rightarrow> int \<Rightarrow> modelSnapshot" where
  "model_of_row c window =
     \<lparr>ms_key = cm_model_key c, ms_id = cm_model_id c, ms_api = ''openai-completions'', ms_context_window = window,
      ms_max_output_tokens = (case max_tokens_ptr (members (cm_default_params c)) None of None \<Rightarrow> 0 | Some n \<Rightarrow> n),
      ms_thinking_level = (case enable_thinking_ptr (members (cm_reasoning_config c)) None of
                             None \<Rightarrow> [] | Some True \<Rightarrow> ''medium'' | Some False \<Rightarrow> ''off''),
      ms_default_params = cm_default_params c, ms_reasoning_config = cm_reasoning_config c\<rparr>"

definition model_refs :: "CanonicalSpec \<Rightarrow> string list" where
  "model_refs spec = remdups (map (\<lambda>n. if n_model_ref n = [] then sp_default_model_ref spec else n_model_ref n)
      (filter (\<lambda>n. n_kind n = NodeAgentTask) (g_nodes (sp_graph spec))))"

fun resolve_models :: "string \<Rightarrow> CatalogModel list \<Rightarrow> string list \<Rightarrow> work_error + (string \<times> modelSnapshot) list" where
  "resolve_models namespace cat [] = Inr []"
| "resolve_models namespace cat (ref # refs) =
     (case find (\<lambda>c. cm_model_key c = namespace @ ''/'' @ ref \<and> cm_available c) cat of
        None \<Rightarrow> Inl (WkInvalidInput ''model is unavailable'')
      | Some c \<Rightarrow>
          (case cm_context_length c of
             None \<Rightarrow> Inl (WkSnapshot ''context_length is null'')
           | Some window \<Rightarrow>
               (case resolve_models namespace cat refs of
                  Inl e \<Rightarrow> Inl e
                | Inr ms \<Rightarrow> Inr ((ref, model_of_row c window) # ms))))"

definition resolveModelsTx :: "string \<Rightarrow> CanonicalSpec \<Rightarrow> 'z work_db_scheme \<Rightarrow> work_error + (string \<times> modelSnapshot) list" where
  "resolveModelsTx poolKey spec db =
     resolve_models (takeWhile (\<lambda>c. c \<noteq> CHR ''/'') poolKey) (catalog db) (model_refs spec)"

definition snapshot_of_value_model :: "ValueModel \<Rightarrow> valueSnapshot" where
  "snapshot_of_value_model v =
     \<lparr>vs_ref = vm_ref v, vs_version = vm_version v, vs_currency = vm_currency v, vs_baseline_seconds = vm_baseline_seconds v,
      vs_loaded_hourly_cost = vm_loaded_hourly_cost v, vs_assumptions = vm_assumptions v, vs_explanation = vm_explanation v\<rparr>"

definition resolveValueModelTx :: "string \<Rightarrow> 'z work_db_scheme \<Rightarrow> (uuid \<times> valueSnapshot) option" where
  "resolveValueModelTx ref db =
     (if ref = [] then None
      else case limit1 (rev (order_by (\<lambda>v. (vm_created_at v, vm_id v)) (filter (\<lambda>v. vm_ref v = ref) (value_models db)))) of
        None \<Rightarrow> None
      | Some v \<Rightarrow> Some (vm_id v, snapshot_of_value_model v))"

definition effect_rank :: "string \<Rightarrow> nat" where
  "effect_rank c = (if c = ''read_only'' then 1 else if c = ''idempotent_write'' then 2 else 3)"

text \<open>The newest healthy version of a tool whose effect class both the pool's grant and the
  workflow's request allow.\<close>

definition eligible_version :: "uuid \<Rightarrow> string \<Rightarrow> string \<Rightarrow> 'z work_db_scheme \<Rightarrow> ToolVersionRow option" where
  "eligible_version poolID name maxClass db =
     limit1 (rev (order_by (\<lambda>v. (tv_created_at v, tv_id v))
       (filter (\<lambda>v. tv_name v = name
          \<and> exists_row (\<lambda>g. pg_tool_name g = name \<and> pg_pool_id g = poolID \<and> pg_deleted_at g = None
                \<and> effect_rank (tv_effect_class v) \<le> effect_rank (pg_max_effect_class g)) (pool_grants db)
          \<and> effect_rank (tv_effect_class v) \<le> effect_rank maxClass) (available_tool_versions db))))"

fun pin_tools :: "uuid \<Rightarrow> uuid \<Rightarrow> (string \<Rightarrow> string) \<Rightarrow> string list \<Rightarrow> (work_error, 'z work_db_scheme, unit) tx" where
  "pin_tools attemptID poolID cls [] db = Inr ((), db)"
| "pin_tools attemptID poolID cls (name # names) db =
     (case eligible_version poolID name (cls name) db of
        None \<Rightarrow> Inl (WkInvalidInput ''requested tool has no eligible healthy version'')
      | Some v \<Rightarrow>
          if exists_row (\<lambda>p. tp_attempt_id p = attemptID \<and> tp_tool_name p = name) (attempt_tool_pins db) then Inl WkConstraint
          else pin_tools attemptID poolID cls names
                 (db\<lparr>attempt_tool_pins := attempt_tool_pins db @ [\<lparr>tp_attempt_id = attemptID, tp_tool_name = name, tp_digest = tv_digest v\<rparr>]\<rparr>))"

text \<open>Of several requests for one tool the last one's effect class counts.\<close>

definition requested_class :: "CanonicalCapability list \<Rightarrow> string \<Rightarrow> string" where
  "requested_class caps name = (case map_of (rev (map (\<lambda>c. (cap_tool c, cap_max_effect_class c)) caps)) name of
     None \<Rightarrow> [] | Some c \<Rightarrow> c)"

definition snapshotToolsTx :: "uuid \<Rightarrow> uuid \<Rightarrow> CanonicalCapability list \<Rightarrow> (work_error, 'z work_db_scheme, unit) tx" where
  "snapshotToolsTx attemptID poolID caps =
     pin_tools attemptID poolID (requested_class caps) (sort (remdups (map cap_tool caps)))"

section \<open>Creating an attempt\<close>

record createAttemptInput =
  ca_id :: uuid
  ca_work_item_id :: uuid
  ca_number :: nat
  ca_actor :: string
  ca_initiating_human :: string
  ca_authorization_source :: string
  ca_authorization_api_key :: string
  ca_authorization_session :: string
  ca_resolved :: ResolvedDefinition
  ca_source :: raw_json
  ca_source_artifacts :: "ArtifactRef list"
  ca_revised_from :: string
  ca_revision_feedback_id :: string
  ca_guidance :: string
  ca_confirmation :: "string list"

definition insert_run_row :: "tx_env \<Rightarrow> createAttemptInput \<Rightarrow> (work_error, 'z work_db_scheme, unit) tx" where
  "insert_run_row env inp db =
     (let def = rd_definition (ca_resolved inp);
          p = \<lparr>pr_initiating_human = textOrNil (ca_initiating_human inp), pr_request_actor = textOrNil (ca_actor inp),
               pr_authorization_source = textOrNil (ca_authorization_source inp),
               pr_authorization_api_key = textOrNil (ca_authorization_api_key inp),
               pr_authorization_session = textOrNil (ca_authorization_session inp)\<rparr>
      in case json_column (ca_source inp) of
           None \<Rightarrow> Inl WkConstraint
         | Some trigger \<Rightarrow>
             if exists_row (\<lambda>r. run_id r = ca_id inp) (runs db) \<or> d_scope_identity_id def \<notin> set (identities db)
                \<or> \<not> null_or (\<lambda>a. a \<in> {''browser'', ''api'', ''chat''}) (pr_authorization_source p)
             then Inl WkConstraint
             else Inr ((), db\<lparr>runs := runs db @ [\<lparr>run_id = ca_id inp, run_kind = ''workflow'',
                     run_definition_key = Some (DefinitionKey (d_key def) (d_version def)),
                     run_scope_identity_id = d_scope_identity_id def, run_session_id = ca_id inp, run_session_dir = ca_id inp,
                     run_trigger = trigger, run_state = RunPending, run_created_at = env_now env, run_updated_at = env_now env,
                     run_started_at = None, run_finished_at = None\<rparr>],
                   run_principals := run_principals db @ [(ca_id inp, p)]\<rparr>))"

definition insert_attempt_row ::
  "tx_env \<Rightarrow> createAttemptInput \<Rightarrow> (string \<times> modelSnapshot) list \<Rightarrow> (uuid option \<times> valueSnapshot option)
   \<Rightarrow> (work_error, 'z work_db_scheme, unit) tx" where
  "insert_attempt_row env inp models vm db =
     (let def = rd_definition (ca_resolved inp);
          a = \<lparr>at_id = ca_id inp, at_work_item_id = ca_work_item_id inp, at_number = ca_number inp,
               at_definition_id = d_id def, at_definition_key = d_key def, at_definition_version = d_version def,
               at_definition_digest = d_digest def, at_graph = sp_graph (rd_spec (ca_resolved inp)),
               at_skills = rd_skills (ca_resolved inp), at_capabilities = rd_requested_capabilities (ca_resolved inp),
               at_models = models, at_presentation = jsonB (d_presentation def),
               at_value_model_id = fst vm, at_value_snapshot = snd vm,
               at_revised_from = nullable (ca_revised_from inp), at_revision_feedback_id = nullable (ca_revision_feedback_id inp),
               at_guidance = nullable (ca_guidance inp), at_confirmation = ca_confirmation inp,
               at_customer_failure = None, at_operator_failure = None, at_created_at = env_now env, at_finished_at = None\<rparr>
      in if \<not> attempt_exists (at_id a) db \<and> exists_row (\<lambda>r. run_id r = at_id a) (runs db)
            \<and> item_exists (at_work_item_id a) db \<and> 0 < at_number a
            \<and> \<not> exists_row (\<lambda>x. at_work_item_id x = at_work_item_id a \<and> at_number x = at_number a) (attempts db)
            \<and> exists_row (\<lambda>d. d_id d = at_definition_id a) (definitions (wf db))
            \<and> null_or (\<lambda>m. exists_row (\<lambda>v. vm_id v = m) (value_models db)) (at_value_model_id a)
            \<and> null_or (\<lambda>r. attempt_exists r db) (at_revised_from a)
            \<and> null_or (\<lambda>f. exists_row (\<lambda>x. fb_id x = f) (feedback db)
                         \<and> \<not> exists_row (\<lambda>x. at_revision_feedback_id x = Some f) (attempts db)) (at_revision_feedback_id a)
         then Inr ((), db\<lparr>attempts := attempts db @ [a]\<rparr>)
         else Inl WkConstraint)"

definition insert_run_pool :: "tx_env \<Rightarrow> uuid \<Rightarrow> uuid \<Rightarrow> (work_error, 'z work_db_scheme, unit) tx" where
  "insert_run_pool env runID poolID db =
     (if exists_row (\<lambda>p. rp_run_id p = runID) (run_pools db) \<or> \<not> exists_row (\<lambda>r. run_id r = runID) (runs db) then Inl WkConstraint
      else Inr ((), db\<lparr>run_pools := run_pools db @ [\<lparr>rp_run_id = runID, rp_pool_id = poolID, rp_assigned_at = env_now env\<rparr>]\<rparr>))"

fun link_sources ::
  "tx_env \<Rightarrow> uuid \<Rightarrow> uuid \<Rightarrow> uuid \<Rightarrow> ArtifactRef list \<Rightarrow> (work_error, 'z work_db_scheme, unit) tx" where
  "link_sources env itemID attemptID nodeID [] db = Inr ((), db)"
| "link_sources env itemID attemptID nodeID (r # rs) db =
     (if ar_artifact_id r = [] then Inl (WkInvalidInput ''artifactId is required'')
      else if \<not> exists_row (\<lambda>a. af_id a = ar_artifact_id r \<and> af_state a = ''available'') (artifacts db)
        then Inl (WkInvalidInput ''source artifact is not available'')
      else case json_column (ar_metadata r) of
        None \<Rightarrow> Inl WkConstraint
      | Some metadata \<Rightarrow>
          let role = (if ar_role r = [] then ''source'' else ar_role r) in
          if exists_row (\<lambda>x. al_artifact_id x = ar_artifact_id r \<and> al_work_item_id x = itemID \<and> al_attempt_id x = attemptID
                \<and> al_node_execution_id x = Some nodeID \<and> al_role x = role) (artifact_links db) then Inl WkConstraint
          else (case insert_link env (ar_artifact_id r) itemID attemptID nodeID role metadata db of
                  Inl e \<Rightarrow> Inl e
                | Inr (_, db') \<Rightarrow> link_sources env itemID attemptID nodeID rs db'))"

definition item_value_model :: "createAttemptInput \<Rightarrow> 'z work_db_scheme \<Rightarrow> work_error + (uuid option \<times> valueSnapshot option)" where
  "item_value_model inp db =
     (if ca_revised_from inp = []
      then Inr (case resolveValueModelTx (sp_value_model_ref (rd_spec (ca_resolved inp))) db of
                  None \<Rightarrow> (None, None) | Some (m, v) \<Rightarrow> (Some m, Some v))
      else case find (\<lambda>a. at_work_item_id a = ca_work_item_id inp \<and> at_number a = 1) (attempts db) of
        None \<Rightarrow> Inl (WkSnapshot ''no rows'')
      | Some a \<Rightarrow> Inr (at_value_model_id a, at_value_snapshot a))"

definition initial_context :: "createAttemptInput \<Rightarrow> json" where
  "initial_context inp = JObj
     ([(''executionHistoryRef'', JObj [(''attemptId'', JStr (ca_id inp)), (''throughExecutionSeq'', json_nat 0)]),
       (''latestByNode'', JObj [])]
      @ guidance_member (nullable (ca_guidance inp))
      @ [(''source'', jsonValue (ca_source inp)), (''sourceArtifacts'', JArr (map artifact_ref_json (ca_source_artifacts inp)))])"

definition createAttemptTx :: "tx_env \<Rightarrow> createAttemptInput \<Rightarrow> (work_error, 'z work_db_scheme, unit) tx" where
  "createAttemptTx env inp db =
     (let def = rd_definition (ca_resolved inp); spec = rd_spec (ca_resolved inp) in
      case resolvePoolTx (DefinitionKey (d_key def) (d_version def)) db of
        Inl e \<Rightarrow> Inl e
      | Inr poolID \<Rightarrow>
          (case resolveModelsTx (d_pool_key def) spec db of
             Inl e \<Rightarrow> Inl e
           | Inr models \<Rightarrow>
               (case item_value_model inp db of
                  Inl e \<Rightarrow> Inl e
                | Inr vm \<Rightarrow>
                    tx_bind (insert_run_row env inp)
                     (\<lambda>_. tx_bind (insert_attempt_row env inp models vm)
                      (\<lambda>_. tx_bind (insert_run_pool env (ca_id inp) poolID)
                       (\<lambda>_. tx_bind (snapshotToolsTx (ca_id inp) poolID (rd_requested_capabilities (ca_resolved inp)))
                        (\<lambda>_. case findNode (sp_graph spec) (g_entry_node (sp_graph spec)) of
                               None \<Rightarrow> tx_fail (WkInvalidInput ''graph entry node disappeared from immutable snapshot'')
                             | Some entry \<Rightarrow>
                                 tx_bind (insertNodeExecutionTx env (ca_id inp) entry 1 1 (initial_context inp) models spec)
                                  (\<lambda>execID. tx_bind (link_sources env (ca_work_item_id inp) (ca_id inp) execID (ca_source_artifacts inp))
                                   (\<lambda>_. appendTimelineTx env (ca_work_item_id inp) (ca_id inp) execID ''attempt_created''
                                          (JObj [(''attemptNumber'', json_nat (ca_number inp)), (''definitionVersion'', JStr (d_version def))])
                                          [] (ca_actor inp))))))) db)))"

section \<open>The customer projection\<close>

datatype CustomerState = StateTodo | StateInProgress | StateBlocked | StateDone | StateFailed

text \<open>The CASE of the view \<^verbatim>\<open>work.current_work_items\<close>.\<close>

definition customer_state :: "uuid \<Rightarrow> Run \<Rightarrow> 'z work_db_scheme \<Rightarrow> CustomerState" where
  "customer_state itemID r db =
     (if run_state r \<in> {RunFailed, RunAborted} then StateFailed
      else if exists_row (\<lambda>b. bl_work_item_id b = itemID \<and> bl_state b = BlockerOpen) (blockers db) then StateBlocked
      else case run_state r of
        RunPending \<Rightarrow> StateTodo
      | RunRunning \<Rightarrow> StateInProgress
      | RunAwaitingApproval \<Rightarrow> StateInProgress
      | _ \<Rightarrow> StateDone)"

record BusinessStep = bs_key :: string bs_label :: CanonicalLocalizedText bs_state :: NodeState bs_started_at :: "time option"

record BlockerSummary = bsm_id :: uuid bsm_kind :: string bsm_title :: CanonicalLocalizedText

record WorkItem =
  w_row :: WorkItemRow
  w_presentation :: CanonicalPresentation
  w_state :: CustomerState
  w_runtime_state :: RunState
  w_started_at :: "time option"
  w_finished_at :: "time option"
  w_value_configured :: bool
  w_value_model :: "valueSnapshot option"
  w_estimated_value :: "int option"
  w_value_currency :: "string option"
  w_value_disputed :: bool
  w_failure_summary :: "json option"
  w_current_step :: "BusinessStep option"
  w_blocker :: "BlockerSummary option"

definition unmarshal_presentation :: "json \<Rightarrow> CanonicalPresentation option" where
  "unmarshal_presentation j =
     (case struct_members (RawJson j) of
        None \<Rightarrow> None
      | Some kvs \<Rightarrow>
          (case (field_string ''workflowTitle'' kvs [], field_string ''personaName'' kvs [],
                 field_string ''personaAvatar'' kvs [], field_string ''locale'' kvs []) of
             (Some a, Some b, Some c, Some d) \<Rightarrow>
               Some \<lparr>cp_workflow_title = a, cp_persona_name = b, cp_persona_avatar = c, cp_locale = d\<rparr>
           | _ \<Rightarrow> None))"

definition current_step :: "uuid \<Rightarrow> 'z work_db_scheme \<Rightarrow> BusinessStep option" where
  "current_step attemptID db =
     map_option (\<lambda>n. \<lparr>bs_key = ne_node_key n, bs_label = ne_label n, bs_state = ne_state n, bs_started_at = ne_started_at n\<rparr>)
       (limit1 (rev (order_by ne_seq (filter (\<lambda>n. ne_attempt_id n = attemptID) (node_executions db)))))"

definition min_string :: "string list \<Rightarrow> string option" where
  "min_string xs = limit1 (sort xs)"

definition item_ledger :: "uuid \<Rightarrow> 'z work_db_scheme \<Rightarrow> LedgerRow list" where
  "item_ledger itemID db = filter (\<lambda>r. vl_work_item_id r = itemID) (value_ledger db)"

definition scanWorkItem :: "WorkItemRow \<Rightarrow> Attempt \<Rightarrow> Run \<Rightarrow> 'z work_db_scheme \<Rightarrow> work_error + WorkItem" where
  "scanWorkItem w a r db =
     (case unmarshal_presentation (at_presentation a) of
        None \<Rightarrow> Inl (WkSnapshot ''presentation_snapshot'')
      | Some p \<Rightarrow> Inr
          \<lparr>w_row = w, w_presentation = p, w_state = customer_state (wi_id w) r db, w_runtime_state = run_state r,
           w_started_at = run_started_at r, w_finished_at = run_finished_at r,
           w_value_configured = (at_value_model_id a \<noteq> None), w_value_model = at_value_snapshot a,
           w_estimated_value = (let l = item_ledger (wi_id w) db in if l = [] then None else Some (sum_list (map vl_amount l))),
           w_value_currency = min_string (map vl_currency (item_ledger (wi_id w) db)),
           w_value_disputed = exists_row (\<lambda>x. vl_work_item_id x = wi_id w \<and> vl_kind x = FeedbackDeduction) (value_ledger db),
           w_failure_summary = at_customer_failure a, w_current_step = current_step (at_id a) db,
           w_blocker = map_option (\<lambda>b. \<lparr>bsm_id = bl_id b, bsm_kind = bl_kind b, bsm_title = bl_title b\<rparr>)
              (find (\<lambda>b. bl_work_item_id b = wi_id w \<and> bl_state b = BlockerOpen) (blockers db))\<rparr>)"

definition GetWorkItem :: "uuid \<Rightarrow> 'z work_db_scheme \<Rightarrow> work_error + WorkItem" where
  "GetWorkItem itemID db =
     (case find (\<lambda>w. wi_id w = itemID) (work_items db) of
        None \<Rightarrow> Inl WkNotFound
      | Some w \<Rightarrow>
          (case wi_current_attempt_id w of
             None \<Rightarrow> Inl WkNotFound
           | Some aid \<Rightarrow>
               (case (find (\<lambda>a. at_id a = aid) (attempts db), find_run aid db) of
                  (Some a, Some r) \<Rightarrow> scanWorkItem w a r db
                | _ \<Rightarrow> Inl WkNotFound)))"

section \<open>Starting work\<close>

definition start_key :: "StartInput \<Rightarrow> WorkItemRow \<Rightarrow> bool" where
  "start_key inp w \<longleftrightarrow> wi_start_identity_id w = sti_actor inp \<and> wi_workflow_key w = sti_workflow_key inp
     \<and> wi_start_idempotency_key w = sti_idempotency_key inp"

definition insert_item_row ::
  "tx_env \<Rightarrow> uuid \<Rightarrow> StartInput \<Rightarrow> ResolvedDefinition \<Rightarrow> string \<Rightarrow> (work_error, 'z work_db_scheme, unit) tx" where
  "insert_item_row env itemID inp resolved hash db =
     (let p = \<lparr>pr_initiating_human = textOrNil (sti_initiating_human inp), pr_request_actor = Some (sti_actor inp),
               pr_authorization_source = textOrNil (sti_authorization_source inp),
               pr_authorization_api_key = textOrNil (sti_authorization_api_key inp),
               pr_authorization_session = textOrNil (sti_authorization_session inp)\<rparr>;
          scope = d_scope_identity_id (rd_definition resolved)
      in case json_column (sti_source inp) of
           None \<Rightarrow> Inl WkConstraint
         | Some source \<Rightarrow>
             if item_exists itemID db \<or> exists_row (start_key inp) (work_items db)
                \<or> scope \<notin> set (identities db) \<or> sti_actor inp \<notin> set (identities db)
                \<or> \<not> null_or (\<lambda>i. i \<in> set (identities db)) (pr_initiating_human p)
                \<or> \<not> null_or (\<lambda>a. a \<in> {''browser'', ''api'', ''chat''}) (pr_authorization_source p)
             then Inl WkConstraint
             else Inr ((), db\<lparr>work_items := work_items db @
                    [\<lparr>wi_id = itemID, wi_workflow_key = sti_workflow_key inp, wi_scope_identity_id = scope,
                      wi_title = sti_title inp, wi_source = source, wi_source_presentation = sti_source_presentation inp,
                      wi_start_identity_id = sti_actor inp, wi_start_idempotency_key = sti_idempotency_key inp,
                      wi_start_payload_hash = hash, wi_principals = p, wi_current_attempt_id = None,
                      wi_created_at = env_now env, wi_updated_at = env_now env\<rparr>]\<rparr>))"

definition set_current_attempt :: "tx_env \<Rightarrow> uuid \<Rightarrow> uuid \<Rightarrow> 'z work_db_scheme \<Rightarrow> 'z work_db_scheme" where
  "set_current_attempt env itemID attemptID db =
     db\<lparr>work_items := update_where (\<lambda>w. wi_id w = itemID)
        (\<lambda>w. w\<lparr>wi_current_attempt_id := Some attemptID, wi_updated_at := env_now env\<rparr>) (work_items db)\<rparr>"

definition resolve_error :: "wf_error \<Rightarrow> work_error" where
  "resolve_error e = (if e = WfNotFound then WkInvalidInput ''workflow is unavailable'' else WkWorkflow e)"

text \<open>The result names the item and says whether it was created.\<close>

definition start_tx ::
  "(raw_json \<Rightarrow> bool) \<Rightarrow> tx_env \<Rightarrow> StartInput \<Rightarrow> ArtifactRef list \<Rightarrow> string \<Rightarrow> (work_error, 'z work_db_scheme, uuid \<times> bool) tx" where
  "start_tx compiles env inp refs hash db =
     (case find (start_key inp) (work_items db) of
        Some w \<Rightarrow>
          if wi_start_payload_hash w \<noteq> hash then Inl (WkConflict ''idempotency key reused with different payload'')
          else Inr ((wi_id w, False), db)
      | None \<Rightarrow>
          (case resolveForAttempt compiles (sti_workflow_key inp) (sti_workflow_version inp) (wf db) of
             Inl e \<Rightarrow> Inl (resolve_error e)
           | Inr resolved \<Rightarrow>
               let itemID = env_uuid env ''work_items'' (length (work_items db));
                   attemptID = env_uuid env ''attempts'' (length (attempts db))
               in tx_bind (insert_item_row env itemID inp resolved hash)
                   (\<lambda>_. tx_bind (createAttemptTx env \<lparr>ca_id = attemptID, ca_work_item_id = itemID, ca_number = 1,
                          ca_actor = sti_actor inp, ca_initiating_human = sti_initiating_human inp,
                          ca_authorization_source = sti_authorization_source inp,
                          ca_authorization_api_key = sti_authorization_api_key inp,
                          ca_authorization_session = sti_authorization_session inp, ca_resolved = resolved,
                          ca_source = sti_source inp, ca_source_artifacts = refs, ca_revised_from = [],
                          ca_revision_feedback_id = [], ca_guidance = [], ca_confirmation = []\<rparr>)
                     (\<lambda>_ db1. tx_bind (appendTimelineTx env itemID attemptID [] ''work_item_created''
                           (JObj [(''title'', JStr (sti_title inp)), (''workflowKey'', JStr (sti_workflow_key inp))]) refs (sti_actor inp))
                       (\<lambda>_. tx_return (itemID, True)) (set_current_attempt env itemID attemptID db1))) db))"

definition Start ::
  "(raw_json \<Rightarrow> bool) \<Rightarrow> (json \<Rightarrow> string) \<Rightarrow> bool \<Rightarrow> tx_env \<Rightarrow> StartInput \<Rightarrow> 'z work_db_scheme
   \<Rightarrow> (work_error failure + WorkItem \<times> bool) \<times> 'z work_db_scheme" where
  "Start compiles sha256 fault env inp db =
     (if sti_actor inp = [] \<or> sti_workflow_key inp = [] \<or> sti_idempotency_key inp = [] \<or> sti_title inp = []
      then (Inl (Fail (WkInvalidInput ''actor, workflowKey, idempotency key, and title are required'')), db)
      else case validateSourcePresentation (sti_source_presentation inp) of
        Some e \<Rightarrow> (Inl (Fail e), db)
      | None \<Rightarrow>
          if MaxSourceBytes < sti_source_bytes inp then (Inl (Fail (WkInvalidInput ''source payload exceeds the limit'')), db)
          else (case source_refs (sti_artifact_refs inp) of
              Inl e \<Rightarrow> (Inl (Fail e), db)
            | Inr refs \<Rightarrow>
                (case startPayloadHash sha256 inp refs of
                   Inl e \<Rightarrow> (Inl (Fail e), db)
                 | Inr hash \<Rightarrow>
                     (case run_tx fault (start_tx compiles env inp refs hash) db of
                        (Inl e, db') \<Rightarrow> (Inl e, db')
                      | (Inr (itemID, created), db') \<Rightarrow>
                          (case GetWorkItem itemID db' of
                             Inl e \<Rightarrow> (Inl (Fail e), db')
                           | Inr item \<Rightarrow> (Inr (item, created), db'))))))"

section \<open>Lists\<close>

definition ListAttempts :: "uuid \<Rightarrow> 'z work_db_scheme \<Rightarrow> Attempt list" where
  "ListAttempts itemID db = order_by at_number (filter (\<lambda>a. at_work_item_id a = itemID) (attempts db))"

definition ListNodeExecutions :: "uuid \<Rightarrow> 'z work_db_scheme \<Rightarrow> NodeExecution list" where
  "ListNodeExecutions attemptID db = order_by ne_seq (filter (\<lambda>n. ne_attempt_id n = attemptID) (node_executions db))"

definition ListArtifacts :: "uuid \<Rightarrow> 'z work_db_scheme \<Rightarrow> work_error + (ArtifactLink \<times> ArtifactRow) list" where
  "ListArtifacts itemID db =
     (if \<not> item_exists itemID db then Inl WkNotFound
      else Inr (List.map_filter (\<lambda>l. map_option (Pair l) (find (\<lambda>a. af_id a = al_artifact_id l \<and> af_state a = ''available'') (artifacts db)))
             (order_by (\<lambda>l. (al_created_at l, al_id l)) (filter (\<lambda>l. al_work_item_id l = itemID) (artifact_links db)))))"

definition page_limit :: "int \<Rightarrow> nat" where
  "page_limit limit = (if limit \<le> 0 \<or> 1000 < limit then 200 else nat limit)"

definition ListTimeline :: "uuid \<Rightarrow> nat \<Rightarrow> int \<Rightarrow> 'z work_db_scheme \<Rightarrow> TimelineEvent list" where
  "ListTimeline itemID after limit db =
     take (page_limit limit) (order_by te_cursor (filter (\<lambda>e. te_work_item_id e = itemID \<and> after < te_cursor e) (timeline db)))"

definition TimelineSince :: "nat \<Rightarrow> int \<Rightarrow> 'z work_db_scheme \<Rightarrow> TimelineEvent list" where
  "TimelineSince after limit db =
     take (page_limit limit) (order_by te_cursor (filter (\<lambda>e. after < te_cursor e) (timeline db)))"

end
