(* ===== verification/Work_Commands.thy ===== *)
theory Work_Commands
  imports Work_Store
begin

text \<open>
  The customer commands, \<^verbatim>\<open>src/control-plane/internal/work/commands.go\<close>, with the reads of
  \<^verbatim>\<open>query.go\<close> and \<^verbatim>\<open>assignment.go\<close> and the value models of \<^verbatim>\<open>value.go\<close>:
  answering a blocker, saving feedback with its deduction, and starting a revision.
\<close>

section \<open>Answering a blocker\<close>

record BlockerResponseInput =
  bri_blocker_id :: uuid
  bri_actor :: uuid
  bri_outcome :: string
  bri_response :: raw_json
  bri_artifact_refs :: "ArtifactRef list"
  bri_confirmed :: "string list"

fun check_response_refs :: "'z work_db_scheme \<Rightarrow> ArtifactRef list \<Rightarrow> work_error + ArtifactRef list" where
  "check_response_refs db [] = Inr []"
| "check_response_refs db (r # rs) =
     (if ar_artifact_id r = [] then Inl (WkInvalidInput ''artifactId is required'')
      else if ar_metadata r = RawBad then Inl (WkInvalidInput ''metadata must be valid JSON'')
      else if \<not> exists_row (\<lambda>a. af_id a = ar_artifact_id r \<and> af_state a = ''available'') (artifacts db)
        then Inl (WkInvalidInput ''artifact is not available'')
      else case check_response_refs db rs of Inl e \<Rightarrow> Inl e | Inr refs \<Rightarrow> Inr (r\<lparr>ar_role := ''input''\<rparr> # refs))"

definition check_response ::
  "(raw_json \<Rightarrow> json \<Rightarrow> bool) \<Rightarrow> BlockerResponseInput \<Rightarrow> Blocker \<Rightarrow> 'z work_db_scheme \<Rightarrow> work_error + ArtifactRef list" where
  "check_response validates inp b db =
     (if bl_state b \<noteq> BlockerOpen then Inl (WkInvalidTransition ''blocker is resolved'')
      else if bri_outcome inp \<notin> set (bl_allowed_outcomes b) then Inl (WkInvalidInput ''outcome is not allowed'')
      else if \<not> validateInstance validates (bri_response inp) (bl_response_schema b) then Inl (WkInvalidInput ''response'')
      else if bl_kind b = ''artifact'' \<and> bri_artifact_refs inp = [] then Inl (WkInvalidInput ''artifact blocker requires artifactRefs'')
      else if bl_kind b \<noteq> ''artifact'' \<and> bri_artifact_refs inp \<noteq> []
        then Inl (WkInvalidInput ''artifactRefs are allowed only for artifact blockers'')
      else check_response_refs db (bri_artifact_refs inp))"

definition set_blocker :: "uuid \<Rightarrow> (BlockerState \<Rightarrow> bool) \<Rightarrow> (Blocker \<Rightarrow> Blocker) \<Rightarrow> 'z work_db_scheme \<Rightarrow> 'z work_db_scheme" where
  "set_blocker bid P f db = db\<lparr>blockers := update_where (\<lambda>b. bl_id b = bid \<and> P (bl_state b)) f (blockers db)\<rparr>"

definition resolved_row :: "tx_env \<Rightarrow> BlockerResponseInput \<Rightarrow> Blocker \<Rightarrow> Blocker" where
  "resolved_row env inp b = b\<lparr>bl_state := BlockerResolved, bl_response_outcome := Some (bri_outcome inp),
     bl_response := Some (jsonValue (bri_response inp)), bl_responded_by := Some (bri_actor inp), bl_resolved_at := Some (env_now env)\<rparr>"

text \<open>The consequences a confirmation must name exactly: an error refuses the response, a
  changed set is disclosed anew (and committed) before the response is refused.\<close>

datatype confirmation = Refuse work_error | Refresh "Consequence list" | Confirmed

definition check_confirmation :: "BlockerResponseInput \<Rightarrow> Blocker \<Rightarrow> 'z work_db_scheme \<Rightarrow> confirmation" where
  "check_confirmation inp b db =
     (if bl_kind b \<noteq> ''consequence_confirmation'' then Confirmed
      else case bl_node_execution_id b of
        None \<Rightarrow> Refuse (WkInvalidTransition ''blocker has no node execution'')
      | Some nid \<Rightarrow>
          (case find (\<lambda>n. ne_id n = nid) (node_executions db) of
             None \<Rightarrow> Refuse (WkSnapshot ''no rows'')
           | Some n \<Rightarrow>
               (case consequencesForNodeTx (bl_attempt_id b) (ne_node_key n) nid db of
                  Inl e \<Rightarrow> Refuse e
                | Inr current \<Rightarrow>
                    if sortedIDs (bl_required_consequences b) \<noteq> sortedIDs current then Refresh current
                    else if sortedIDs current \<noteq> sort (bri_confirmed inp) then Refuse (WkConfirmation ''exact invocation set required'')
                    else Confirmed)))"

definition human_done :: "tx_env \<Rightarrow> string \<Rightarrow> json \<Rightarrow> ArtifactRef list \<Rightarrow> NodeExecution \<Rightarrow> NodeExecution" where
  "human_done env outcome response refs n =
     n\<lparr>ne_state := NodeSucceeded, ne_outcome := Some outcome, ne_summary := Some ''Human response received'',
       ne_output := Some response, ne_artifact_refs := refs, ne_reported_at := Some (env_now env),
       ne_finished_at := Some (env_now env)\<rparr>"

definition completeHumanNodeTx ::
  "tx_env \<Rightarrow> Blocker \<Rightarrow> uuid \<Rightarrow> string \<Rightarrow> json \<Rightarrow> ArtifactRef list \<Rightarrow> uuid \<Rightarrow> (work_error, 'z work_db_scheme, unit) tx" where
  "completeHumanNodeTx env b nodeID outcome response refs actorID db =
     (case find (\<lambda>n. ne_id n = nodeID) (node_executions db) of
        None \<Rightarrow> Inl (WkSnapshot ''no rows'')
      | Some node \<Rightarrow>
          if ne_state node \<noteq> NodeBlocked then Inl (WkInvalidTransition ''human node state'')
          else tx_bind (insert_links env (bl_work_item_id b) (bl_attempt_id b) nodeID
                 (map (\<lambda>r. (ar_artifact_id r, ''input'', ar_metadata r)) refs))
            (\<lambda>_. tx_bind (appendTimelineTx env (bl_work_item_id b) (bl_attempt_id b) nodeID ''blocker_resolved''
                   (JObj [(''nodeKey'', JStr (ne_node_key node)), (''outcome'', JStr outcome)]) refs actorID)
              (\<lambda>_. tx_bind (advanceGraphTx env \<lparr>ga_item = bl_work_item_id b, ga_attempt = bl_attempt_id b,
                     ga_node = node\<lparr>ne_state := NodeSucceeded, ne_outcome := Some outcome,
                       ne_summary := Some ''Human response received'', ne_output := Some response, ne_artifact_refs := refs\<rparr>,
                     ga_actor = actorID\<rparr>)
                (\<lambda>_. tx_return ())))
            (set_node nodeID (\<lambda>_. True) (human_done env outcome response refs) db))"

definition resume_confirmed ::
  "tx_env \<Rightarrow> BlockerResponseInput \<Rightarrow> Blocker \<Rightarrow> uuid \<Rightarrow> (work_error, 'z work_db_scheme, unit) tx" where
  "resume_confirmed env inp b nodeID db =
     (let db1 = set_node nodeID (\<lambda>s. s = NodeBlocked) (\<lambda>n. n\<lparr>ne_state := NodePending\<rparr>) db;
          db2 = set_run env (bl_attempt_id b) (\<lambda>s. s = RunAwaitingApproval) (\<lambda>r. r\<lparr>run_state := RunRunning\<rparr>) db1
      in appendTimelineTx env (bl_work_item_id b) (bl_attempt_id b) nodeID ''consequence_repetition_confirmed''
           (JObj [(''invocationIds'', JArr (map JStr (bri_confirmed inp)))]) [] (bri_actor inp) db2)"

text \<open>The result of the committed transaction: the answered blocker, or the error the code
  returns after committing the refreshed disclosure.\<close>

definition respond_blocker_tx ::
  "(raw_json \<Rightarrow> json \<Rightarrow> bool) \<Rightarrow> tx_env \<Rightarrow> BlockerResponseInput \<Rightarrow> (work_error, 'z work_db_scheme, work_error + Blocker) tx" where
  "respond_blocker_tx validates env inp db =
     (case find (\<lambda>b. bl_id b = bri_blocker_id inp) (blockers db) of
        None \<Rightarrow> Inl WkNotFound
      | Some b \<Rightarrow>
          (case check_response validates inp b db of
             Inl e \<Rightarrow> Inl e
           | Inr refs \<Rightarrow>
               (case check_confirmation inp b db of
                  Refuse e \<Rightarrow> Inl e
                | Refresh current \<Rightarrow>
                    Inr (Inl (WkConfirmation ''consequential action set changed''),
                         set_blocker (bl_id b) (\<lambda>s. s = BlockerOpen) (\<lambda>x. x\<lparr>bl_required_consequences := current\<rparr>) db)
                | Confirmed \<Rightarrow>
                    if bri_actor inp \<notin> set (identities db) then Inl WkConstraint
                    else (case bl_node_execution_id b of
                        None \<Rightarrow> Inl (WkInvalidTransition ''blocker has no node execution'')
                      | Some nid \<Rightarrow>
                          tx_bind (if bl_kind b = ''consequence_confirmation'' then resume_confirmed env inp b nid
                                   else completeHumanNodeTx env b nid (bri_outcome inp) (jsonValue (bri_response inp)) refs (bri_actor inp))
                            (\<lambda>_. tx_return (Inr (b\<lparr>bl_state := BlockerResolved, bl_response_outcome := Some (bri_outcome inp),
                                    bl_response := Some (jsonValue (bri_response inp))\<rparr>)))
                            (set_blocker (bl_id b) (\<lambda>_. True) (resolved_row env inp) db)))))"

definition RespondBlocker ::
  "(raw_json \<Rightarrow> json \<Rightarrow> bool) \<Rightarrow> bool \<Rightarrow> tx_env \<Rightarrow> BlockerResponseInput \<Rightarrow> 'z work_db_scheme
   \<Rightarrow> (work_error failure + Blocker) \<times> 'z work_db_scheme" where
  "RespondBlocker validates fault env inp db =
     (if bri_blocker_id inp = [] \<or> bri_actor inp = [] \<or> bri_outcome inp = []
      then (Inl (Fail (WkInvalidInput ''blocker, actor, and outcome are required'')), db)
      else case run_tx fault (respond_blocker_tx validates env inp) db of
        (Inl e, db') \<Rightarrow> (Inl e, db')
      | (Inr (Inl e), db') \<Rightarrow> (Inl (Fail e), db')
      | (Inr (Inr b), db') \<Rightarrow> (Inr b, db'))"

section \<open>Feedback and its deduction\<close>

record FeedbackInput =
  fi_work_item_id :: uuid
  fi_attempt_id :: uuid
  fi_actor :: uuid
  fi_category :: string
  fi_explanation :: string
  fi_corrected_result :: raw_json

definition deductValueTx :: "tx_env \<Rightarrow> Feedback \<Rightarrow> (work_error, 'z work_db_scheme, unit) tx" where
  "deductValueTx env f db =
     (case find (\<lambda>r. vl_work_item_id r = fb_work_item_id f \<and> vl_kind r = CompletionCredit) (value_ledger db) of
        None \<Rightarrow> Inr ((), db)
      | Some c \<Rightarrow>
          tx_bind (insert_ledger
            \<lparr>vl_cursor = next_seq (\<lambda>_. True) vl_cursor (value_ledger db),
             vl_id = env_uuid env ''value_ledger'' (length (value_ledger db)), vl_work_item_id = fb_work_item_id f,
             vl_attempt_id = fb_attempt_id f, vl_feedback_id = Some (fb_id f), vl_value_model_id = vl_value_model_id c,
             vl_kind = FeedbackDeduction, vl_amount = - vl_amount c, vl_currency = vl_currency c,
             vl_formula = vl_formula c, vl_created_at = env_now env\<rparr>)
            (\<lambda>inserted. if inserted
               then appendTimelineTx env (fb_work_item_id f) (fb_attempt_id f) [] ''value_deducted''
                      (JObj [(''currency'', JStr (vl_currency c)), (''estimated'', JBool True)]) [] (fb_created_by f)
               else tx_return ()) db)"

definition save_feedback_tx :: "tx_env \<Rightarrow> FeedbackInput \<Rightarrow> (work_error, 'z work_db_scheme, Feedback) tx" where
  "save_feedback_tx env inp db =
     (case (find (\<lambda>a. at_id a = fi_attempt_id inp \<and> at_work_item_id a = fi_work_item_id inp) (attempts db),
            find_run (fi_attempt_id inp) db) of
        (Some a, Some r) \<Rightarrow>
          if run_state r \<noteq> RunSucceeded then Inl (WkInvalidTransition ''feedback requires a completed attempt'')
          else
            let f = \<lparr>fb_id = env_uuid env ''feedback'' (length (feedback db)), fb_work_item_id = fi_work_item_id inp,
                     fb_attempt_id = fi_attempt_id inp, fb_category = fi_category inp,
                     fb_explanation = nullable (fi_explanation inp),
                     fb_corrected_result = (case fi_corrected_result inp of RawJson j \<Rightarrow> Some j | _ \<Rightarrow> None),
                     fb_created_by = fi_actor inp, fb_created_at = env_now env\<rparr>
            in if exists_row (\<lambda>x. fb_id x = fb_id f) (feedback db) \<or> \<not> item_exists (fb_work_item_id f) db
                  \<or> \<not> attempt_exists (fb_attempt_id f) db \<or> fb_created_by f \<notin> set (identities db)
               then Inl WkConstraint
               else tx_bind (deductValueTx env f)
                 (\<lambda>_. tx_bind (appendTimelineTx env (fi_work_item_id inp) (fi_attempt_id inp) [] ''feedback_recorded''
                        (JObj [(''category'', JStr (fi_category inp))]) [] (fi_actor inp))
                   (\<lambda>_. tx_return f)) (db\<lparr>feedback := feedback db @ [f]\<rparr>)
      | _ \<Rightarrow> Inl WkNotFound)"

definition SaveFeedback ::
  "bool \<Rightarrow> tx_env \<Rightarrow> FeedbackInput \<Rightarrow> 'z work_db_scheme \<Rightarrow> (work_error failure + Feedback) \<times> 'z work_db_scheme" where
  "SaveFeedback fault env inp db =
     (if fi_work_item_id inp = [] \<or> fi_attempt_id inp = [] \<or> fi_actor inp = [] \<or> fi_category inp = []
      then (Inl (Fail (WkInvalidInput ''item, attempt, actor, and category are required'')), db)
      else if fi_corrected_result inp = RawBad then (Inl (Fail (WkInvalidInput ''correctedResult must be valid JSON'')), db)
      else run_tx fault (save_feedback_tx env inp) db)"

section \<open>Revisions\<close>

record RevisionInput =
  ri_work_item_id :: uuid
  ri_actor :: uuid
  ri_feedback_id :: uuid
  ri_guidance :: string
  ri_confirmed :: "string list"

definition consequencesForItemQuery :: "uuid \<Rightarrow> 'z work_db_scheme \<Rightarrow> work_error + Consequence list" where
  "consequencesForItemQuery itemID db =
     scan_consequences (order_by (\<lambda>i. (iv_created_at i, iv_id i))
       (filter (\<lambda>i. consequential i
          \<and> invoked_by (\<lambda>n. exists_row (\<lambda>a. at_id a = ne_attempt_id n \<and> at_work_item_id a = itemID) (attempts db)) db i)
        (invocations db)))"

definition ConsequencesForItem :: "uuid \<Rightarrow> 'z work_db_scheme \<Rightarrow> work_error + Consequence list" where
  "ConsequencesForItem itemID db =
     (if \<not> item_exists itemID db then Inl WkNotFound else consequencesForItemQuery itemID db)"

text \<open>The read before the transaction: the definition of the current attempt that the
  feedback is about, and that attempt.\<close>

definition revision_target :: "RevisionInput \<Rightarrow> 'z work_db_scheme \<Rightarrow> work_error + Attempt" where
  "revision_target inp db =
     (case find (\<lambda>f. fb_id f = ri_feedback_id inp \<and> fb_work_item_id f = ri_work_item_id inp) (feedback db) of
        None \<Rightarrow> Inl WkNotFound
      | Some f \<Rightarrow>
          (case (find (\<lambda>a. at_id a = fb_attempt_id f) (attempts db), find (\<lambda>w. wi_id w = fb_work_item_id f) (work_items db)) of
             (Some a, Some w) \<Rightarrow> if wi_current_attempt_id w = Some (fb_attempt_id f) then Inr a else Inl WkNotFound
           | _ \<Rightarrow> Inl WkNotFound))"

definition create_revision_tx ::
  "tx_env \<Rightarrow> RevisionInput \<Rightarrow> ResolvedDefinition \<Rightarrow> uuid \<Rightarrow> (work_error, 'z work_db_scheme, unit) tx" where
  "create_revision_tx env inp resolved current db =
     (case find (\<lambda>w. wi_id w = ri_work_item_id inp) (work_items db) of
        None \<Rightarrow> Inl (WkSnapshot ''no rows'')
      | Some w \<Rightarrow>
          if wi_current_attempt_id w \<noteq> Some current then Inl (WkConflict ''current attempt changed'')
          else (case find_run current db of
              None \<Rightarrow> Inl (WkSnapshot ''no rows'')
            | Some r \<Rightarrow>
                if run_state r \<noteq> RunSucceeded then Inl (WkInvalidTransition ''revision requires current item Done'')
                else (case consequencesForItemQuery (ri_work_item_id inp) db of
                    Inl e \<Rightarrow> Inl e
                  | Inr cs \<Rightarrow>
                      if sortedIDs cs \<noteq> sort (ri_confirmed inp) then Inl (WkConfirmation ''exact invocation set required'')
                      else
                        let number = next_seq (\<lambda>a. at_work_item_id a = ri_work_item_id inp) at_number (attempts db);
                            attemptID = env_uuid env ''attempts'' (length (attempts db))
                        in tx_bind (createAttemptTx env \<lparr>ca_id = attemptID, ca_work_item_id = ri_work_item_id inp,
                               ca_number = number, ca_actor = ri_actor inp, ca_initiating_human = [], ca_authorization_source = [],
                               ca_authorization_api_key = [], ca_authorization_session = [], ca_resolved = resolved,
                               ca_source = RawJson (wi_source w), ca_source_artifacts = sourceArtifactsTx (ri_work_item_id inp) db,
                               ca_revised_from = current, ca_revision_feedback_id = ri_feedback_id inp,
                               ca_guidance = ri_guidance inp, ca_confirmation = sort (ri_confirmed inp)\<rparr>)
                             (\<lambda>_ db1. appendTimelineTx env (ri_work_item_id inp) attemptID [] ''revision_requested''
                                (JObj [(''attemptNumber'', json_nat number), (''feedbackId'', JStr (ri_feedback_id inp))]) [] (ri_actor inp)
                                (set_current_attempt env (ri_work_item_id inp) attemptID db1)) db)))"

text \<open>\<open>between\<close> is what other transactions do between the read and the transaction.\<close>

definition CreateRevision ::
  "(raw_json \<Rightarrow> bool) \<Rightarrow> bool \<Rightarrow> tx_env \<Rightarrow> ('z work_db_scheme \<Rightarrow> 'z work_db_scheme) \<Rightarrow> RevisionInput \<Rightarrow> 'z work_db_scheme
   \<Rightarrow> (work_error failure + WorkItem) \<times> 'z work_db_scheme" where
  "CreateRevision compiles fault env between inp db =
     (if ri_work_item_id inp = [] \<or> ri_actor inp = [] \<or> ri_feedback_id inp = [] \<or> ri_guidance inp = []
      then (Inl (Fail (WkInvalidInput ''item, actor, feedback, and actionable guidance are required'')), db)
      else case revision_target inp db of
        Inl e \<Rightarrow> (Inl (Fail e), db)
      | Inr a \<Rightarrow>
          (case resolveForAttempt compiles (at_definition_key a) (at_definition_version a) (wf db) of
             Inl e \<Rightarrow> (Inl (Fail (resolve_error e)), db)
           | Inr resolved \<Rightarrow>
               (case run_tx fault (create_revision_tx env inp resolved (at_id a)) (between db) of
                  (Inl e, db') \<Rightarrow> (Inl e, db')
                | (Inr _, db') \<Rightarrow>
                    (case GetWorkItem (ri_work_item_id inp) db' of
                       Inl e \<Rightarrow> (Inl (Fail e), db')
                     | Inr item \<Rightarrow> (Inr item, db')))))"

section \<open>Reads\<close>

definition GetBlocker :: "uuid \<Rightarrow> 'z work_db_scheme \<Rightarrow> work_error + Blocker" where
  "GetBlocker bid db = (case find (\<lambda>b. bl_id b = bid) (blockers db) of None \<Rightarrow> Inl WkNotFound | Some b \<Rightarrow> Inr b)"

definition OpenBlockerForItem :: "uuid \<Rightarrow> 'z work_db_scheme \<Rightarrow> work_error + Blocker" where
  "OpenBlockerForItem itemID db =
     (case find (\<lambda>b. bl_work_item_id b = itemID \<and> bl_state b = BlockerOpen) (blockers db) of
        None \<Rightarrow> Inl WkNotFound | Some b \<Rightarrow> Inr b)"

definition with_revision :: "'z work_db_scheme \<Rightarrow> Feedback \<Rightarrow> Feedback \<times> uuid option" where
  "with_revision db f = (f, map_option at_id (find (\<lambda>a. at_revision_feedback_id a = Some (fb_id f)) (attempts db)))"

definition ListFeedback :: "uuid \<Rightarrow> 'z work_db_scheme \<Rightarrow> work_error + (Feedback \<times> uuid option) list" where
  "ListFeedback itemID db =
     (if \<not> item_exists itemID db then Inl WkNotFound
      else Inr (map (with_revision db)
             (order_by (\<lambda>f. (fb_created_at f, fb_id f)) (filter (\<lambda>f. fb_work_item_id f = itemID) (feedback db)))))"

definition GetFeedback :: "uuid \<Rightarrow> uuid \<Rightarrow> 'z work_db_scheme \<Rightarrow> work_error + Feedback \<times> uuid option" where
  "GetFeedback itemID feedbackID db =
     (case find (\<lambda>f. fb_work_item_id f = itemID \<and> fb_id f = feedbackID) (feedback db) of
        None \<Rightarrow> Inl WkNotFound | Some f \<Rightarrow> Inr (with_revision db f))"

section \<open>The context of an assignment\<close>

record ArtifactMaterialization =
  am_artifact_id :: string
  am_mime_type :: string
  am_size_bytes :: int
  am_digest :: string
  am_relative_path :: string

record AssignmentContext =
  ac_work_item_id :: uuid
  ac_attempt_id :: uuid
  ac_scope_identity_id :: uuid
  ac_agent_pool_key :: string
  ac_persona :: string
  ac_node :: NodeExecution
  ac_allowed_outcomes :: "string list"
  ac_output_schema :: raw_json
  ac_skills :: "CanonicalSkill list"
  ac_tool_pins :: "(string \<times> string) list"
  ac_materializations :: "ArtifactMaterialization list"

fun materialize :: "ArtifactRow list \<Rightarrow> work_error + ArtifactMaterialization list" where
  "materialize [] = Inr []"
| "materialize (a # as) =
     (case (af_size_bytes a, af_digest a) of
        (Some bytes, Some digest) \<Rightarrow>
          (case materialize as of
             Inl e \<Rightarrow> Inl e
           | Inr ms \<Rightarrow> Inr (\<lparr>am_artifact_id = af_id a, am_mime_type = af_mime_type a, am_size_bytes = bytes,
                              am_digest = digest, am_relative_path = ''inputs/'' @ af_id a\<rparr> # ms))
      | _ \<Rightarrow> Inl (WkSnapshot ''artifact column is null''))"

text \<open>The available artifacts linked to the node as source or input, each once, by identifier.\<close>

definition node_inputs :: "uuid \<Rightarrow> 'z work_db_scheme \<Rightarrow> ArtifactRow list" where
  "node_inputs nodeID db =
     order_by af_id (filter (\<lambda>a. af_state a = ''available''
        \<and> exists_row (\<lambda>l. al_artifact_id l = af_id a \<and> al_node_execution_id l = Some nodeID \<and> al_role l \<in> {''source'', ''input''})
            (artifact_links db)) (artifacts db))"

definition GetAssignmentContext :: "uuid \<Rightarrow> 'z work_db_scheme \<Rightarrow> work_error + AssignmentContext" where
  "GetAssignmentContext nodeExecutionID db =
     (case find (\<lambda>n. ne_id n = nodeExecutionID) (node_executions db) of
        None \<Rightarrow> Inl WkNotFound
      | Some ne \<Rightarrow>
          (case (find (\<lambda>a. at_id a = ne_attempt_id ne) (attempts db), find_run (ne_attempt_id ne) db) of
             (Some a, Some r) \<Rightarrow>
               (case find (\<lambda>d. d_id d = at_definition_id a) (definitions (wf db)) of
                  None \<Rightarrow> Inl WkNotFound
                | Some d \<Rightarrow>
                    (case d_spec_json d of
                       SpecDoc spec \<Rightarrow>
                         (case findNode (at_graph a) (ne_node_key ne) of
                            None \<Rightarrow> Inl WkNotFound
                          | Some def \<Rightarrow>
                              (case materialize (node_inputs nodeExecutionID db) of
                                 Inl e \<Rightarrow> Inl e
                               | Inr ms \<Rightarrow> Inr
                                   \<lparr>ac_work_item_id = at_work_item_id a, ac_attempt_id = at_id a,
                                    ac_scope_identity_id = run_scope_identity_id r, ac_agent_pool_key = d_pool_key d,
                                    ac_persona = cp_persona_name (sp_presentation spec), ac_node = ne,
                                    ac_allowed_outcomes = n_outcomes def, ac_output_schema = jsonOrObject (n_output_schema def),
                                    ac_skills = ne_skills ne,
                                    ac_tool_pins = map (\<lambda>p. (tp_tool_name p, tp_digest p))
                                      (order_by tp_tool_name (filter (\<lambda>p. tp_attempt_id p = at_id a) (attempt_tool_pins db))),
                                    ac_materializations = ms\<rparr>))
                     | _ \<Rightarrow> Inl (WkSnapshot ''spec_json'')))
           | _ \<Rightarrow> Inl WkNotFound))"

section \<open>Value models\<close>

record ValueModelInput =
  vmi_ref :: string
  vmi_version :: string
  vmi_currency :: string
  vmi_baseline_seconds :: int
  vmi_loaded_hourly_cost :: string
  vmi_assumptions :: raw_json
  vmi_explanation :: raw_json

text \<open>\<open>[0-9]+(\.[0-9]{1,6})?\<close> in millionths.\<close>

definition exact_money :: "string \<Rightarrow> int option" where
  "exact_money s =
     (let whole = takeWhile is_digit s; rest = dropWhile is_digit s in
      if whole = [] then None
      else case rest of
        [] \<Rightarrow> Some (digits_value 0 whole * 1000000)
      | c # fr \<Rightarrow>
          if c = CHR ''.'' \<and> list_all is_digit fr \<and> 1 \<le> length fr \<and> length fr \<le> 6
          then Some (digits_value 0 whole * 1000000 + digits_value 0 fr * 10 ^ (6 - length fr))
          else None)"

definition validateValueModelInput :: "ValueModelInput \<Rightarrow> work_error + int" where
  "validateValueModelInput inp =
     (if vmi_ref inp = [] \<or> vmi_version inp = [] \<or> vmi_currency inp = [] \<or> vmi_baseline_seconds inp \<le> 0
         \<or> vmi_loaded_hourly_cost inp = [] then Inl (WkInvalidInput ''ref, version, currency, baselineSeconds, and loadedHourlyCost are required'')
      else case exact_money (vmi_loaded_hourly_cost inp) of
        None \<Rightarrow> Inl (WkInvalidInput ''currency and loadedHourlyCost'')
      | Some cost \<Rightarrow>
          if \<not> is_currency (vmi_currency inp) \<or> cost \<le> 0 then Inl (WkInvalidInput ''currency and loadedHourlyCost'')
          else if vmi_assumptions inp = RawBad \<or> vmi_explanation inp = RawBad
            then Inl (WkInvalidInput ''assumptions and explanation must be valid JSON'')
          else Inr cost)"

definition CreateValueModel ::
  "bool \<Rightarrow> tx_env \<Rightarrow> ValueModelInput \<Rightarrow> 'z work_db_scheme \<Rightarrow> (work_error failure + ValueModel) \<times> 'z work_db_scheme" where
  "CreateValueModel fault env inp db =
     (case validateValueModelInput inp of
        Inl e \<Rightarrow> (Inl (Fail e), db)
      | Inr cost \<Rightarrow> run_tx fault (\<lambda>db.
          let v = \<lparr>vm_id = env_uuid env ''value_models'' (length (value_models db)), vm_ref = vmi_ref inp,
                   vm_version = vmi_version inp, vm_currency = vmi_currency inp,
                   vm_baseline_seconds = vmi_baseline_seconds inp, vm_loaded_hourly_cost = cost,
                   vm_assumptions = jsonValue (vmi_assumptions inp), vm_explanation = jsonValue (vmi_explanation inp),
                   vm_created_at = env_now env\<rparr>
          in if 100000000000000000000 \<le> cost then Inl WkConstraint
             else if exists_row (\<lambda>x. vm_id x = vm_id v \<or> vm_ref x = vm_ref v \<and> vm_version x = vm_version v) (value_models db)
             then Inl (WkConflict ''value model ref/version already exists'')
             else Inr (v, db\<lparr>value_models := value_models db @ [v]\<rparr>)) db)"

end
