(* ===== verification/Work_Invariants.thy ===== *)
theory Work_Invariants
  imports Work_Commands "HOL-Library.Sublist"
begin

text \<open>
  The invariant of graph execution and its preservation by every statement and every operation
  of the work store and of the runtime that shares the database: the executions of an attempt
  are a walk along the edges of its immutable graph, in sequence, never more than the graph's
  transition limit allows, with at most one active node.
\<close>

section \<open>What the runtime leaves alone\<close>

text \<open>The turns of graph nodes, with the node and the run each is bound to.\<close>

definition bound_turns :: "'z runtime_db_scheme \<Rightarrow> (uuid \<times> uuid option \<times> uuid) list" where
  "bound_turns db = filter (\<lambda>(_, n, _). n \<noteq> None) (map (\<lambda>t. (turn_id t, turn_node_execution_id t, turn_run_id t)) (turns db))"

text \<open>The runtime changes none of the other tables, and no run loses its session.\<close>

definition run_session :: "Run \<Rightarrow> uuid \<times> string" where
  "run_session r = (run_id r, run_session_id r)"

definition rt_frame :: "'z runtime_db_scheme \<Rightarrow> 'z runtime_db_scheme \<Rightarrow> bool" where
  "rt_frame db db' \<longleftrightarrow> runtime_db.more db' = runtime_db.more db \<and> identities db' = identities db \<and> bound_turns db' = bound_turns db
     \<and> prefix (map run_session (runs db)) (map run_session (runs db'))"

lemma rt_frame_refl [simp]: "rt_frame db db"
  by (simp add: rt_frame_def)

lemma rt_frame_trans [trans]: "rt_frame a b \<Longrightarrow> rt_frame b c \<Longrightarrow> rt_frame a c"
  unfolding rt_frame_def by (elim conjE) (intro conjI; (simp | erule (1) prefix_order.trans))

lemma run_sessions_update:
  "map run_session (update_where P (transition_run_row now to) rs) = map run_session rs"
  "map run_session (finish_run_where now rid frm to rs) = map run_session rs"
  by (simp_all add: map_update_where run_session_def finish_run_where_def transition_run_row_def)

lemma bound_turns_settle:
  "bound_turns (db\<lparr>turns := update_where P (settle_turn_row now to) (turns db)\<rparr>) = bound_turns db"
  by (simp add: bound_turns_def map_update_where settle_turn_row_def)

lemma rt_frame_simps:
  "rt_frame db (db\<lparr>runs := runs db @ [x]\<rparr>)" "rt_frame db (db\<lparr>steps := y\<rparr>)" "rt_frame db (db\<lparr>events := z\<rparr>)"
  "rt_frame db (db\<lparr>runs := update_where Q (transition_run_row now st) (runs db)\<rparr>)"
  "rt_frame db (db\<lparr>runs := finish_run_where now rid frm st (runs db)\<rparr>)"
  "rt_frame db (db\<lparr>turns := update_where P (settle_turn_row now to) (turns db)\<rparr>)"
  "turn_node_execution_id t = None \<Longrightarrow> rt_frame db (db\<lparr>turns := turns db @ [t]\<rparr>)"
  by (simp_all add: rt_frame_def bound_turns_settle run_sessions_update) (simp_all add: bound_turns_def)

lemma appendEventTx_rt_frame:
  "appendEventTx now eid rid tid sid k p db1 = Inr (e, db') \<Longrightarrow> rt_frame db db1 \<Longrightarrow> rt_frame db db'"
  by (auto simp: appendEventTx_Inr intro: rt_frame_trans rt_frame_simps)

lemma insert_steps_rt_frame: "insert_steps now rid plan db = Inr (u, db') \<Longrightarrow> rt_frame db db'"
proof (induction now rid plan db rule: insert_steps.induct)
  case (2 now rid sid si rest db)
  then obtain db1 where one: "insert_step now sid rid si db = Inr ((), db1)" and rest: "insert_steps now rid rest db1 = Inr (u, db')"
    by (auto split: sum.splits)
  have "rt_frame db db1" using one by (auto simp: insert_step_def rt_frame_simps split: if_splits)
  then show ?case using "2.IH" [OF one refl rest] by (rule rt_frame_trans)
qed simp

lemma settle_turn_cas_rt_frame: "settle_turn_cas now eid tid to reason n db = Inr (t, db') \<Longrightarrow> rt_frame db db'"
  by (erule settle_turn_cas_okE) (erule appendEventTx_rt_frame, rule rt_frame_simps)

lemma settle_step_tx_rt_frame: "settle_step_tx now eid rid st reason db = Inr (u, db') \<Longrightarrow> rt_frame db db'"
  by (erule settle_step_tx_okE) (auto intro: rt_frame_simps elim!: appendEventTx_rt_frame)

lemma advanceRunAfterSettleTx_rt_frame:
  "advanceRunAfterSettleTx now eid rid reason db = Inr (st, db') \<Longrightarrow> rt_frame db db'"
  by (erule advanceRunAfterSettleTx_okE) (auto intro: rt_frame_simps elim!: appendEventTx_rt_frame)

lemma SettleTurnAndAdvance_rt_frame: "rt_frame db (snd (SettleTurnAndAdvance fault now e1 e2 e3 tid reason db))"
proof (rule outcome_invariant [where I = "rt_frame db", OF _ SettleTurnAndAdvance_rollback])
  fix st db' assume "SettleTurnAndAdvance fault now e1 e2 e3 tid reason db = (Inr st, db')"
  then show "rt_frame db db'"
    by (rule SettleTurnAndAdvance_okE)
       (meson rt_frame_trans settle_turn_cas_rt_frame settle_step_tx_rt_frame advanceRunAfterSettleTx_rt_frame)
qed simp

lemma transitionRun_rt_frame: "rt_frame db (snd (transitionRun fault now eid rid frm to k p db))"
  by (rule outcome_invariant [where I = "rt_frame db", OF _ transitionRun_rollback])
     (auto elim!: transitionRun_okE appendEventTx_rt_frame intro: rt_frame_simps)

lemma transitionStep_rt_frame: "rt_frame db (snd (transitionStep fault now eid sid frm to k p db))"
  by (rule outcome_invariant [where I = "rt_frame db", OF _ transitionStep_rollback])
     (auto elim!: transitionStep_okE appendEventTx_rt_frame intro: rt_frame_simps)

lemma StartTurn_rt_frame: "rt_frame db (snd (StartTurn fault now tid eid rid sid model db))"
  by (rule outcome_invariant [where I = "rt_frame db", OF _ StartTurn_rollback])
     (auto elim!: StartTurn_okE appendEventTx_rt_frame intro: rt_frame_simps)

lemma SettleTurn_rt_frame: "rt_frame db (snd (SettleTurn fault now eid tid reason n db))"
  by (rule outcome_invariant [where I = "rt_frame db", OF _ SettleTurn_rollback])
     (auto simp: SettleTurn_def run_tx_Inr split: option.splits intro: settle_turn_cas_rt_frame)

lemma AppendEvent_rt_frame: "rt_frame db (snd (AppendEvent fault now eid rid tid sid k p db))"
  unfolding AppendEvent_def
  by (rule run_tx_invariant [where I = "rt_frame db"]) (auto elim: appendEventTx_rt_frame)

lemma CreateRun_rt_frame: "rt_frame db (snd (CreateRun fault now rid sids inp db))"
  unfolding CreateRun_def
  by (rule run_tx_invariant [where I = "rt_frame db"])
     (auto simp: Let_def dest!: insert_steps_rt_frame intro: rt_frame_trans [OF rt_frame_simps(1)] split: if_splits sum.splits)

lemma rt_step_frame: "rt_step db db' \<Longrightarrow> rt_frame db db'"
  by (induction rule: rt_step.induct)
     (simp_all add: run_op_defs step_op_defs CreateRun_rt_frame transitionRun_rt_frame transitionStep_rt_frame
       StartTurn_rt_frame SettleTurn_rt_frame SettleTurnAndAdvance_rt_frame AppendEvent_rt_frame)

section \<open>The walk of an attempt\<close>

abbreviation active_node :: "NodeExecution \<Rightarrow> bool" where
  "active_node n \<equiv> ne_state n \<in> set active_node_states"

definition nodes_of :: "uuid \<Rightarrow> NodeExecution list \<Rightarrow> NodeExecution list" where
  "nodes_of aid ns = filter (\<lambda>n. ne_attempt_id n = aid) ns"

definition edges_of :: "uuid \<Rightarrow> GraphTransition list \<Rightarrow> GraphTransition list" where
  "edges_of aid ts = filter (\<lambda>t. gt_attempt_id t = aid \<and> \<not> gt_terminal t) ts"

text \<open>The transition from one execution to the next: the source's outcome, routed by the graph.\<close>

definition link_ok :: "CanonicalGraph \<Rightarrow> NodeExecution \<Rightarrow> GraphTransition \<Rightarrow> NodeExecution \<Rightarrow> bool" where
  "link_ok g n t m \<longleftrightarrow> gt_from t = ne_id n \<and> gt_to t = Some (ne_id m) \<and> ne_outcome n = Some (gt_outcome t)
     \<and> route g (ne_node_key n) (gt_outcome t) = Some (ne_node_key m, False)"

fun chain_ok :: "CanonicalGraph \<Rightarrow> NodeExecution list \<Rightarrow> GraphTransition list \<Rightarrow> bool" where
  "chain_ok g [] ts \<longleftrightarrow> ts = []"
| "chain_ok g [n] ts \<longleftrightarrow> ts = []"
| "chain_ok g (n # m # ns) ts \<longleftrightarrow> (case ts of [] \<Rightarrow> False | t # ts' \<Rightarrow> link_ok g n t m \<and> chain_ok g (m # ns) ts')"

lemma chain_ok_snoc:
  "chain_ok g (ns @ [n]) ts \<Longrightarrow> link_ok g n t m \<Longrightarrow> chain_ok g (ns @ [n, m]) (ts @ [t])"
proof (induction ns arbitrary: ts)
  case (Cons x ns)
  then show ?case by (cases ns) (auto split: list.splits)
qed simp

lemma chain_ok_length: "chain_ok g ns ts \<Longrightarrow> length ts = length ns - 1"
  by (induction g ns ts rule: chain_ok.induct) (auto split: list.splits)

lemma chain_ok_nth:
  "chain_ok g ns ts \<Longrightarrow> Suc i < length ns \<Longrightarrow> link_ok g (ns ! i) (ts ! i) (ns ! Suc i)"
proof (induction g ns ts arbitrary: i rule: chain_ok.induct)
  case (3 g n m ns ts)
  then obtain t ts' where ts: "ts = t # ts'" "link_ok g n t m" "chain_ok g (m # ns) ts'" by (auto split: list.splits)
  show ?case
  proof (cases i)
    case (Suc j)
    then show ?thesis using "3.IH" [OF ts(1) ts(3), of j] "3.prems"(2) ts(1) by simp
  qed (use ts in simp)
qed simp_all

text \<open>Every execution but the last one has its transition.\<close>

lemma chain_ok_sources: "chain_ok g ns ts \<Longrightarrow> map gt_from ts = map ne_id (butlast ns)"
  by (induction g ns ts rule: chain_ok.induct) (auto simp: link_ok_def split: list.splits)

lemma chain_ok_map:
  assumes "chain_ok g ns ts"
    and "\<And>n. n \<in> set ns \<Longrightarrow> ne_id (f n) = ne_id n \<and> ne_node_key (f n) = ne_node_key n"
    and "\<And>n. n \<in> set ns \<Longrightarrow> ne_id n \<in> gt_from ` set ts \<Longrightarrow> ne_outcome (f n) = ne_outcome n"
  shows "chain_ok g (map f ns) ts"
  using assms
proof (induction g ns ts rule: chain_ok.induct)
  case (3 g n m ns ts)
  then obtain t ts' where ts: "ts = t # ts'" "link_ok g n t m" "chain_ok g (m # ns) ts'" by (auto split: list.splits)
  have "chain_ok g (map f (m # ns)) ts'"
    by (rule "3.IH" [OF ts(1) ts(3)]) (use "3.prems" ts in auto)
  moreover have "link_ok g (f n) t (f m)"
    using ts(1,2) "3.prems"(2) [of n] "3.prems"(2) [of m] "3.prems"(3) [of n] by (auto simp: link_ok_def)
  ultimately show ?case using ts(1) by simp
qed simp_all

section \<open>The invariant\<close>

text \<open>The tables the invariant reads: the attempts with their graphs, the executions, the
  transitions, the turns bound to executions, and the blockers' executions.\<close>

fun enters_at :: "string \<Rightarrow> NodeExecution list \<Rightarrow> bool" where
  "enters_at k [] \<longleftrightarrow> True"
| "enters_at k (n # ns) \<longleftrightarrow> ne_node_key n = k"

lemma enters_at_snoc [simp]: "enters_at k (ns @ [m]) \<longleftrightarrow> (if ns = [] then ne_node_key m = k else enters_at k ns)"
  by (cases ns) auto

definition walk_ok :: "NodeExecution list \<Rightarrow> GraphTransition list \<Rightarrow> uuid \<times> CanonicalGraph \<Rightarrow> bool" where
  "walk_ok ns ts = (\<lambda>(aid, g).
     enters_at (g_entry_node g) (nodes_of aid ns)
     \<and> chain_ok g (nodes_of aid ns) (edges_of aid ts)
     \<and> int (length (edges_of aid ts)) \<le> max 0 (g_max_transitions g)
     \<and> map ne_seq (nodes_of aid ns) = [1..<Suc (length (nodes_of aid ns))])"

definition transition_ok :: "NodeExecution list \<Rightarrow> GraphTransition \<Rightarrow> bool" where
  "transition_ok ns t \<longleftrightarrow> (\<exists>n \<in> set ns. ne_id n = gt_from t \<and> ne_attempt_id n = gt_attempt_id t
     \<and> ne_outcome n = Some (gt_outcome t) \<and> \<not> active_node n)"

definition bound_ok :: "NodeExecution list \<Rightarrow> uuid option \<times> uuid \<Rightarrow> bool" where
  "bound_ok ns = (\<lambda>(n, aid). n = None \<or> (\<exists>x \<in> set ns. n = Some (ne_id x) \<and> ne_attempt_id x = aid))"

definition graph_tables_ok ::
  "(uuid \<times> CanonicalGraph) list \<Rightarrow> NodeExecution list \<Rightarrow> GraphTransition list
   \<Rightarrow> (uuid \<times> uuid option \<times> uuid) list \<Rightarrow> (uuid option \<times> uuid) list \<Rightarrow> bool" where
  "graph_tables_ok as ns ts bt bs \<longleftrightarrow>
     distinct (map fst as) \<and> distinct (map ne_id ns) \<and> distinct (map gt_from ts)
     \<and> ne_attempt_id ` set ns \<subseteq> fst ` set as
     \<and> (\<forall>a \<in> set as. walk_ok ns ts a)
     \<and> (\<forall>t \<in> set ts. transition_ok ns t)
     \<and> (\<forall>b \<in> set bt. bound_ok ns (snd b))
     \<and> (\<forall>b \<in> set bs. bound_ok ns b)"

definition attempt_graphs :: "'z work_db_scheme \<Rightarrow> (uuid \<times> CanonicalGraph) list" where
  "attempt_graphs db = map (\<lambda>a. (at_id a, at_graph a)) (attempts db)"

definition blocker_nodes :: "'z work_db_scheme \<Rightarrow> (uuid option \<times> uuid) list" where
  "blocker_nodes db = map (\<lambda>b. (bl_node_execution_id b, bl_attempt_id b)) (blockers db)"

definition graph_inv :: "'z work_db_scheme \<Rightarrow> bool" where
  "graph_inv db = graph_tables_ok (attempt_graphs db) (node_executions db) (graph_transitions db) (bound_turns db) (blocker_nodes db)"

section \<open>Changes of the tables\<close>

lemma nodes_of_update:
  assumes "\<And>n. P n \<Longrightarrow> ne_attempt_id (f n) = ne_attempt_id n"
  shows "nodes_of aid (update_where P f ns) = map (\<lambda>n. if P n then f n else n) (nodes_of aid ns)"
  unfolding nodes_of_def using assms by (simp add: filter_update_where) (simp add: update_where_def)

lemma bound_ok_update:
  assumes "\<And>n. P n \<Longrightarrow> ne_id (f n) = ne_id n \<and> ne_attempt_id (f n) = ne_attempt_id n" and "bound_ok ns b"
  shows "bound_ok (update_where P f ns) b"
proof (cases b)
  case (Pair n aid)
  show ?thesis
  proof (cases n)
    case (Some i)
    then obtain x where x: "x \<in> set ns" "ne_id x = i" "ne_attempt_id x = aid" using assms(2) Pair by (auto simp: bound_ok_def)
    have "(if P x then f x else x) \<in> set (update_where P f ns)" using x(1) by (simp add: update_where_def)
    moreover have "ne_id (if P x then f x else x) = i" "ne_attempt_id (if P x then f x else x) = aid" using x assms(1) by auto
    ultimately show ?thesis unfolding bound_ok_def Pair Some prod.case by blast
  qed (simp add: Pair bound_ok_def)
qed

lemma node_unique:
  assumes "distinct (map ne_id ns)" and "x \<in> set ns" "y \<in> set ns" "ne_id x = ne_id y"
  shows "x = y"
  using assms by (auto simp: distinct_map inj_on_def)

text \<open>Changing executions in place: identity, attempt, key and sequence stay, nothing becomes
  active again, and only an active execution changes its outcome.\<close>

lemma graph_tables_nodes_update:
  assumes ok: "graph_tables_ok as ns ts bt bs"
    and keep: "\<And>n. P n \<Longrightarrow> ne_id (f n) = ne_id n \<and> ne_attempt_id (f n) = ne_attempt_id n
      \<and> ne_node_key (f n) = ne_node_key n \<and> ne_seq (f n) = ne_seq n"
    and act: "\<And>n. n \<in> set ns \<Longrightarrow> P n \<Longrightarrow> active_node (f n) \<Longrightarrow> active_node n"
    and out: "\<And>n. n \<in> set ns \<Longrightarrow> P n \<Longrightarrow> \<not> active_node n \<Longrightarrow> ne_outcome (f n) = ne_outcome n"
  shows "graph_tables_ok as (update_where P f ns) ts bt bs"
proof -
  let ?f = "\<lambda>n. if P n then f n else n"
  have f: "ne_id (?f n) = ne_id n" "ne_attempt_id (?f n) = ne_attempt_id n" "ne_node_key (?f n) = ne_node_key n" "ne_seq (?f n) = ne_seq n" for n
    using keep by auto
  have src: "\<not> active_node n" if n: "n \<in> set ns" "ne_id n \<in> gt_from ` set ts" for n
  proof -
    obtain t where t: "t \<in> set ts" "gt_from t = ne_id n" using n(2) by auto
    then obtain m where m: "m \<in> set ns" "ne_id m = ne_id n" "\<not> active_node m"
      using ok unfolding graph_tables_ok_def transition_ok_def by metis
    have "distinct (map ne_id ns)" using ok unfolding graph_tables_ok_def by (elim conjE)
    from node_unique [OF this m(1) n(1) m(2)] m(3) show ?thesis by simp
  qed
  have walk: "walk_ok (update_where P f ns) ts a" if a: "a \<in> set as" for a
  proof -
    obtain aid g where [simp]: "a = (aid, g)" by (cases a)
    have old: "walk_ok ns ts (aid, g)" using ok a unfolding graph_tables_ok_def by auto
    have "chain_ok g (map ?f (nodes_of aid ns)) (edges_of aid ts)"
    proof (rule chain_ok_map)
      show "chain_ok g (nodes_of aid ns) (edges_of aid ts)" using old by (simp add: walk_ok_def)
    next
      fix n assume "n \<in> set (nodes_of aid ns)" "ne_id n \<in> gt_from ` set (edges_of aid ts)"
      then show "ne_outcome (?f n) = ne_outcome n" using src [of n] out [of n] by (auto simp: nodes_of_def edges_of_def)
    qed (use f in auto)
    moreover have "map ne_seq (map ?f (nodes_of aid ns)) = map ne_seq (nodes_of aid ns)" using f(4) by simp
    moreover have "enters_at k (map ?f (nodes_of aid ns)) = enters_at k (nodes_of aid ns)" for k
      using f(3) by (cases "nodes_of aid ns") auto
    ultimately show ?thesis using old by (simp add: walk_ok_def nodes_of_update keep del: upt_Suc map_map)
  qed
  have trans: "transition_ok (update_where P f ns) t" if t: "t \<in> set ts" for t
  proof -
    obtain n where n: "n \<in> set ns" "ne_id n = gt_from t" "ne_attempt_id n = gt_attempt_id t"
      "ne_outcome n = Some (gt_outcome t)" "\<not> active_node n"
      using ok t unfolding graph_tables_ok_def transition_ok_def by metis
    have "?f n \<in> set (update_where P f ns)" using n(1) by (simp add: update_where_def)
    moreover have "ne_outcome (?f n) = Some (gt_outcome t)" "\<not> active_node (?f n)"
      using n act [of n] out [of n] by auto
    ultimately show ?thesis unfolding transition_ok_def using f n(2,3) by metis
  qed
  have ids: "map ne_id (update_where P f ns) = map ne_id ns" by (rule map_update_where) (use keep in auto)
  have "ne_attempt_id ` set (update_where P f ns) = ne_attempt_id ` set ns"
    using map_update_where [of P ne_attempt_id f ns] keep by (metis list.set_map)
  then show ?thesis using ok walk trans bound_ok_update [of P f ns] keep unfolding graph_tables_ok_def ids by auto
qed

lemma graph_tables_okD:
  assumes "graph_tables_ok as ns ts bt bs"
  shows "distinct (map fst as)" "distinct (map ne_id ns)" "distinct (map gt_from ts)" "ne_attempt_id ` set ns \<subseteq> fst ` set as"
    "a \<in> set as \<Longrightarrow> walk_ok ns ts a" "t \<in> set ts \<Longrightarrow> transition_ok ns t"
    "b \<in> set bt \<Longrightarrow> bound_ok ns (snd b)" "b' \<in> set bs \<Longrightarrow> bound_ok ns b'"
  using assms unfolding graph_tables_ok_def by auto

lemma ok_mono:
  "set ns \<subseteq> set ns' \<Longrightarrow> transition_ok ns t \<Longrightarrow> transition_ok ns' t"
  "set ns \<subseteq> set ns' \<Longrightarrow> bound_ok ns b \<Longrightarrow> bound_ok ns' b"
  unfolding transition_ok_def bound_ok_def by (blast, auto split: prod.splits)

text \<open>A new attempt has no executions yet.\<close>

lemma graph_tables_attempt:
  assumes ok: "graph_tables_ok as ns ts bt bs" and fresh: "aid \<notin> fst ` set as"
  shows "graph_tables_ok (as @ [(aid, g)]) ns ts bt bs"
proof -
  note ok' = graph_tables_okD [OF ok]
  have "nodes_of aid ns = []" using ok'(4) fresh by (auto simp: nodes_of_def filter_empty_conv)
  moreover have "edges_of aid ts = []"
  proof -
    have "gt_attempt_id t \<noteq> aid" if "t \<in> set ts" for t
      using ok'(6) [OF that] ok'(4) fresh unfolding transition_ok_def by (metis image_eqI subsetD)
    then show ?thesis by (auto simp: edges_of_def filter_empty_conv)
  qed
  ultimately have "walk_ok ns ts (aid, g)" by (simp add: walk_ok_def)
  then show ?thesis using ok fresh unfolding graph_tables_ok_def by auto
qed

text \<open>The entry execution of an attempt that has none.\<close>

lemma graph_tables_entry:
  assumes ok: "graph_tables_ok as ns ts bt bs" and new: "ne_id m \<notin> ne_id ` set ns" "ne_attempt_id m \<in> fst ` set as"
    and first: "nodes_of (ne_attempt_id m) ns = []" "ne_seq m = 1" "(ne_attempt_id m, g) \<in> set as" "ne_node_key m = g_entry_node g"
  shows "graph_tables_ok as (ns @ [m]) ts bt bs"
proof -
  note ok' = graph_tables_okD [OF ok]
  have walk: "walk_ok (ns @ [m]) ts a" if a: "a \<in> set as" for a
  proof -
    obtain aid h where [simp]: "a = (aid, h)" by (cases a)
    have old: "walk_ok ns ts (aid, h)" using ok'(5) [OF a] by simp
    show ?thesis
    proof (cases "aid = ne_attempt_id m")
      case True
      then have "h = g" using a first(3) ok'(1) by (simp add: eq_key_imp_eq_value)
      then show ?thesis using True old first by (simp add: walk_ok_def nodes_of_def)
    next
      case False
      then show ?thesis using old by (simp add: walk_ok_def nodes_of_def)
    qed
  qed
  have "set ns \<subseteq> set (ns @ [m])" by auto
  note mono = ok_mono [OF this]
  show ?thesis unfolding graph_tables_ok_def
    using ok'(1-4) new walk mono(1) [OF ok'(6)] mono(2) [OF ok'(7)] mono(2) [OF ok'(8)] by auto
qed

text \<open>Following an edge: the source is the last execution because every other one already
  has its transition, which the unique index on the source refuses to repeat.\<close>

lemma graph_tables_edge:
  assumes ok: "graph_tables_ok as ns ts bt bs"
    and new: "ne_id m \<notin> ne_id ` set ns" "ne_attempt_id m = aid" "ne_seq m = Suc (length (nodes_of aid ns))"
    and n: "n \<in> set ns" "ne_attempt_id n = aid" "\<not> active_node n"
    and t: "gt_attempt_id t = aid" "\<not> gt_terminal t" "gt_from t \<notin> gt_from ` set ts"
    and link: "(aid, g) \<in> set as" "link_ok g n t m" "int (length (edges_of aid ts)) < g_max_transitions g"
  shows "graph_tables_ok as (ns @ [m]) (ts @ [t]) bt bs"
proof -
  note ok' = graph_tables_okD [OF ok]
  have walk_g: "walk_ok ns ts (aid, g)" by (rule ok'(5) [OF link(1)])
  then have chain: "chain_ok g (nodes_of aid ns) (edges_of aid ts)" and seq: "map ne_seq (nodes_of aid ns) = [1..<Suc (length (nodes_of aid ns))]"
    by (auto simp: walk_ok_def)
  have last: "nodes_of aid ns = butlast (nodes_of aid ns) @ [n]"
  proof -
    have mem: "n \<in> set (nodes_of aid ns)" using n by (simp add: nodes_of_def)
    then have "nodes_of aid ns \<noteq> []" by auto
    moreover have "n \<notin> set (butlast (nodes_of aid ns))"
    proof
      assume "n \<in> set (butlast (nodes_of aid ns))"
      then have "ne_id n \<in> set (map gt_from (edges_of aid ts))" unfolding chain_ok_sources [OF chain] by simp
      then show False using t(3) link(2) by (auto simp: edges_of_def link_ok_def)
    qed
    ultimately show ?thesis using mem by (metis append_butlast_last_id in_set_butlast_appendI last_in_set rotate1.simps(2) set_ConsD set_rotate1)
  qed
  have walk: "walk_ok (ns @ [m]) (ts @ [t]) a" if a: "a \<in> set as" for a
  proof (cases "fst a = aid")
    case True
    then have a_eq: "a = (aid, g)" using a link(1) ok'(1) by (metis eq_key_imp_eq_value prod.collapse)
    have "chain_ok g (nodes_of aid ns @ [m]) (edges_of aid ts @ [t])"
      using chain_ok_snoc [of g "butlast (nodes_of aid ns)" n "edges_of aid ts" t m] chain link(2) last by (metis append.assoc append_Cons append_Nil)
    moreover have "map ne_seq (nodes_of aid ns @ [m]) = [1..<Suc (length (nodes_of aid ns @ [m]))]"
      using seq new(3) by simp
    moreover have "enters_at (g_entry_node g) (nodes_of aid ns @ [m])" using walk_g last by (auto simp: walk_ok_def)
    ultimately show ?thesis unfolding a_eq walk_ok_def using new(2) t link(3) by (simp add: nodes_of_def edges_of_def)
  next
    case False
    then show ?thesis using ok'(5) [OF a] new(2) t by (cases a) (auto simp: walk_ok_def nodes_of_def edges_of_def)
  qed
  have "set ns \<subseteq> set (ns @ [m])" by auto
  note mono = ok_mono [OF this]
  have "transition_ok (ns @ [m]) t" unfolding transition_ok_def using n t link(2) by (auto simp: link_ok_def)
  moreover have "aid \<in> fst ` set as" using link(1) by force
  ultimately show ?thesis unfolding graph_tables_ok_def
    using ok'(1-4) new(1,2) t(3) walk mono(1) [OF ok'(6)] mono(2) [OF ok'(7)] mono(2) [OF ok'(8)] by auto
qed

lemma graph_tables_terminal:
  assumes ok: "graph_tables_ok as ns ts bt bs" and "gt_terminal t" "gt_from t \<notin> gt_from ` set ts" "transition_ok ns t"
  shows "graph_tables_ok as ns (ts @ [t]) bt bs"
proof -
  have "edges_of aid (ts @ [t]) = edges_of aid ts" for aid using assms(2) by (simp add: edges_of_def)
  then have "walk_ok ns (ts @ [t]) a = walk_ok ns ts a" for a by (simp add: walk_ok_def)
  then show ?thesis using assms unfolding graph_tables_ok_def by auto
qed

lemma graph_tables_turn: "graph_tables_ok as ns ts bt bs \<Longrightarrow> bound_ok ns (snd b) \<Longrightarrow> graph_tables_ok as ns ts (bt @ [b]) bs"
  unfolding graph_tables_ok_def by auto

lemma graph_tables_blocker: "graph_tables_ok as ns ts bt bs \<Longrightarrow> bound_ok ns b \<Longrightarrow> graph_tables_ok as ns ts bt (bs @ [b])"
  unfolding graph_tables_ok_def by auto

section \<open>Frames of the statements\<close>

lemma unchanged [simp]:
  "\<exists>x. db = db\<lparr>artifact_links := x\<rparr>" "\<exists>x. db = db\<lparr>value_ledger := x\<rparr>"
  "\<exists>x y. db = db\<lparr>value_ledger := x, timeline := y\<rparr>" "\<exists>x y. db\<lparr>value_ledger := v\<rparr> = db\<lparr>value_ledger := x, timeline := y\<rparr>"
  for db :: "'z work_db_scheme"
proof -
  show "\<exists>x. db = db\<lparr>artifact_links := x\<rparr>" by (rule exI [of _ "artifact_links db"]) simp
  show "\<exists>x. db = db\<lparr>value_ledger := x\<rparr>" by (rule exI [of _ "value_ledger db"]) simp
  show "\<exists>x y. db = db\<lparr>value_ledger := x, timeline := y\<rparr>"
    by (rule exI [of _ "value_ledger db"], rule exI [of _ "timeline db"]) simp
  show "\<exists>x y. db\<lparr>value_ledger := v\<rparr> = db\<lparr>value_ledger := x, timeline := y\<rparr>"
    by (rule exI [of _ v], rule exI [of _ "timeline db"]) simp
qed

lemma appendTimelineTx_frame:
  "appendTimelineTx env i a n c p r w db = Inr (u, db') \<Longrightarrow> \<exists>x. db' = db\<lparr>timeline := x\<rparr>"
  by (auto simp: appendTimelineTx_def Let_def split: if_splits)

lemma appendRuntimeEventTx_frame:
  "appendRuntimeEventTx env r t n k p db = Inr (u, db') \<Longrightarrow> \<exists>x. db' = db\<lparr>events := x\<rparr>"
  by (auto simp: appendRuntimeEventTx_def Let_def split: if_splits)

lemma insert_link_frame:
  "insert_link env f i a n r m db = Inr (u, db') \<Longrightarrow> \<exists>x. db' = db\<lparr>artifact_links := x\<rparr>"
  by (auto simp: insert_link_def Let_def simp del: exists_row_iff split: if_splits)

lemma insert_links_frame:
  "insert_links env i a n rs db = Inr (u, db') \<Longrightarrow> \<exists>x. db' = db\<lparr>artifact_links := x\<rparr>"
proof (induction env i a n rs db rule: insert_links.induct)
  case (1 env i a n db)
  then show ?case by (intro exI [of _ "artifact_links db"]) simp
next
  case (2 env i a n f r m rest db)
  then obtain j db1 where j: "json_column m = Some j" and one: "insert_link env f i a n r j db = Inr ((), db1)"
    and rest: "insert_links env i a n rest db1 = Inr (u, db')" by (auto split: option.splits sum.splits)
  from insert_link_frame [OF one] "2.IH" [OF j one refl rest] show ?case by auto
qed

lemma hand_over_frame: "hand_over env n ls db = Inr (u, db') \<Longrightarrow> \<exists>x. db' = db\<lparr>artifact_links := x\<rparr>"
proof (induction env n ls db rule: hand_over.induct)
  case (1 env n db)
  then show ?case by (intro exI [of _ "artifact_links db"]) simp
next
  case (2 env n l ls db)
  then obtain db1 where one: "insert_link env (al_artifact_id l) (al_work_item_id l) (al_attempt_id l) n ''input'' (al_metadata l) db = Inr ((), db1)"
    and rest: "hand_over env n ls db1 = Inr (u, db')" by (auto split: sum.splits)
  from insert_link_frame [OF one] "2.IH" [OF one refl rest] show ?case by auto
qed

lemma link_sources_frame: "link_sources env i a n rs db = Inr (u, db') \<Longrightarrow> \<exists>x. db' = db\<lparr>artifact_links := x\<rparr>"
proof (induction env i a n rs db rule: link_sources.induct)
  case (1 env i a n db)
  then show ?case by (intro exI [of _ "artifact_links db"]) simp
next
  case (2 env i a n r rs db)
  let ?role = "if ar_role r = [] then ''source'' else ar_role r"
  obtain m db1 where g: "ar_artifact_id r \<noteq> []" "exists_row (\<lambda>a. af_id a = ar_artifact_id r \<and> af_state a = ''available'') (artifacts db)"
    "json_column (ar_metadata r) = Some m"
    "\<not> exists_row (\<lambda>x. al_artifact_id x = ar_artifact_id r \<and> al_work_item_id x = i \<and> al_attempt_id x = a
        \<and> al_node_execution_id x = Some n \<and> al_role x = ?role) (artifact_links db)"
    "insert_link env (ar_artifact_id r) i a n ?role m db = Inr ((), db1)"
    and rest: "link_sources env i a n rs db1 = Inr (u, db')"
    using "2.prems" by (auto simp: Let_def simp del: exists_row_iff split: if_splits option.splits sum.splits)
  have "\<exists>x. db' = db1\<lparr>artifact_links := x\<rparr>"
    by (rule "2.IH" [OF g(1) _ g(3) refl g(4) g(5) refl rest]) (use g(2) in simp)
  with insert_link_frame [OF g(5)] show ?case by auto
qed

lemma pin_tools_frame: "pin_tools a p c names db = Inr (u, db') \<Longrightarrow> \<exists>x. db' = db\<lparr>attempt_tool_pins := x\<rparr>"
proof (induction a p c names db rule: pin_tools.induct)
  case (1 a p c db)
  then show ?case by (intro exI [of _ "attempt_tool_pins db"]) simp
next
  case (2 a p c name names db)
  then show ?case by (fastforce split: option.splits if_splits)
qed

lemma insert_ledger_frame: "insert_ledger r db = Inr (b, db') \<Longrightarrow> \<exists>x. db' = db\<lparr>value_ledger := x\<rparr>"
  by (auto simp: insert_ledger_def simp del: exists_row_iff split: if_splits)

lemma creditValueTx_frame: "creditValueTx env i a db = Inr (u, db') \<Longrightarrow> \<exists>x y. db' = db\<lparr>value_ledger := x, timeline := y\<rparr>"
  by (auto simp: creditValueTx_def tx_simps split: option.splits if_splits dest!: insert_ledger_frame appendTimelineTx_frame)

lemma insert_blocker_Inr:
  "insert_blocker b db = Inr (u, db') \<Longrightarrow> db' = db\<lparr>blockers := blockers db @ [b]\<rparr>"
  by (auto simp: insert_blocker_def split: if_splits)

lemma insert_transition_Inr:
  "insert_transition t db = Inr (u, db') \<longleftrightarrow>
     gt_from t \<notin> gt_from ` set (graph_transitions db) \<and> db' = db\<lparr>graph_transitions := graph_transitions db @ [t]\<rparr>"
  by (auto simp: insert_transition_def intro: rev_image_eqI dest: sym)

lemma insertNodeExecutionTx_okE:
  assumes "insertNodeExecutionTx env aid def v q ctx ms spec db = Inr (nid, db')"
  obtains m where "insert_node_ok m db" "db' = db\<lparr>node_executions := node_executions db @ [m]\<rparr>"
    "ne_id m = nid" "ne_attempt_id m = aid" "ne_node_key m = n_key def" "ne_visit m = v" "ne_seq m = q" "ne_state m = NodePending"
    "ne_outcome m = None" "ne_kind m = n_kind def"
  using assms by (auto simp: insertNodeExecutionTx_def new_execution_def Let_def split: option.splits if_splits)

section \<open>Frames of the invariant\<close>

lemma graph_inv_frame [simp]:
  "graph_inv (db\<lparr>timeline := a\<rparr>) = graph_inv db" "graph_inv (db\<lparr>events := b\<rparr>) = graph_inv db"
  "graph_inv (db\<lparr>artifact_links := c\<rparr>) = graph_inv db" "graph_inv (db\<lparr>attempt_tool_pins := d\<rparr>) = graph_inv db"
  "graph_inv (db\<lparr>value_ledger := e\<rparr>) = graph_inv db" "graph_inv (db\<lparr>runs := f\<rparr>) = graph_inv db"
  "graph_inv (db\<lparr>run_principals := g\<rparr>) = graph_inv db" "graph_inv (db\<lparr>run_pools := h\<rparr>) = graph_inv db"
  "graph_inv (db\<lparr>work_items := i\<rparr>) = graph_inv db" "graph_inv (db\<lparr>feedback := j\<rparr>) = graph_inv db"
  "graph_inv (db\<lparr>value_models := k\<rparr>) = graph_inv db"
  by (simp_all add: graph_inv_def attempt_graphs_def blocker_nodes_def bound_turns_def)

lemma graph_inv_set_run [simp]: "graph_inv (set_run env rid P f db) = graph_inv db"
  by (simp add: set_run_def)

lemma graph_inv_set_attempt:
  assumes "\<And>a. at_id (f a) = at_id a \<and> at_graph (f a) = at_graph a"
  shows "graph_inv (set_attempt aid f db) = graph_inv db"
proof -
  have "attempt_graphs (set_attempt aid f db) = attempt_graphs db"
    unfolding attempt_graphs_def set_attempt_def using assms by (simp add: map_update_where)
  then show ?thesis by (simp add: graph_inv_def) (simp add: set_attempt_def blocker_nodes_def bound_turns_def)
qed

lemma graph_inv_set_turn [simp]: "graph_inv (set_turn env tid to db) = graph_inv db"
  unfolding graph_inv_def set_turn_def bound_turns_settle by (simp add: attempt_graphs_def blocker_nodes_def)

lemma graph_inv_set_blocker:
  assumes "\<And>b. bl_node_execution_id (f b) = bl_node_execution_id b \<and> bl_attempt_id (f b) = bl_attempt_id b"
  shows "graph_inv (set_blocker bid P f db) = graph_inv db"
proof -
  have "blocker_nodes (set_blocker bid P f db) = blocker_nodes db"
    unfolding blocker_nodes_def set_blocker_def using assms by (simp add: map_update_where)
  then show ?thesis by (simp add: graph_inv_def) (simp add: set_blocker_def attempt_graphs_def bound_turns_def)
qed

lemma graph_inv_set_node:
  assumes "graph_inv db"
    and "\<And>n. ne_id (f n) = ne_id n \<and> ne_attempt_id (f n) = ne_attempt_id n \<and> ne_node_key (f n) = ne_node_key n \<and> ne_seq (f n) = ne_seq n"
    and "\<And>n. n \<in> set (node_executions db) \<Longrightarrow> ne_id n = nid \<Longrightarrow> P (ne_state n) \<Longrightarrow> active_node (f n) \<Longrightarrow> active_node n"
    and "\<And>n. n \<in> set (node_executions db) \<Longrightarrow> ne_id n = nid \<Longrightarrow> P (ne_state n) \<Longrightarrow> \<not> active_node n \<Longrightarrow> ne_outcome (f n) = ne_outcome n"
  shows "graph_inv (set_node nid P f db)"
proof -
  have "graph_tables_ok (attempt_graphs db) (update_where (\<lambda>n. ne_id n = nid \<and> P (ne_state n)) f (node_executions db))
      (graph_transitions db) (bound_turns db) (blocker_nodes db)"
    by (rule graph_tables_nodes_update [OF assms(1) [unfolded graph_inv_def]]) (use assms(2-4) in auto)
  then show ?thesis by (simp add: graph_inv_def set_node_def attempt_graphs_def blocker_nodes_def bound_turns_def)
qed

lemma graph_inv_blocker:
  assumes "graph_inv db" and "bl_node_execution_id b = Some (ne_id n)" "bl_attempt_id b = ne_attempt_id n" "n \<in> set (node_executions db)"
  shows "graph_inv (db\<lparr>blockers := blockers db @ [b]\<rparr>)"
proof -
  have "graph_tables_ok (attempt_graphs db) (node_executions db) (graph_transitions db) (bound_turns db)
      (blocker_nodes db @ [(bl_node_execution_id b, bl_attempt_id b)])"
    by (rule graph_tables_blocker [OF assms(1) [unfolded graph_inv_def]]) (use assms(2-4) in \<open>auto simp: bound_ok_def\<close>)
  then show ?thesis by (simp add: graph_inv_def attempt_graphs_def blocker_nodes_def bound_turns_def)
qed

lemma graph_inv_turn:
  assumes "graph_inv db" and "turn_node_execution_id t = Some (ne_id n)" "turn_run_id t = ne_attempt_id n" "n \<in> set (node_executions db)"
  shows "graph_inv (db\<lparr>turns := turns db @ [t]\<rparr>)"
proof -
  have "graph_tables_ok (attempt_graphs db) (node_executions db) (graph_transitions db)
      (bound_turns db @ [(turn_id t, turn_node_execution_id t, turn_run_id t)]) (blocker_nodes db)"
    by (rule graph_tables_turn [OF assms(1) [unfolded graph_inv_def]]) (use assms(2-4) in \<open>auto simp: bound_ok_def\<close>)
  then show ?thesis using assms(2) by (simp add: graph_inv_def attempt_graphs_def blocker_nodes_def bound_turns_def)
qed

lemma graph_inv_node_unique:
  "graph_inv db \<Longrightarrow> x \<in> set (node_executions db) \<Longrightarrow> y \<in> set (node_executions db) \<Longrightarrow> ne_id x = ne_id y \<Longrightarrow> x = y"
  unfolding graph_inv_def by (rule node_unique [OF graph_tables_okD(2)])

section \<open>The operations keep the invariant\<close>

lemma block_on_consequences_inv:
  assumes inv: "graph_inv db" and n: "node \<in> set (node_executions db)" "ne_attempt_id node = aid" "active_node node"
    and run: "block_on_consequences env i aid node db = Inr (r, db')"
  shows "graph_inv db'"
proof (cases r)
  case None
  then show ?thesis using run inv by (auto simp: block_on_consequences_def Let_def split: sum.splits if_splits)
next
  case (Some b)
  then obtain cs db1 x where db1: "createConsequenceBlockerTx env i aid (ne_id node) cs db = Inr ((), db1)"
    and db': "db' = (set_run env aid (\<lambda>s. s \<in> {RunPending, RunRunning}) awaiting
        (set_node (ne_id node) (\<lambda>_. True) (\<lambda>n. n\<lparr>ne_state := NodeBlocked\<rparr>) db1))\<lparr>timeline := x\<rparr>"
    using run by (auto simp: block_on_consequences_def Let_def split: sum.splits if_splits dest!: appendTimelineTx_frame)
  have inv1: "graph_inv db1" "node_executions db1 = node_executions db"
    using insert_blocker_Inr [OF db1 [unfolded createConsequenceBlockerTx_def]] n(1,2)
    by (auto intro!: graph_inv_blocker [OF inv, of _ node])
  have "graph_inv (set_node (ne_id node) (\<lambda>_. True) (\<lambda>n. n\<lparr>ne_state := NodeBlocked\<rparr>) db1)"
    by (rule graph_inv_set_node [OF inv1(1)]) (use graph_inv_node_unique [OF inv _ n(1)] n(3) inv1(2) in auto)
  then show ?thesis by (simp add: db')
qed

lemma prepare_human_gate_inv:
  assumes inv: "graph_inv db" and n: "node \<in> set (node_executions db)" "ne_attempt_id node = aid" "active_node node"
    and run: "prepare_human_gate env i aid def node db = Inr (r, db')"
  shows "graph_inv db'"
proof (cases "ne_state node = NodePending")
  case False
  then show ?thesis using run inv by (simp add: prepare_human_gate_def)
next
  case True
  then obtain db1 x where db1: "createHumanBlockerTx env i aid (ne_id node) def db = Inr ((), db1)"
    and db': "db' = (set_run env aid (\<lambda>s. s \<in> {RunPending, RunRunning}) (started env RunAwaitingApproval)
        (set_node (ne_id node) (\<lambda>_. True) (node_started env NodeBlocked) db1))\<lparr>timeline := x\<rparr>"
    using run by (auto simp: prepare_human_gate_def Let_def split: sum.splits dest!: appendTimelineTx_frame)
  obtain b where b: "insert_blocker b db = Inr ((), db1)" "bl_node_execution_id b = Some (ne_id node)" "bl_attempt_id b = ne_attempt_id node"
    using db1 n(2) by (auto simp: createHumanBlockerTx_def split: option.splits if_splits)
  have inv1: "graph_inv db1" "node_executions db1 = node_executions db"
    using insert_blocker_Inr [OF b(1)] graph_inv_blocker [OF inv b(2,3) n(1)] by auto
  have "graph_inv (set_node (ne_id node) (\<lambda>_. True) (node_started env NodeBlocked) db1)"
    by (rule graph_inv_set_node [OF inv1(1)])
      (use graph_inv_node_unique [OF inv _ n(1)] n(3) inv1(2) in \<open>auto simp: node_started_def\<close>)
  then show ?thesis by (simp add: db')
qed

lemma start_agent_turn_okE:
  assumes "start_agent_turn env i aid node db = Inr ((n', t), db')"
  obtains m r x y where "ne_model node = Some m" "ms_id m \<noteq> []" "find_run aid db = Some r" "insert_turn_ok t db"
    "turn_node_execution_id t = Some (ne_id node)" "turn_run_id t = aid" "turn_state t = TurnRunning" "turn_model t = Some (ms_id m)"
    "db' = (set_run env aid (\<lambda>s. s \<in> {RunPending, RunAwaitingApproval}) (started env RunRunning)
             (set_node (ne_id node) (\<lambda>s. s = NodePending) (node_started env NodeRunning)
                (db\<lparr>turns := turns db @ [t]\<rparr>)))\<lparr>events := x, timeline := y\<rparr>"
  using assms by (auto simp: start_agent_turn_def Let_def tx_simps split: option.splits if_splits
      dest!: appendTimelineTx_frame appendRuntimeEventTx_frame)

lemma start_agent_turn_inv:
  assumes inv: "graph_inv db" and n: "node \<in> set (node_executions db)" "ne_attempt_id node = aid" "active_node node"
    and run: "start_agent_turn env i aid node db = Inr (r, db')"
  shows "graph_inv db'"
proof -
  obtain t x y where t: "turn_node_execution_id t = Some (ne_id node)" "turn_run_id t = ne_attempt_id node"
    and db': "db' = (set_run env aid (\<lambda>s. s \<in> {RunPending, RunAwaitingApproval}) (started env RunRunning)
             (set_node (ne_id node) (\<lambda>s. s = NodePending) (node_started env NodeRunning)
                (db\<lparr>turns := turns db @ [t]\<rparr>)))\<lparr>events := x, timeline := y\<rparr>"
    using run n(2) by (cases r) (auto elim!: start_agent_turn_okE)
  have "graph_inv (set_node (ne_id node) (\<lambda>s. s = NodePending) (node_started env NodeRunning) (db\<lparr>turns := turns db @ [t]\<rparr>))"
    by (rule graph_inv_set_node [OF graph_inv_turn [OF inv t n(1)]])
      (use graph_inv_node_unique [OF inv _ n(1)] n(3) in \<open>auto simp: node_started_def active_node_states_def\<close>)
  then show ?thesis by (simp add: db')
qed

lemma map_sum_Inr_iff: "map_sum id f r = Inr y \<longleftrightarrow> (\<exists>x. r = Inr x \<and> y = f x)"
  by (cases r) auto

lemma block_on_consequences_None: "block_on_consequences env i aid node db = Inr (None, db') \<Longrightarrow> db' = db"
  by (auto simp: block_on_consequences_def Let_def split: sum.splits if_splits)

lemma ActiveNode_Inr:
  "ActiveNode aid db = Inr n \<Longrightarrow> n \<in> set (node_executions db) \<and> ne_attempt_id n = aid \<and> active_node n"
  by (auto simp: ActiveNode_def split: option.splits dest: find_SomeD)

lemma prepare_node_tx_inv:
  assumes inv: "graph_inv db" and run: "prepare_node_tx env aid db = Inr (r, db')"
  shows "graph_inv db'"
proof -
  obtain node where node: "ActiveNode aid db = Inr node" using run by (auto simp: prepare_node_tx_def split: sum.splits)
  note n = ActiveNode_Inr [OF node, THEN conjunct1] ActiveNode_Inr [OF node, THEN conjunct2, THEN conjunct1]
    ActiveNode_Inr [OF node, THEN conjunct2, THEN conjunct2]
  show ?thesis using run node inv
    by (auto simp: prepare_node_tx_def map_sum_Inr_iff split: sum.splits if_splits option.splits prod.splits
      dest: block_on_consequences_None block_on_consequences_inv [OF inv n] prepare_human_gate_inv [OF inv n] start_agent_turn_inv [OF inv n])
qed

lemma record_report_tx_inv:
  assumes inv: "graph_inv db" and run: "record_report_tx validates env tid report db = Inr (u, db')"
  shows "graph_inv db'"
proof -
  let ?set = "\<lambda>n refs. set_node (ne_id n) (\<lambda>s. s = NodeRunning) (report_row env report (jsonValue (cr_output report)) refs) db"
  obtain n :: NodeExecution and i refs ls where "insert_links env i (ne_attempt_id n) (ne_id n) ls (?set n refs) = Inr (u, db')"
    using run by (auto simp: record_report_tx_def split: option.splits if_splits sum.splits)
  then obtain x where db': "db' = (?set n refs)\<lparr>artifact_links := x\<rparr>" by (blast dest: insert_links_frame)
  have "graph_inv (?set n refs)"
    by (rule graph_inv_set_node [OF inv]) (auto simp: report_row_def active_node_states_def)
  then show ?thesis by (simp add: db')
qed

text \<open>The execution that completed, as the table has it when the graph advances.\<close>

definition advances_from :: "graphAdvanceInput \<Rightarrow> 'z work_db_scheme \<Rightarrow> NodeExecution \<Rightarrow> bool" where
  "advances_from inp db n \<longleftrightarrow> n \<in> set (node_executions db) \<and> ne_id n = ne_id (ga_node inp) \<and> ne_attempt_id n = ga_attempt inp
     \<and> ne_node_key n = ne_node_key (ga_node inp) \<and> ne_outcome n = ne_outcome (ga_node inp) \<and> \<not> active_node n"

lemma advance_terminal_inv:
  assumes inv: "graph_inv db" and n: "advances_from inp db n" "ne_outcome (ga_node inp) = Some outcome"
    and run: "advance_terminal env inp a outcome db = Inr (r, db')"
  shows "graph_inv db'"
proof -
  let ?t = "\<lparr>gt_attempt_id = ga_attempt inp, gt_from = ne_id (ga_node inp), gt_outcome = outcome, gt_to = None, gt_terminal = True,
    gt_created_at = env_now env\<rparr>"
  let ?db = "set_attempt (ga_attempt inp) (\<lambda>x. x\<lparr>at_finished_at := Some (env_now env)\<rparr>)
      (set_run env (ga_attempt inp) (\<lambda>_. True) (finish_run env RunSucceeded) db)"
  obtain x y z where fresh: "gt_from ?t \<notin> gt_from ` set (graph_transitions ?db)"
    and db': "db' = ?db\<lparr>graph_transitions := graph_transitions ?db @ [?t], value_ledger := x, timeline := y\<rparr>\<lparr>timeline := z\<rparr>"
    using run by (auto simp: advance_terminal_def Let_def tx_simps insert_transition_Inr dest!: creditValueTx_frame appendTimelineTx_frame)
  have inv': "graph_inv ?db" using inv by (subst graph_inv_set_attempt) auto
  have "transition_ok (node_executions ?db) ?t"
    unfolding transition_ok_def using n by (auto simp: advances_from_def set_attempt_def set_run_def intro!: bexI [of _ n])
  then have "graph_inv (?db\<lparr>graph_transitions := graph_transitions ?db @ [?t]\<rparr>)"
    using graph_tables_terminal [OF inv' [unfolded graph_inv_def] _ fresh]
    by (simp add: graph_inv_def attempt_graphs_def blocker_nodes_def bound_turns_def)
  then show ?thesis by (simp add: db')
qed

lemma advance_limit_inv:
  assumes inv: "graph_inv db" and run: "advance_limit env inp db = Inr (r, db')"
  shows "graph_inv db'"
  using run inv by (auto simp: advance_limit_def Let_def tx_simps graph_inv_set_attempt dest!: appendTimelineTx_frame)

lemma transition_count_edges: "transition_count aid db = length (edges_of aid (graph_transitions db))"
  by (simp add: transition_count_def rows_affected_def edges_of_def)

lemma advance_edge_okE:
  assumes "advance_edge env inp a spec outcome target db = Inr (r, db')"
  obtains def m x nid where "findNode (at_graph a) target = Some def" "insert_node_ok m db" "ne_id m = nid"
    "ne_attempt_id m = ga_attempt inp" "ne_node_key m = target" "ne_kind m = n_kind def" "ne_state m = NodePending" "ne_outcome m = None"
    "ne_visit m = next_seq (\<lambda>n. ne_attempt_id n = ga_attempt inp \<and> ne_node_key n = target) ne_visit (node_executions db)"
    "ne_seq m = next_seq (\<lambda>n. ne_attempt_id n = ga_attempt inp) ne_seq (node_executions db)"
    "ne_id (ga_node inp) \<notin> gt_from ` set (graph_transitions db)" "r = RunRunning"
    "db' = set_run env (ga_attempt inp) (\<lambda>s. s \<in> {RunRunning, RunAwaitingApproval}) (\<lambda>r. r\<lparr>run_state := RunRunning\<rparr>)
       (db\<lparr>node_executions := node_executions db @ [m], artifact_links := x,
          graph_transitions := graph_transitions db @ [\<lparr>gt_attempt_id = ga_attempt inp, gt_from = ne_id (ga_node inp),
             gt_outcome = outcome, gt_to = Some nid, gt_terminal = False, gt_created_at = env_now env\<rparr>]\<rparr>)"
proof -
  obtain def ctx nid db1 u db2 where def: "findNode (at_graph a) target = Some def"
    and ins: "insertNodeExecutionTx env (ga_attempt inp) def
        (next_seq (\<lambda>n. ne_attempt_id n = ga_attempt inp \<and> ne_node_key n = target) ne_visit (node_executions db))
        (next_seq (\<lambda>n. ne_attempt_id n = ga_attempt inp) ne_seq (node_executions db)) ctx (at_models a) spec db = Inr (nid, db1)"
    and hand: "hand_over env nid (handed_links (ga_attempt inp) (ne_id (ga_node inp)) db1) db1 = Inr (u, db2)"
    and rest: "ne_id (ga_node inp) \<notin> gt_from ` set (graph_transitions db2)" "r = RunRunning"
      "db' = set_run env (ga_attempt inp) (\<lambda>s. s \<in> {RunRunning, RunAwaitingApproval}) (\<lambda>r. r\<lparr>run_state := RunRunning\<rparr>)
        (db2\<lparr>graph_transitions := graph_transitions db2 @ [\<lparr>gt_attempt_id = ga_attempt inp, gt_from = ne_id (ga_node inp),
             gt_outcome = outcome, gt_to = Some nid, gt_terminal = False, gt_created_at = env_now env\<rparr>]\<rparr>)"
    using assms by (auto simp: advance_edge_def tx_simps insert_transition_Inr split: option.splits sum.splits)
  have key: "n_key def = target" using def by (auto simp: findNode_def dest: find_SomeD)
  show ?thesis using ins
  proof (rule insertNodeExecutionTx_okE)
    fix m assume m: "insert_node_ok m db" "db1 = db\<lparr>node_executions := node_executions db @ [m]\<rparr>" "ne_id m = nid"
      "ne_attempt_id m = ga_attempt inp" "ne_node_key m = n_key def"
      "ne_visit m = next_seq (\<lambda>n. ne_attempt_id n = ga_attempt inp \<and> ne_node_key n = target) ne_visit (node_executions db)"
      "ne_seq m = next_seq (\<lambda>n. ne_attempt_id n = ga_attempt inp) ne_seq (node_executions db)"
      "ne_state m = NodePending" "ne_outcome m = None" "ne_kind m = n_kind def"
    from hand_over_frame [OF hand] obtain x where "db2 = db1\<lparr>artifact_links := x\<rparr>" by blast
    with m rest show thesis by (intro that [of def m nid x]) (simp_all add: def key)
  qed
qed

lemma advance_edge_inv:
  assumes inv: "graph_inv db" and n: "advances_from inp db n" "ne_outcome (ga_node inp) = Some outcome"
    and a: "a \<in> set (attempts db)" "at_id a = ga_attempt inp"
    and rt: "route (at_graph a) (ne_node_key (ga_node inp)) outcome = Some (target, False)"
    and room: "int (transition_count (ga_attempt inp) db) < g_max_transitions (at_graph a)"
    and run: "advance_edge env inp a spec outcome target db = Inr (r, db')"
  shows "graph_inv db'"
  using run
proof (rule advance_edge_okE)
  fix def m x nid
  let ?t = "\<lparr>gt_attempt_id = ga_attempt inp, gt_from = ne_id (ga_node inp), gt_outcome = outcome, gt_to = Some nid,
    gt_terminal = False, gt_created_at = env_now env\<rparr>"
  assume m: "insert_node_ok m db" "ne_id m = nid" "ne_attempt_id m = ga_attempt inp" "ne_node_key m = target"
    "ne_seq m = next_seq (\<lambda>n. ne_attempt_id n = ga_attempt inp) ne_seq (node_executions db)"
    and fresh: "ne_id (ga_node inp) \<notin> gt_from ` set (graph_transitions db)"
    and db': "db' = set_run env (ga_attempt inp) (\<lambda>s. s \<in> {RunRunning, RunAwaitingApproval}) (\<lambda>r. r\<lparr>run_state := RunRunning\<rparr>)
       (db\<lparr>node_executions := node_executions db @ [m], artifact_links := x,
          graph_transitions := graph_transitions db @ [?t]\<rparr>)"
  note n' = n(1) [unfolded advances_from_def]
  have ag: "(ga_attempt inp, at_graph a) \<in> set (attempt_graphs db)" using a unfolding attempt_graphs_def by force
  have "walk_ok (node_executions db) (graph_transitions db) (ga_attempt inp, at_graph a)"
    by (rule graph_tables_okD(5) [OF inv [unfolded graph_inv_def] ag])
  then have seq: "ne_seq m = Suc (length (nodes_of (ga_attempt inp) (node_executions db)))"
    unfolding m(5) by (intro next_seq_gapless) (simp add: walk_ok_def nodes_of_def del: upt_Suc)
  have link: "link_ok (at_graph a) n ?t m" using n' n(2) m rt by (simp add: link_ok_def)
  have "graph_tables_ok (attempt_graphs db) (node_executions db @ [m]) (graph_transitions db @ [?t]) (bound_turns db) (blocker_nodes db)"
    by (rule graph_tables_edge [OF inv [unfolded graph_inv_def] _ m(3) seq _ _ _ _ _ _ ag link])
      (use m n' fresh room in \<open>auto simp: insert_node_ok_def transition_count_edges\<close>)
  then show ?thesis by (simp add: db' graph_inv_def attempt_graphs_def blocker_nodes_def bound_turns_def set_run_def)
qed

lemma advanceGraphTx_okE:
  assumes "advanceGraphTx env inp db = Inr (r, db')"
  obtains outcome a d spec def tl target trm where "ne_outcome (ga_node inp) = Some outcome"
    "a \<in> set (attempts db)" "at_id a = ga_attempt inp" "find (\<lambda>d. d_id d = at_definition_id a) (definitions (wf db)) = Some d"
    "d_spec_json d = SpecDoc spec" "findNode (at_graph a) (ne_node_key (ga_node inp)) = Some def" "n_kind def = ne_kind (ga_node inp)"
    "outcome \<in> set (n_outcomes def)" "route (at_graph a) (ne_node_key (ga_node inp)) outcome = Some (target, trm)"
    "trm \<Longrightarrow> advance_terminal env inp a outcome (db\<lparr>timeline := tl\<rparr>) = Inr (r, db')"
    "\<not> trm \<Longrightarrow> g_max_transitions (at_graph a) \<le> int (transition_count (ga_attempt inp) db) \<Longrightarrow>
       advance_limit env inp (db\<lparr>timeline := tl\<rparr>) = Inr (r, db')"
    "\<not> trm \<Longrightarrow> int (transition_count (ga_attempt inp) db) < g_max_transitions (at_graph a) \<Longrightarrow>
       advance_edge env inp a spec outcome target (db\<lparr>timeline := tl\<rparr>) = Inr (r, db')"
proof -
  obtain outcome a d spec def db1 u where g: "ne_outcome (ga_node inp) = Some outcome"
    "find (\<lambda>a. at_id a = ga_attempt inp) (attempts db) = Some a" "find (\<lambda>d. d_id d = at_definition_id a) (definitions (wf db)) = Some d"
    "d_spec_json d = SpecDoc spec" "findNode (at_graph a) (ne_node_key (ga_node inp)) = Some def" "n_kind def = ne_kind (ga_node inp)"
    "outcome \<in> set (n_outcomes def)"
    and tl: "appendTimelineTx env (ga_item inp) (ga_attempt inp) (ne_id (ga_node inp)) ''node_completed''
       (JObj [(''nodeKey'', JStr (ne_node_key (ga_node inp))), (''outcome'', JStr outcome),
              (''summary'', JStr (deref (ne_summary (ga_node inp)))), (''visit'', json_nat (ne_visit (ga_node inp)))])
       (ne_artifact_refs (ga_node inp)) (ga_actor inp) db = Inr (u, db1)"
    and rest: "(case route (at_graph a) (ne_node_key (ga_node inp)) outcome of None \<Rightarrow> Inl (WkSnapshot ''no route'')
       | Some (target, terminal) \<Rightarrow> if terminal then advance_terminal env inp a outcome db1
           else if g_max_transitions (at_graph a) \<le> int (transition_count (ga_attempt inp) db1) then advance_limit env inp db1
           else advance_edge env inp a spec outcome target db1) = Inr (r, db')"
    using assms by (auto simp: advanceGraphTx_def tx_simps split: option.splits spec_doc.splits if_splits)
  from appendTimelineTx_frame [OF tl] obtain x where db1: "db1 = db\<lparr>timeline := x\<rparr>" by blast
  then have "transition_count (ga_attempt inp) db1 = transition_count (ga_attempt inp) db" by (simp add: transition_count_def)
  with rest find_SomeD [OF g(2)] show thesis
    by (auto simp: db1 split: option.splits prod.splits if_splits intro: that [OF g(1) _ _ g(3-7)])
qed

lemma advanceGraphTx_inv:
  assumes inv: "graph_inv db" and n: "advances_from inp db n" and run: "advanceGraphTx env inp db = Inr (r, db')"
  shows "graph_inv db'"
  using run
proof (rule advanceGraphTx_okE)
  fix outcome a d spec def tl target trm
  assume g: "ne_outcome (ga_node inp) = Some outcome" "a \<in> set (attempts db)" "at_id a = ga_attempt inp"
    "route (at_graph a) (ne_node_key (ga_node inp)) outcome = Some (target, trm)"
    and t: "trm \<Longrightarrow> advance_terminal env inp a outcome (db\<lparr>timeline := tl\<rparr>) = Inr (r, db')"
    and l: "\<not> trm \<Longrightarrow> g_max_transitions (at_graph a) \<le> int (transition_count (ga_attempt inp) db) \<Longrightarrow>
       advance_limit env inp (db\<lparr>timeline := tl\<rparr>) = Inr (r, db')"
    and e: "\<not> trm \<Longrightarrow> int (transition_count (ga_attempt inp) db) < g_max_transitions (at_graph a) \<Longrightarrow>
       advance_edge env inp a spec outcome target (db\<lparr>timeline := tl\<rparr>) = Inr (r, db')"
  have inv': "graph_inv (db\<lparr>timeline := tl\<rparr>)" and n': "advances_from inp (db\<lparr>timeline := tl\<rparr>) n"
    using inv n by (simp_all add: advances_from_def)
  consider trm | "\<not> trm" "g_max_transitions (at_graph a) \<le> int (transition_count (ga_attempt inp) db)"
    | "\<not> trm" "int (transition_count (ga_attempt inp) db) < g_max_transitions (at_graph a)" by linarith
  then show ?thesis
  proof cases
    case 1
    then show ?thesis by (rule advance_terminal_inv [OF inv' n' g(1) t])
  next
    case 2
    then show ?thesis by (rule advance_limit_inv [OF inv' l])
  next
    case 3
    then show ?thesis
      using advance_edge_inv [OF inv' n' g(1) _ g(3) _ _ e [OF 3]] g(2,4) by (simp add: transition_count_def)
  qed
qed

lemma fail_turn_tx_inv:
  assumes inv: "graph_inv db" and run: "fail_turn_tx env t node i reason cf opf db = Inr (r, db')"
  shows "graph_inv db'"
proof -
  have "graph_inv (set_node (ne_id node) (\<lambda>_. True) (\<lambda>n. n\<lparr>ne_state := NodeFailed, ne_finished_at := Some (env_now env)\<rparr>)
      (set_turn env (turn_id t) to db))" for to
    by (rule graph_inv_set_node) (use inv in \<open>auto simp: active_node_states_def\<close>)
  then show ?thesis using run
    by (auto simp: fail_turn_tx_def Let_def tx_simps graph_inv_set_attempt dest!: appendTimelineTx_frame)
qed

lemma find_turn_bound:
  assumes inv: "graph_inv db" and t: "find_turn tid db = Some t" "turn_node_execution_id t = Some (ne_id n)" "n \<in> set (node_executions db)"
  shows "turn_run_id t = ne_attempt_id n"
proof -
  have "(turn_id t, Some (ne_id n), turn_run_id t) \<in> set (bound_turns db)"
    using t(2) find_SomeD [OF t(1) [unfolded find_turn_def]] unfolding bound_turns_def by force
  from graph_tables_okD(7) [OF inv [unfolded graph_inv_def] this] obtain x where
    "x \<in> set (node_executions db)" "ne_id n = ne_id x" "ne_attempt_id x = turn_run_id t" by (auto simp: bound_ok_def)
  then show ?thesis using graph_inv_node_unique [OF inv _ t(3)] by metis
qed

lemma complete_turn_tx_okE:
  assumes "complete_turn_tx env tid reason cf opf db = Inr (r, db')"
  obtains t node a where "find_turn tid db = Some t" "turn_node_execution_id t = Some (ne_id node)" "node \<in> set (node_executions db)"
    "at_id a = ne_attempt_id node" "a \<in> set (attempts db)" "turn_state t = TurnRunning"
    "reason \<noteq> ''completed'' \<or> ne_outcome node = None \<or> ne_reported_at node = None \<Longrightarrow>
       fail_turn_tx env t node (at_work_item_id a) reason cf opf db = Inr (r, db')"
    "reason = ''completed'' \<Longrightarrow> ne_outcome node \<noteq> None \<Longrightarrow> ne_reported_at node \<noteq> None \<Longrightarrow>
       advanceGraphTx env \<lparr>ga_item = at_work_item_id a, ga_attempt = turn_run_id t, ga_node = node, ga_actor = []\<rparr>
         (set_node (ne_id node) (\<lambda>_. True) (\<lambda>n. n\<lparr>ne_state := NodeSucceeded, ne_finished_at := Some (env_now env)\<rparr>)
            (set_turn env tid TurnSucceeded db)) = Inr (r, db')"
proof -
  obtain t node a where g: "find_turn tid db = Some t"
    "find (\<lambda>n. turn_node_execution_id t = Some (ne_id n)) (node_executions db) = Some node"
    "find (\<lambda>a. at_id a = ne_attempt_id node) (attempts db) = Some a" "turn_state t = TurnRunning"
    using assms by (auto simp: complete_turn_tx_def split: option.splits if_splits)
  note n = find_SomeD [OF g(2), THEN conjunct1] find_SomeD [OF g(2), THEN conjunct2]
  note a = find_SomeD [OF g(3), THEN conjunct1] find_SomeD [OF g(3), THEN conjunct2]
  note run = assms [unfolded complete_turn_tx_def g option.case Let_def]
  show thesis by (rule that [OF g(1) n(2,1) a(2,1) g(4)]) (use run g(4) in \<open>auto split: if_splits\<close>)
qed

lemma complete_turn_tx_inv:
  assumes inv: "graph_inv db" and run: "complete_turn_tx env tid reason cf opf db = Inr (r, db')"
  shows "graph_inv db'"
  using run
proof (rule complete_turn_tx_okE)
  fix t :: Turn and node :: NodeExecution and a :: Attempt
  let ?done = "\<lambda>n. n\<lparr>ne_state := NodeSucceeded, ne_finished_at := Some (env_now env)\<rparr>"
  let ?inp = "\<lparr>ga_item = at_work_item_id a, ga_attempt = turn_run_id t, ga_node = node, ga_actor = []\<rparr>"
  let ?db = "set_node (ne_id node) (\<lambda>_. True) ?done (set_turn env tid TurnSucceeded db)"
  assume t: "find_turn tid db = Some t" "turn_node_execution_id t = Some (ne_id node)" "node \<in> set (node_executions db)"
    and f: "reason \<noteq> ''completed'' \<or> ne_outcome node = None \<or> ne_reported_at node = None \<Longrightarrow>
       fail_turn_tx env t node (at_work_item_id a) reason cf opf db = Inr (r, db')"
    and adv: "reason = ''completed'' \<Longrightarrow> ne_outcome node \<noteq> None \<Longrightarrow> ne_reported_at node \<noteq> None \<Longrightarrow>
       advanceGraphTx env ?inp ?db = Inr (r, db')"
  show ?thesis
  proof (cases "reason \<noteq> ''completed'' \<or> ne_outcome node = None \<or> ne_reported_at node = None")
    case True
    then show ?thesis by (rule fail_turn_tx_inv [OF inv f])
  next
    case False
    have inv': "graph_inv ?db" by (rule graph_inv_set_node) (use inv in \<open>auto simp: active_node_states_def\<close>)
    have "advances_from ?inp ?db (?done node)"
      using find_turn_bound [OF inv t] t(3)
      by (auto simp: advances_from_def set_node_def set_turn_def set_update_where active_node_states_def)
    then show ?thesis by (rule advanceGraphTx_inv [OF inv' _ adv]) (use False in auto)
  qed
qed

lemma resume_confirmed_inv:
  assumes inv: "graph_inv db" and run: "resume_confirmed env inp b nid db = Inr (u, db')"
  shows "graph_inv db'"
proof -
  have "graph_inv (set_node nid (\<lambda>s. s = NodeBlocked) (\<lambda>n. n\<lparr>ne_state := NodePending\<rparr>) db)"
    by (rule graph_inv_set_node [OF inv]) (auto simp: active_node_states_def)
  then show ?thesis using run by (auto simp: resume_confirmed_def Let_def dest!: appendTimelineTx_frame)
qed

lemma completeHumanNodeTx_okE:
  assumes "completeHumanNodeTx env b nid outcome response refs actor db = Inr (u, db')"
  obtains node x y r where "node \<in> set (node_executions db)" "ne_id node = nid" "ne_state node = NodeBlocked"
    "advanceGraphTx env \<lparr>ga_item = bl_work_item_id b, ga_attempt = bl_attempt_id b,
       ga_node = node\<lparr>ne_state := NodeSucceeded, ne_outcome := Some outcome, ne_summary := Some ''Human response received'',
         ne_output := Some response, ne_artifact_refs := refs\<rparr>, ga_actor = actor\<rparr>
       ((set_node nid (\<lambda>_. True) (human_done env outcome response refs) db)\<lparr>artifact_links := x, timeline := y\<rparr>) = Inr (r, db')"
  using assms by (auto simp: completeHumanNodeTx_def tx_simps split: option.splits if_splits
      dest!: find_SomeD insert_links_frame appendTimelineTx_frame)

lemma completeHumanNodeTx_inv:
  assumes inv: "graph_inv db" and b: "(Some nid, bl_attempt_id b) \<in> set (blocker_nodes db)"
    and run: "completeHumanNodeTx env b nid outcome response refs actor db = Inr (u, db')"
  shows "graph_inv db'"
  using run
proof (rule completeHumanNodeTx_okE)
  fix node :: NodeExecution and x y r
  let ?db = "(set_node nid (\<lambda>_. True) (human_done env outcome response refs) db)\<lparr>artifact_links := x, timeline := y\<rparr>"
  assume node: "node \<in> set (node_executions db)" "ne_id node = nid" "ne_state node = NodeBlocked"
    and adv: "advanceGraphTx env \<lparr>ga_item = bl_work_item_id b, ga_attempt = bl_attempt_id b,
       ga_node = node\<lparr>ne_state := NodeSucceeded, ne_outcome := Some outcome, ne_summary := Some ''Human response received'',
         ne_output := Some response, ne_artifact_refs := refs\<rparr>, ga_actor = actor\<rparr> ?db = Inr (r, db')"
  note uniq = graph_inv_node_unique [OF inv _ node(1)]
  obtain z where "z \<in> set (node_executions db)" "ne_id z = nid" "ne_attempt_id z = bl_attempt_id b"
    using graph_tables_okD(8) [OF inv [unfolded graph_inv_def] b] by (auto simp: bound_ok_def)
  then have att: "ne_attempt_id node = bl_attempt_id b" using uniq node(2) by metis
  have only: "n = node" if "n \<in> set (node_executions db)" "ne_id n = nid" for n using uniq [OF that(1)] that(2) node(2) by simp
  have "graph_inv (set_node nid (\<lambda>_. True) (human_done env outcome response refs) db)"
    by (rule graph_inv_set_node [OF inv]) (auto simp: human_done_def active_node_states_def node(3) dest!: only)
  then have inv': "graph_inv ?db" by simp
  show ?thesis
    by (rule advanceGraphTx_inv [OF inv' _ adv, of "human_done env outcome response refs node"])
      (use node att in \<open>auto simp: advances_from_def human_done_def set_node_def set_update_where active_node_states_def\<close>)
qed

lemma respond_blocker_tx_inv:
  assumes inv: "graph_inv db" and run: "respond_blocker_tx validates env inp db = Inr (r, db')"
  shows "graph_inv db'"
proof -
  obtain b where find: "find (\<lambda>b. bl_id b = bri_blocker_id inp) (blockers db) = Some b"
    using run by (auto simp: respond_blocker_tx_def split: option.splits)
  have keep: "graph_inv (set_blocker bid P (\<lambda>x. x\<lparr>bl_required_consequences := cs\<rparr>) db)" for bid P cs
    using inv by (subst graph_inv_set_blocker) auto
  have inv': "graph_inv (set_blocker (bl_id b) (\<lambda>_. True) (resolved_row env inp) db)"
    using inv by (subst graph_inv_set_blocker) (auto simp: resolved_row_def)
  have "(bl_node_execution_id b, bl_attempt_id b) \<in> set (blocker_nodes db)"
    using find_SomeD [OF find] by (auto simp: blocker_nodes_def)
  moreover have "blocker_nodes (set_blocker (bl_id b) (\<lambda>_. True) (resolved_row env inp) db) = blocker_nodes db"
    unfolding blocker_nodes_def set_blocker_def by (simp add: map_update_where resolved_row_def)
  ultimately have mem: "(bl_node_execution_id b, bl_attempt_id b) \<in> set (blocker_nodes (set_blocker (bl_id b) (\<lambda>_. True) (resolved_row env inp) db))"
    by simp
  show ?thesis
  proof (cases "\<exists>cs. check_confirmation inp b db = Refresh cs")
    case True
    then show ?thesis using run keep by (auto simp: respond_blocker_tx_def find split: sum.splits)
  next
    case False
    let ?db = "set_blocker (bl_id b) (\<lambda>_. True) (resolved_row env inp) db"
    obtain nid refs u where nid: "bl_node_execution_id b = Some nid"
      and run': "(if bl_kind b = ''consequence_confirmation'' then resume_confirmed env inp b nid
        else completeHumanNodeTx env b nid (bri_outcome inp) (jsonValue (bri_response inp)) refs (bri_actor inp)) ?db = Inr (u, db')"
      using run False by (auto simp: respond_blocker_tx_def find tx_simps split: option.splits sum.splits confirmation.splits if_splits)
    show ?thesis using run' resume_confirmed_inv [OF inv'] completeHumanNodeTx_inv [OF inv' mem [unfolded nid]]
      by (simp split: if_splits)
  qed
qed

section \<open>New attempts, feedback and value models\<close>

lemma insert_run_row_frame:
  "insert_run_row env inp db = Inr (u, db') \<Longrightarrow> \<exists>x y. db' = db\<lparr>runs := runs db @ [x], run_principals := y\<rparr>"
  unfolding insert_run_row_def Let_def by (auto split: option.splits if_splits)

lemma insert_run_pool_frame: "insert_run_pool env rid pid db = Inr (u, db') \<Longrightarrow> \<exists>x. db' = db\<lparr>run_pools := x\<rparr>"
  unfolding insert_run_pool_def by (auto split: if_splits)

lemma insert_attempt_row_okE:
  assumes "insert_attempt_row env inp models vm db = Inr (u, db')"
  obtains a where "db' = db\<lparr>attempts := attempts db @ [a]\<rparr>" "at_id a = ca_id inp" "at_graph a = sp_graph (rd_spec (ca_resolved inp))"
    "at_work_item_id a = ca_work_item_id inp" "at_number a = ca_number inp" "at_value_model_id a = fst vm" "at_value_snapshot a = snd vm"
    "\<not> attempt_exists (ca_id inp) db"
    "\<not> exists_row (\<lambda>x. at_work_item_id x = ca_work_item_id inp \<and> at_number x = ca_number inp) (attempts db)"
    "item_exists (ca_work_item_id inp) db"
  using assms unfolding insert_attempt_row_def Let_def by (auto simp del: exists_row_iff split: if_splits)

lemma createAttemptTx_okE:
  assumes "createAttemptTx env inp db = Inr (u, db')"
  obtains vm a m p q w x y z entry where "item_value_model inp db = Inr vm"
    "at_id a = ca_id inp" "at_graph a = sp_graph (rd_spec (ca_resolved inp))"
    "at_work_item_id a = ca_work_item_id inp" "at_number a = ca_number inp" "at_value_model_id a = fst vm" "at_value_snapshot a = snd vm"
    "\<not> attempt_exists (ca_id inp) db"
    "\<not> exists_row (\<lambda>x. at_work_item_id x = ca_work_item_id inp \<and> at_number x = ca_number inp) (attempts db)"
    "item_exists (ca_work_item_id inp) db"
    "findNode (at_graph a) (g_entry_node (at_graph a)) = Some entry" "ne_kind m = n_kind entry"
    "ne_attempt_id m = ca_id inp" "ne_node_key m = g_entry_node (at_graph a)" "ne_seq m = 1" "ne_visit m = 1" "ne_state m = NodePending"
    "ne_id m \<notin> ne_id ` set (node_executions db)"
    "db' = db\<lparr>runs := runs db @ [p], run_principals := q, attempts := attempts db @ [a], run_pools := w, attempt_tool_pins := x,
              node_executions := node_executions db @ [m], artifact_links := y, timeline := z\<rparr>"
proof -
  obtain poolID models vm entry u1 db1 u2 db2 u3 db3 u4 db4 nid db5 u6 db6
    where vm: "item_value_model inp db = Inr vm"
    and s1: "insert_run_row env inp db = Inr (u1, db1)" and s2: "insert_attempt_row env inp models vm db1 = Inr (u2, db2)"
    and s3: "insert_run_pool env (ca_id inp) poolID db2 = Inr (u3, db3)"
    and s4: "snapshotToolsTx (ca_id inp) poolID (rd_requested_capabilities (ca_resolved inp)) db3 = Inr (u4, db4)"
    and entry: "findNode (sp_graph (rd_spec (ca_resolved inp))) (g_entry_node (sp_graph (rd_spec (ca_resolved inp)))) = Some entry"
    and s5: "insertNodeExecutionTx env (ca_id inp) entry 1 1 (initial_context inp) models (rd_spec (ca_resolved inp)) db4 = Inr (nid, db5)"
    and s6: "link_sources env (ca_work_item_id inp) (ca_id inp) nid (ca_source_artifacts inp) db5 = Inr (u6, db6)"
    and s7: "appendTimelineTx env (ca_work_item_id inp) (ca_id inp) nid ''attempt_created''
        (JObj [(''attemptNumber'', json_nat (ca_number inp)), (''definitionVersion'', JStr (d_version (rd_definition (ca_resolved inp))))])
        [] (ca_actor inp) db6 = Inr (u, db')"
    using assms by (auto simp: createAttemptTx_def Let_def tx_simps split: sum.splits option.splits)
  have key: "n_key entry = g_entry_node (sp_graph (rd_spec (ca_resolved inp)))"
    using entry by (auto simp: findNode_def dest: find_SomeD)
  from insert_run_row_frame [OF s1] obtain p q where d1: "db1 = db\<lparr>runs := runs db @ [p], run_principals := q\<rparr>" by blast
  from s2 obtain a where a: "db2 = db1\<lparr>attempts := attempts db1 @ [a]\<rparr>" "at_id a = ca_id inp"
    "at_graph a = sp_graph (rd_spec (ca_resolved inp))" "at_work_item_id a = ca_work_item_id inp" "at_number a = ca_number inp"
    "at_value_model_id a = fst vm" "at_value_snapshot a = snd vm" "\<not> attempt_exists (ca_id inp) db1"
    "\<not> exists_row (\<lambda>x. at_work_item_id x = ca_work_item_id inp \<and> at_number x = ca_number inp) (attempts db1)"
    "item_exists (ca_work_item_id inp) db1"
    by (rule insert_attempt_row_okE)
  from insert_run_pool_frame [OF s3] obtain w where d3: "db3 = db2\<lparr>run_pools := w\<rparr>" by blast
  from pin_tools_frame [OF s4 [unfolded snapshotToolsTx_def]] obtain x where d4: "db4 = db3\<lparr>attempt_tool_pins := x\<rparr>" by blast
  from s5 obtain m where m: "insert_node_ok m db4" "db5 = db4\<lparr>node_executions := node_executions db4 @ [m]\<rparr>"
    "ne_attempt_id m = ca_id inp" "ne_node_key m = n_key entry" "ne_visit m = 1" "ne_seq m = 1" "ne_state m = NodePending" "ne_kind m = n_kind entry"
    by (rule insertNodeExecutionTx_okE)
  from link_sources_frame [OF s6] obtain y where d6: "db6 = db5\<lparr>artifact_links := y\<rparr>" by blast
  from appendTimelineTx_frame [OF s7] obtain z where d7: "db' = db6\<lparr>timeline := z\<rparr>" by blast
  show thesis
    by (rule that [of vm a entry m z y x w q p])
      (use vm a m key entry in \<open>auto simp: d1 d3 d4 d6 d7 insert_node_ok_def\<close>)
qed

lemma createAttemptTx_inv:
  assumes inv: "graph_inv db" and run: "createAttemptTx env inp db = Inr (u, db')"
  shows "graph_inv db'"
  using run
proof (rule createAttemptTx_okE)
  fix vm and a :: Attempt and m :: NodeExecution and p q w x y z and entry :: CanonicalNode
  assume a: "at_id a = ca_id inp" "\<not> attempt_exists (ca_id inp) db"
    and m: "ne_attempt_id m = ca_id inp" "ne_node_key m = g_entry_node (at_graph a)" "ne_seq m = 1" "ne_id m \<notin> ne_id ` set (node_executions db)"
    and db': "db' = db\<lparr>runs := runs db @ [p], run_principals := q, attempts := attempts db @ [a], run_pools := w, attempt_tool_pins := x,
              node_executions := node_executions db @ [m], artifact_links := y, timeline := z\<rparr>"
  have fresh: "ca_id inp \<notin> fst ` set (attempt_graphs db)" using a(2) by (auto simp: attempt_graphs_def)
  have none: "nodes_of (ca_id inp) (node_executions db) = []"
    using graph_tables_okD(4) [OF inv [unfolded graph_inv_def]] fresh by (force simp: nodes_of_def filter_empty_conv)
  have "graph_tables_ok (attempt_graphs db @ [(ca_id inp, at_graph a)]) (node_executions db @ [m]) (graph_transitions db) (bound_turns db)
      (blocker_nodes db)"
    by (rule graph_tables_entry [OF graph_tables_attempt [OF inv [unfolded graph_inv_def] fresh]]) (use m none in auto)
  then show ?thesis by (simp add: db' graph_inv_def attempt_graphs_def blocker_nodes_def bound_turns_def a(1))
qed

lemma start_tx_okE:
  assumes "start_tx compiles env inp refs hash db = Inr ((iid, created), db')"
  obtains (replay) w where "\<not> created" "db' = db" "find (start_key inp) (work_items db) = Some w" "wi_id w = iid" "wi_start_payload_hash w = hash"
    | (fresh) resolved w db1 ca tl where "created" "find (start_key inp) (work_items db) = None"
      "resolveForAttempt compiles (sti_workflow_key inp) (sti_workflow_version inp) (wf db) = Inr resolved"
      "createAttemptTx env ca (db\<lparr>work_items := work_items db @ [w]\<rparr>) = Inr ((), db1)"
      "wi_id w = iid" "start_key inp w" "wi_start_payload_hash w = hash" "wi_current_attempt_id w = None"
      "ca_work_item_id ca = iid" "ca_number ca = 1" "ca_resolved ca = resolved"
      "db' = (set_current_attempt env iid (ca_id ca) db1)\<lparr>timeline := tl\<rparr>"
proof (cases "find (start_key inp) (work_items db)")
  case (Some w)
  then show ?thesis using assms by (intro replay) (auto simp: start_tx_def split: if_splits)
next
  case None
  obtain resolved db0 db1 u ca where r: "resolveForAttempt compiles (sti_workflow_key inp) (sti_workflow_version inp) (wf db) = Inr resolved"
    and i: "insert_item_row env iid inp resolved hash db = Inr (u, db0)" and c: "createAttemptTx env ca db0 = Inr ((), db1)"
    and ca: "ca_work_item_id ca = iid" "ca_number ca = 1" "ca_resolved ca = resolved" and created
    and t: "appendTimelineTx env iid (ca_id ca) [] ''work_item_created''
       (JObj [(''title'', JStr (sti_title inp)), (''workflowKey'', JStr (sti_workflow_key inp))]) refs (sti_actor inp)
       (set_current_attempt env iid (ca_id ca) db1) = Inr ((), db')"
    using assms None by (auto simp: start_tx_def Let_def tx_simps split: sum.splits)
  from i obtain w where db0: "db0 = db\<lparr>work_items := work_items db @ [w]\<rparr>"
    and w: "wi_id w = iid" "start_key inp w" "wi_start_payload_hash w = hash" "wi_current_attempt_id w = None"
    by (auto simp: insert_item_row_def start_key_def Let_def split: option.splits if_splits)
  from appendTimelineTx_frame [OF t] obtain tl where "db' = (set_current_attempt env iid (ca_id ca) db1)\<lparr>timeline := tl\<rparr>" by blast
  then show ?thesis using r c ca None \<open>created\<close> w by (intro fresh) (simp_all add: db0)
qed

lemma start_tx_inv:
  assumes inv: "graph_inv db" and run: "start_tx compiles env inp refs hash db = Inr (r, db')"
  shows "graph_inv db'"
proof -
  obtain iid created where "r = (iid, created)" by (cases r)
  with run have "start_tx compiles env inp refs hash db = Inr ((iid, created), db')" by simp
  then show ?thesis
  proof (cases rule: start_tx_okE)
    case replay
    then show ?thesis using inv by simp
  next
    case (fresh resolved w db1 ca tl)
    then show ?thesis using createAttemptTx_inv [OF _ fresh(4)] inv by (simp add: set_current_attempt_def)
  qed
qed

lemma create_revision_tx_okE:
  assumes "create_revision_tx env inp resolved current db = Inr (u, db')"
  obtains w r cs ca db1 tl where "find (\<lambda>w. wi_id w = ri_work_item_id inp) (work_items db) = Some w" "wi_current_attempt_id w = Some current"
    "find_run current db = Some r" "run_state r = RunSucceeded" "consequencesForItemQuery (ri_work_item_id inp) db = Inr cs"
    "sortedIDs cs = sort (ri_confirmed inp)" "createAttemptTx env ca db = Inr ((), db1)" "ca_work_item_id ca = ri_work_item_id inp"
    "ca_number ca = next_seq (\<lambda>a. at_work_item_id a = ri_work_item_id inp) at_number (attempts db)" "ca_revised_from ca = current"
    "db' = (set_current_attempt env (ri_work_item_id inp) (ca_id ca) db1)\<lparr>timeline := tl\<rparr>"
proof -
  obtain w r cs ca db1 where g: "find (\<lambda>w. wi_id w = ri_work_item_id inp) (work_items db) = Some w" "wi_current_attempt_id w = Some current"
    "find_run current db = Some r" "run_state r = RunSucceeded" "consequencesForItemQuery (ri_work_item_id inp) db = Inr cs"
    "sortedIDs cs = sort (ri_confirmed inp)" "createAttemptTx env ca db = Inr ((), db1)" "ca_work_item_id ca = ri_work_item_id inp"
    "ca_number ca = next_seq (\<lambda>a. at_work_item_id a = ri_work_item_id inp) at_number (attempts db)" "ca_revised_from ca = current"
    and t: "appendTimelineTx env (ri_work_item_id inp) (ca_id ca) [] ''revision_requested''
      (JObj [(''attemptNumber'', json_nat (ca_number ca)), (''feedbackId'', JStr (ri_feedback_id inp))]) [] (ri_actor inp)
      (set_current_attempt env (ri_work_item_id inp) (ca_id ca) db1) = Inr (u, db')"
    using assms by (auto simp: create_revision_tx_def Let_def tx_simps split: sum.splits option.splits if_splits)
  from appendTimelineTx_frame [OF t] obtain tl where "db' = (set_current_attempt env (ri_work_item_id inp) (ca_id ca) db1)\<lparr>timeline := tl\<rparr>"
    by blast
  then show thesis by (rule that [OF g])
qed

lemma create_revision_tx_inv:
  assumes inv: "graph_inv db" and run: "create_revision_tx env inp resolved current db = Inr (u, db')"
  shows "graph_inv db'"
  using run by (rule create_revision_tx_okE) (auto simp: set_current_attempt_def dest: createAttemptTx_inv [OF inv])

lemma deductValueTx_frame: "deductValueTx env f db = Inr (u, db') \<Longrightarrow> \<exists>x y. db' = db\<lparr>value_ledger := x, timeline := y\<rparr>"
  by (auto simp: deductValueTx_def tx_simps split: option.splits if_splits dest!: insert_ledger_frame appendTimelineTx_frame)

lemma save_feedback_tx_okE:
  assumes "save_feedback_tx env inp db = Inr (f, db')"
  obtains a r db1 tl where "a \<in> set (attempts db)" "at_id a = fi_attempt_id inp" "at_work_item_id a = fi_work_item_id inp"
    "find_run (fi_attempt_id inp) db = Some r" "run_state r = RunSucceeded"
    "deductValueTx env f (db\<lparr>feedback := feedback db @ [f]\<rparr>) = Inr ((), db1)" "db' = db1\<lparr>timeline := tl\<rparr>"
    "fb_work_item_id f = fi_work_item_id inp" "fb_attempt_id f = fi_attempt_id inp"
proof -
  obtain a r where a: "find (\<lambda>a. at_id a = fi_attempt_id inp \<and> at_work_item_id a = fi_work_item_id inp) (attempts db) = Some a"
    and r: "find_run (fi_attempt_id inp) db = Some r" "run_state r = RunSucceeded"
    using assms by (auto simp: save_feedback_tx_def split: option.splits if_splits)
  have "\<exists>db1. deductValueTx env f (db\<lparr>feedback := feedback db @ [f]\<rparr>) = Inr ((), db1)
      \<and> appendTimelineTx env (fi_work_item_id inp) (fi_attempt_id inp) [] ''feedback_recorded''
          (JObj [(''category'', JStr (fi_category inp))]) [] (fi_actor inp) db1 = Inr ((), db')
      \<and> fb_work_item_id f = fi_work_item_id inp \<and> fb_attempt_id f = fi_attempt_id inp"
    using assms unfolding save_feedback_tx_def a r Let_def by (simp add: r(2) tx_simps split: if_splits) (elim exE conjE, simp)
  then show thesis using find_SomeD [OF a] r by (auto intro: that dest!: appendTimelineTx_frame)
qed

lemma save_feedback_tx_inv:
  assumes inv: "graph_inv db" and run: "save_feedback_tx env inp db = Inr (f, db')"
  shows "graph_inv db'"
  using run by (rule save_feedback_tx_okE) (use inv in \<open>auto dest!: deductValueTx_frame\<close>)

end
