(* ===== verification/Work_Steps.thy ===== *)
theory Work_Steps
  imports Work_Invariants "HOL-Library.Sublist"
begin

text \<open>
  The steps of the work store beside the runtime and the rest of the control plane, the value
  ledger's invariant, and what every step keeps: both invariants, the snapshots of the
  attempts, and the rows of the ledger.
\<close>

section \<open>The value ledger\<close>

text \<open>At most one row of each kind per work item, credits positive, deductions negative and the
  exact opposite of the credit of the same item, in the same currency.\<close>

definition ledger_key :: "LedgerRow \<Rightarrow> uuid \<times> LedgerKind" where
  "ledger_key r = (vl_work_item_id r, vl_kind r)"

definition ledger_ok :: "LedgerRow list \<Rightarrow> bool" where
  "ledger_ok l \<longleftrightarrow>
     distinct (map ledger_key l) \<and> distinct (map vl_id l)
     \<and> (\<forall>r \<in> set l. vl_kind r = CompletionCredit \<longrightarrow> 0 < vl_amount r)
     \<and> (\<forall>r \<in> set l. vl_kind r = FeedbackDeduction \<longrightarrow>
          (\<exists>c \<in> set l. vl_kind c = CompletionCredit \<and> vl_work_item_id c = vl_work_item_id r
             \<and> vl_amount r = - vl_amount c \<and> vl_currency r = vl_currency c))"

lemma ledger_ok_snoc:
  assumes "ledger_ok l" "ledger_key r \<notin> ledger_key ` set l" "vl_id r \<notin> vl_id ` set l"
    and "vl_kind r = CompletionCredit \<Longrightarrow> 0 < vl_amount r"
    and "vl_kind r = FeedbackDeduction \<Longrightarrow> \<exists>c \<in> set l. vl_kind c = CompletionCredit \<and> vl_work_item_id c = vl_work_item_id r
          \<and> vl_amount r = - vl_amount c \<and> vl_currency r = vl_currency c"
  shows "ledger_ok (l @ [r])"
  using assms unfolding ledger_ok_def by auto

lemma insert_ledger_Inr:
  assumes "insert_ledger r db = Inr (b, db')"
  shows "ledger_row_ok r db \<and> (value_ledger db' = value_ledger db
    \<or> ledger_key r \<notin> ledger_key ` set (value_ledger db) \<and> vl_id r \<notin> vl_id ` set (value_ledger db) \<and> value_ledger db' = value_ledger db @ [r])"
  using assms by (auto simp: insert_ledger_def ledger_key_def split: if_splits)

lemma ledger_entry_ledger:
  assumes "tx_bind (insert_ledger r) (\<lambda>inserted. if inserted then appendTimelineTx env i a n c p refs w else tx_return ()) db = Inr (u, db')"
  shows "\<exists>b db1. insert_ledger r db = Inr (b, db1) \<and> value_ledger db' = value_ledger db1"
  using assms by (auto simp: tx_simps split: if_splits dest!: appendTimelineTx_frame)

lemma creditValueTx_ledger:
  assumes ok: "ledger_ok (value_ledger db)" and run: "creditValueTx env i a db = Inr (u, db')"
  shows "ledger_ok (value_ledger db')"
proof -
  have "value_ledger db' = value_ledger db \<or> (\<exists>r b db1. insert_ledger r db = Inr (b, db1) \<and> value_ledger db' = value_ledger db1
      \<and> vl_kind r = CompletionCredit)"
    using run unfolding creditValueTx_def by (fastforce split: option.splits if_splits dest: ledger_entry_ledger)
  then show ?thesis
  proof (elim disjE exE conjE)
    fix r b db1 assume r: "insert_ledger r db = Inr (b, db1)" "value_ledger db' = value_ledger db1" "vl_kind r = CompletionCredit"
    then show ?thesis using insert_ledger_Inr [OF r(1)] ok by (auto simp: ledger_row_ok_def intro!: ledger_ok_snoc)
  qed (use ok in simp)
qed

lemma deductValueTx_ledger:
  assumes ok: "ledger_ok (value_ledger db)" and run: "deductValueTx env f db = Inr (u, db')"
  shows "ledger_ok (value_ledger db')"
proof (cases "find (\<lambda>r. vl_work_item_id r = fb_work_item_id f \<and> vl_kind r = CompletionCredit) (value_ledger db)")
  case None
  then show ?thesis using run ok by (simp add: deductValueTx_def)
next
  case (Some c)
  note c = find_SomeD [OF Some]
  obtain r b db1 where r: "insert_ledger r db = Inr (b, db1)" "value_ledger db' = value_ledger db1" "vl_kind r = FeedbackDeduction"
    "vl_work_item_id r = fb_work_item_id f" "vl_amount r = - vl_amount c" "vl_currency r = vl_currency c"
    using run unfolding deductValueTx_def Some option.case by (fastforce dest: ledger_entry_ledger)
  then show ?thesis using insert_ledger_Inr [OF r(1)] ok c by (auto intro!: ledger_ok_snoc bexI [of _ c])
qed


section \<open>The ledger under every operation\<close>

lemma value_ledger_set [simp]:
  "value_ledger (set_run env rid P f db) = value_ledger db" "value_ledger (set_node nid Q g db) = value_ledger db"
  "value_ledger (set_attempt aid h db) = value_ledger db" "value_ledger (set_turn env tid to db) = value_ledger db"
  "value_ledger (set_blocker bid R k db) = value_ledger db"
  by (simp_all add: set_run_def set_node_def set_attempt_def set_turn_def set_blocker_def)

lemma createBlocker_ledger:
  "createConsequenceBlockerTx env i a n cs db = Inr (u, db') \<Longrightarrow> value_ledger db' = value_ledger db"
  "createHumanBlockerTx env i a n def db = Inr (u, db') \<Longrightarrow> value_ledger db' = value_ledger db"
  by (auto simp: createConsequenceBlockerTx_def createHumanBlockerTx_def split: option.splits if_splits dest!: insert_blocker_Inr)

lemma prepare_node_tx_ledger:
  assumes "prepare_node_tx env aid db = Inr (r, db')"
  shows "value_ledger db' = value_ledger db"
proof -
  have block: "value_ledger d' = value_ledger d" if "block_on_consequences env i aid node d = Inr (x, d')" for i node x d d'
    using that by (auto simp: block_on_consequences_def Let_def split: sum.splits if_splits dest!: appendTimelineTx_frame createBlocker_ledger)
  have human: "value_ledger d' = value_ledger d" if "prepare_human_gate env i aid def node d = Inr (x, d')" for i node def x d d'
    using that by (auto simp: prepare_human_gate_def Let_def split: sum.splits if_splits dest!: appendTimelineTx_frame createBlocker_ledger)
  have turn: "value_ledger d' = value_ledger d" if "start_agent_turn env i aid node d = Inr (x, d')" for i node x d d'
    using that by (cases x) (auto elim!: start_agent_turn_okE)
  show ?thesis using assms
    by (auto simp: prepare_node_tx_def map_sum_Inr_iff split: sum.splits if_splits option.splits prod.splits dest!: block human turn)
qed

lemma record_report_tx_ledger: "record_report_tx validates env tid report db = Inr (u, db') \<Longrightarrow> value_ledger db' = value_ledger db"
  by (auto simp: record_report_tx_def split: option.splits if_splits sum.splits dest!: insert_links_frame)

lemma advanceGraphTx_ledger:
  assumes ok: "ledger_ok (value_ledger db)" and run: "advanceGraphTx env inp db = Inr (r, db')"
  shows "ledger_ok (value_ledger db')"
proof -
  have terminal: "ledger_ok (value_ledger d')" if "advance_terminal env inp a outcome d = Inr (r, d')" "ledger_ok (value_ledger d)" for a outcome d d'
    using that by (auto simp: advance_terminal_def Let_def tx_simps insert_transition_Inr dest!: appendTimelineTx_frame elim!: creditValueTx_ledger [rotated])
  have limit: "value_ledger d' = value_ledger d" if "advance_limit env inp d = Inr (r, d')" for d d'
    using that by (auto simp: advance_limit_def Let_def tx_simps dest!: appendTimelineTx_frame)
  have edge: "value_ledger d' = value_ledger d" if "advance_edge env inp a spec outcome target d = Inr (r, d')" for a spec outcome target d d'
    using that by (auto elim!: advance_edge_okE)
  from run show ?thesis
  proof (rule advanceGraphTx_okE)
    fix outcome a d spec def tl target trm
    assume t: "trm \<Longrightarrow> advance_terminal env inp a outcome (db\<lparr>timeline := tl\<rparr>) = Inr (r, db')"
      and l: "\<not> trm \<Longrightarrow> g_max_transitions (at_graph a) \<le> int (transition_count (ga_attempt inp) db) \<Longrightarrow>
         advance_limit env inp (db\<lparr>timeline := tl\<rparr>) = Inr (r, db')"
      and e: "\<not> trm \<Longrightarrow> int (transition_count (ga_attempt inp) db) < g_max_transitions (at_graph a) \<Longrightarrow>
         advance_edge env inp a spec outcome target (db\<lparr>timeline := tl\<rparr>) = Inr (r, db')"
    show ?thesis
      using t [THEN terminal] l [THEN limit] e [THEN edge] ok
      by (cases trm; cases "g_max_transitions (at_graph a) \<le> int (transition_count (ga_attempt inp) db)") auto
  qed
qed

lemma complete_turn_tx_ledger:
  assumes ok: "ledger_ok (value_ledger db)" and run: "complete_turn_tx env tid reason cf opf db = Inr (r, db')"
  shows "ledger_ok (value_ledger db')"
proof -
  have failed: "value_ledger d' = value_ledger d" if "fail_turn_tx env t node i reason cf opf d = Inr (r, d')" for t node i d d'
    using that by (auto simp: fail_turn_tx_def Let_def tx_simps dest!: appendTimelineTx_frame)
  from run show ?thesis
  proof (rule complete_turn_tx_okE)
    fix t :: Turn and node :: NodeExecution and a :: Attempt
    assume f: "reason \<noteq> ''completed'' \<or> ne_outcome node = None \<or> ne_reported_at node = None \<Longrightarrow>
         fail_turn_tx env t node (at_work_item_id a) reason cf opf db = Inr (r, db')"
      and adv: "reason = ''completed'' \<Longrightarrow> ne_outcome node \<noteq> None \<Longrightarrow> ne_reported_at node \<noteq> None \<Longrightarrow>
         advanceGraphTx env \<lparr>ga_item = at_work_item_id a, ga_attempt = turn_run_id t, ga_node = node, ga_actor = []\<rparr>
           (set_node (ne_id node) (\<lambda>_. True) (\<lambda>n. n\<lparr>ne_state := NodeSucceeded, ne_finished_at := Some (env_now env)\<rparr>)
              (set_turn env tid TurnSucceeded db)) = Inr (r, db')"
    show ?thesis
    proof (cases "reason \<noteq> ''completed'' \<or> ne_outcome node = None \<or> ne_reported_at node = None")
      case True
      then show ?thesis using failed [OF f] ok by simp
    next
      case False
      then show ?thesis by (intro advanceGraphTx_ledger [OF _ adv]) (use ok in auto)
    qed
  qed
qed

lemma respond_blocker_tx_ledger:
  assumes ok: "ledger_ok (value_ledger db)" and run: "respond_blocker_tx validates env inp db = Inr (r, db')"
  shows "ledger_ok (value_ledger db')"
proof -
  have resume: "ledger_ok (value_ledger d')" if "resume_confirmed env inp b nid d = Inr (u, d')" "ledger_ok (value_ledger d)" for b nid u d d'
    using that by (auto simp: resume_confirmed_def Let_def dest!: appendTimelineTx_frame)
  have human: "ledger_ok (value_ledger d')" if "completeHumanNodeTx env b nid out resp refs actor d = Inr (u, d')" "ledger_ok (value_ledger d)"
    for b nid out resp refs actor u d d'
    using that(1) by (rule completeHumanNodeTx_okE) (erule advanceGraphTx_ledger [rotated], simp add: that(2))
  show ?thesis using run ok
    by (auto simp: respond_blocker_tx_def tx_simps split: option.splits sum.splits confirmation.splits if_splits elim!: resume human)
qed

lemma createAttemptTx_ledger: "createAttemptTx env inp db = Inr (u, db') \<Longrightarrow> value_ledger db' = value_ledger db"
  by (auto elim!: createAttemptTx_okE)

lemma start_tx_ledger:
  assumes "start_tx compiles env inp refs hash db = Inr (r, db')"
  shows "value_ledger db' = value_ledger db"
proof -
  obtain iid created where "r = (iid, created)" by (cases r)
  with assms have "start_tx compiles env inp refs hash db = Inr ((iid, created), db')" by simp
  then show ?thesis by (cases rule: start_tx_okE) (auto simp: set_current_attempt_def dest!: createAttemptTx_ledger)
qed

lemma create_revision_tx_ledger: "create_revision_tx env inp resolved current db = Inr (u, db') \<Longrightarrow> value_ledger db' = value_ledger db"
  by (auto simp: set_current_attempt_def elim!: create_revision_tx_okE dest!: createAttemptTx_ledger)

lemma save_feedback_tx_ledger:
  assumes ok: "ledger_ok (value_ledger db)" and run: "save_feedback_tx env inp db = Inr (f, db')"
  shows "ledger_ok (value_ledger db')"
  using run
proof (rule save_feedback_tx_okE)
  fix db1 tl assume "deductValueTx env f (db\<lparr>feedback := feedback db @ [f]\<rparr>) = Inr ((), db1)" "db' = db1\<lparr>timeline := tl\<rparr>"
  then show ?thesis using deductValueTx_ledger [of "db\<lparr>feedback := feedback db @ [f]\<rparr>"] ok by simp
qed

section \<open>The steps\<close>

text \<open>What the rest of the control plane changes: the definitions, the catalog, grants, tool
  versions, artifacts, invocations and users, and the pool of a run. The other tables of the work
  store and those of the runtime stay.\<close>

definition others_frame :: "'z work_db_scheme \<Rightarrow> 'z work_db_scheme \<Rightarrow> bool" where
  "others_frame db db' \<longleftrightarrow>
     runs db' = runs db \<and> turns db' = turns db \<and> steps db' = steps db \<and> events db' = events db
     \<and> work_items db' = work_items db \<and> attempts db' = attempts db \<and> node_executions db' = node_executions db
     \<and> graph_transitions db' = graph_transitions db \<and> blockers db' = blockers db \<and> feedback db' = feedback db
     \<and> timeline db' = timeline db \<and> value_models db' = value_models db \<and> value_ledger db' = value_ledger db
     \<and> attempt_tool_pins db' = attempt_tool_pins db \<and> run_principals db' = run_principals db"

inductive work_op :: "'z work_db_scheme \<Rightarrow> 'z work_db_scheme \<Rightarrow> bool" where
  op_start: "work_op db (snd (Start compiles sha256 fault env si db))"
| op_prepare: "work_op db (snd (PrepareNode fault env aid db))"
| op_report: "work_op db (snd (RecordCompletionReport validates fault env tid report db))"
| op_complete: "work_op db (snd (CompleteTurn fault env tid reason cf opf db))"
| op_respond: "work_op db (snd (RespondBlocker validates fault env ri db))"
| op_feedback: "work_op db (snd (SaveFeedback fault env fi db))"
| op_revise: "work_op db (snd (run_tx fault (create_revision_tx env rv resolved current) db))"
| op_value_model: "work_op db (snd (CreateValueModel fault env vi db))"

inductive work_step :: "'z work_db_scheme \<Rightarrow> 'z work_db_scheme \<Rightarrow> bool" where
  wk_op: "work_op db db' \<Longrightarrow> work_step db db'"
| wk_runtime: "rt_step db db' \<Longrightarrow> work_step db db'"
| wk_others: "others_frame db db' \<Longrightarrow> work_step db db'"

lemmas wk_start = wk_op [OF op_start]
lemmas wk_prepare = wk_op [OF op_prepare]
lemmas wk_report = wk_op [OF op_report]
lemmas wk_complete = wk_op [OF op_complete]
lemmas wk_respond = wk_op [OF op_respond]
lemmas wk_feedback = wk_op [OF op_feedback]

text \<open>What an operation keeps: a property that every transaction body keeps. A step keeps it when
  it does not read the tables of the others.\<close>

lemma work_op_keeps:
  fixes I :: "'z work_db_scheme \<Rightarrow> bool"
  assumes start: "\<And>compiles env inp refs hash db r db'. I db \<Longrightarrow> start_tx compiles env inp refs hash db = Inr (r, db') \<Longrightarrow> I db'"
    and prepare: "\<And>env aid db r db'. I db \<Longrightarrow> prepare_node_tx env aid db = Inr (r, db') \<Longrightarrow> I db'"
    and report: "\<And>validates env tid report db r db'. I db \<Longrightarrow> record_report_tx validates env tid report db = Inr (r, db') \<Longrightarrow> I db'"
    and complete: "\<And>env tid reason cf opf db r db'. I db \<Longrightarrow> complete_turn_tx env tid reason cf opf db = Inr (r, db') \<Longrightarrow> I db'"
    and respond: "\<And>validates env inp db r db'. I db \<Longrightarrow> respond_blocker_tx validates env inp db = Inr (r, db') \<Longrightarrow> I db'"
    and feedback: "\<And>env inp db r db'. I db \<Longrightarrow> save_feedback_tx env inp db = Inr (r, db') \<Longrightarrow> I db'"
    and revise: "\<And>env inp resolved current db r db'. I db \<Longrightarrow> create_revision_tx env inp resolved current db = Inr (r, db') \<Longrightarrow> I db'"
    and model: "\<And>db v. I db \<Longrightarrow> I (db\<lparr>value_models := value_models db @ [v]\<rparr>)"
    and step: "work_op db db'" and inv: "I db"
  shows "I db'"
  using step inv
proof (induction rule: work_op.induct)
  case (op_start db compiles sha256 fault env si)
  have tx: "I (snd (run_tx fault (start_tx compiles env si refs hash) db))" for refs hash
    by (rule run_tx_invariant [where I = I, OF op_start]) (rule start [OF op_start])
  have tx': "I d" if "run_tx fault (start_tx compiles env si refs hash) db = (x, d)" for refs hash x d
    using tx [of refs hash] that by simp
  show ?case unfolding Start_def using op_start tx' by (simp split: option.split sum.split prod.split)
next
  case (op_prepare db fault env aid)
  show ?case unfolding PrepareNode_def by (rule run_tx_invariant [where I = I, OF op_prepare]) (rule prepare [OF op_prepare])
next
  case (op_report db validates fault env tid report)
  have "I (snd (run_tx fault (record_report_tx validates env tid report) db))"
    by (rule run_tx_invariant [where I = I, OF op_report]) (rule report [OF op_report])
  then show ?case unfolding RecordCompletionReport_def using op_report by simp
next
  case (op_complete db fault env tid reason cf opf)
  show ?case unfolding CompleteTurn_def by (rule run_tx_invariant [where I = I, OF op_complete]) (rule complete [OF op_complete])
next
  case (op_respond db validates fault env ri)
  have "I (snd (run_tx fault (respond_blocker_tx validates env ri) db))"
    by (rule run_tx_invariant [where I = I, OF op_respond]) (rule respond [OF op_respond])
  then show ?case unfolding RespondBlocker_def using op_respond
    by (cases "run_tx fault (respond_blocker_tx validates env ri) db") (simp split: sum.split)
next
  case (op_feedback db fault env fi)
  have "I (snd (run_tx fault (save_feedback_tx env fi) db))"
    by (rule run_tx_invariant [where I = I, OF op_feedback]) (rule feedback [OF op_feedback])
  then show ?case unfolding SaveFeedback_def using op_feedback by simp
next
  case (op_revise db fault env rv resolved current)
  show ?case by (rule run_tx_invariant [where I = I, OF op_revise]) (rule revise [OF op_revise])
next
  case (op_value_model db fault env vi)
  then show ?case using model [OF op_value_model] by (simp add: CreateValueModel_def run_tx_def Let_def split: sum.split)
qed

lemma work_step_keeps:
  fixes I :: "'z work_db_scheme \<Rightarrow> bool"
  assumes start: "\<And>compiles env inp refs hash db r db'. I db \<Longrightarrow> start_tx compiles env inp refs hash db = Inr (r, db') \<Longrightarrow> I db'"
    and prepare: "\<And>env aid db r db'. I db \<Longrightarrow> prepare_node_tx env aid db = Inr (r, db') \<Longrightarrow> I db'"
    and report: "\<And>validates env tid report db r db'. I db \<Longrightarrow> record_report_tx validates env tid report db = Inr (r, db') \<Longrightarrow> I db'"
    and complete: "\<And>env tid reason cf opf db r db'. I db \<Longrightarrow> complete_turn_tx env tid reason cf opf db = Inr (r, db') \<Longrightarrow> I db'"
    and respond: "\<And>validates env inp db r db'. I db \<Longrightarrow> respond_blocker_tx validates env inp db = Inr (r, db') \<Longrightarrow> I db'"
    and feedback: "\<And>env inp db r db'. I db \<Longrightarrow> save_feedback_tx env inp db = Inr (r, db') \<Longrightarrow> I db'"
    and revise: "\<And>env inp resolved current db r db'. I db \<Longrightarrow> create_revision_tx env inp resolved current db = Inr (r, db') \<Longrightarrow> I db'"
    and model: "\<And>db v. I db \<Longrightarrow> I (db\<lparr>value_models := value_models db @ [v]\<rparr>)"
    and runtime: "\<And>db db'. I db \<Longrightarrow> rt_frame db db' \<Longrightarrow> I db'"
    and others: "\<And>db db'. I db \<Longrightarrow> others_frame db db' \<Longrightarrow> I db'"
    and step: "work_step db db'" and inv: "I db"
  shows "I db'"
  using step
proof cases
  case wk_op
  show ?thesis by (rule work_op_keeps [where I = I, OF start prepare report complete respond feedback revise model wk_op inv])
next
  case wk_runtime
  show ?thesis by (rule runtime [OF inv rt_step_frame [OF wk_runtime]])
next
  case wk_others
  show ?thesis by (rule others [OF inv wk_others])
qed

section \<open>The invariants of the work store\<close>

lemma work_tables_more:
  assumes "runtime_db.more db' = runtime_db.more db"
  shows "attempts db' = attempts db" "node_executions db' = node_executions db" "graph_transitions db' = graph_transitions db"
    "blockers db' = blockers db" "value_ledger db' = value_ledger db" "work_items db' = work_items db" "timeline db' = timeline db"
    "feedback db' = feedback db" "value_models db' = value_models db"
  using assms by (cases db; cases db'; simp)+

definition work_inv :: "'z work_db_scheme \<Rightarrow> bool" where
  "work_inv db \<longleftrightarrow> graph_inv db \<and> ledger_ok (value_ledger db)"

lemma work_step_graph_inv:
  assumes "work_step db db'" "graph_inv db"
  shows "graph_inv db'"
proof (rule work_step_keeps [where I = graph_inv, OF start_tx_inv prepare_node_tx_inv record_report_tx_inv complete_turn_tx_inv
      respond_blocker_tx_inv save_feedback_tx_inv create_revision_tx_inv _ _ _ assms])
  show "graph_inv db \<Longrightarrow> rt_frame db db' \<Longrightarrow> graph_inv db'" for db db' :: "'a work_db_scheme"
    by (simp add: rt_frame_def graph_inv_def attempt_graphs_def blocker_nodes_def work_tables_more [of db' db])
  show "graph_inv db \<Longrightarrow> others_frame db db' \<Longrightarrow> graph_inv db'" for db db' :: "'a work_db_scheme"
    by (simp add: others_frame_def graph_inv_def attempt_graphs_def blocker_nodes_def bound_turns_def)
qed simp_all

lemma work_step_ledger:
  assumes "work_step db db'" "ledger_ok (value_ledger db)"
  shows "ledger_ok (value_ledger db')"
proof (rule work_step_keeps [where I = "\<lambda>db. ledger_ok (value_ledger db)", OF _ _ _ complete_turn_tx_ledger
      respond_blocker_tx_ledger save_feedback_tx_ledger _ _ _ _ assms])
  show "ledger_ok (value_ledger db) \<Longrightarrow> rt_frame db db' \<Longrightarrow> ledger_ok (value_ledger db')" for db db' :: "'a work_db_scheme"
    by (simp add: rt_frame_def work_tables_more [of db' db])
qed (auto dest: start_tx_ledger prepare_node_tx_ledger record_report_tx_ledger create_revision_tx_ledger simp: others_frame_def)

lemma work_steps_inv: "work_step\<^sup>*\<^sup>* db db' \<Longrightarrow> work_inv db \<Longrightarrow> work_inv db'"
  by (induction rule: rtranclp_induct) (auto simp: work_inv_def dest: work_step_graph_inv work_step_ledger)

text \<open>Empty tables of attempts, executions, transitions, bound turns, blockers and ledger rows.\<close>

definition work_empty :: "'z work_db_scheme \<Rightarrow> bool" where
  "work_empty db \<longleftrightarrow> attempts db = [] \<and> node_executions db = [] \<and> graph_transitions db = [] \<and> turns db = []
     \<and> blockers db = [] \<and> value_ledger db = []"

lemma work_empty_inv: "work_empty db \<Longrightarrow> work_inv db"
  by (simp add: work_empty_def work_inv_def graph_inv_def graph_tables_ok_def attempt_graphs_def bound_turns_def blocker_nodes_def ledger_ok_def)

lemmas reachable_work_inv = work_steps_inv [OF _ work_empty_inv]

section \<open>What never changes\<close>

text \<open>An attempt's snapshot is everything but its end: the failures and the finishing time. A work
  item's start is its identity and the key and payload it was started with.\<close>

definition attempt_snapshot :: "Attempt \<Rightarrow> Attempt" where
  "attempt_snapshot a = a\<lparr>at_customer_failure := None, at_operator_failure := None, at_finished_at := None\<rparr>"

definition item_start :: "WorkItemRow \<Rightarrow> uuid \<times> uuid \<times> string \<times> string \<times> string" where
  "item_start w = (wi_id w, wi_start_identity_id w, wi_workflow_key w, wi_start_idempotency_key w, wi_start_payload_hash w)"

definition grows :: "'z work_db_scheme \<Rightarrow> 'z work_db_scheme \<Rightarrow> bool" where
  "grows db db' \<longleftrightarrow> prefix (map attempt_snapshot (attempts db)) (map attempt_snapshot (attempts db'))
     \<and> prefix (map item_start (work_items db)) (map item_start (work_items db'))"

lemma grows_refl [simp]: "grows db db"
  by (simp add: grows_def)

lemma grows_trans: "grows a b \<Longrightarrow> grows b c \<Longrightarrow> grows a c"
  unfolding grows_def by (elim conjE) (intro conjI; erule (1) prefix_order.trans)

lemma grows_same: "attempts db' = attempts db \<Longrightarrow> work_items db' = work_items db \<Longrightarrow> grows db db'"
  by (simp add: grows_def)

lemma grows_frame [simp]:
  "grows db (set_run env rid P f d) = grows db d" "grows db (set_node nid Q g d) = grows db d"
  "grows db (set_turn env tid to d) = grows db d" "grows db (set_blocker bid R k d) = grows db d"
  "grows db (d\<lparr>timeline := x1\<rparr>) = grows db d" "grows db (d\<lparr>artifact_links := x2\<rparr>) = grows db d"
  "grows db (d\<lparr>value_ledger := x3\<rparr>) = grows db d" "grows db (d\<lparr>events := x4\<rparr>) = grows db d"
  "grows db (d\<lparr>turns := x5\<rparr>) = grows db d" "grows db (d\<lparr>graph_transitions := x6\<rparr>) = grows db d"
  "grows db (d\<lparr>node_executions := x7\<rparr>) = grows db d" "grows db (d\<lparr>blockers := x8\<rparr>) = grows db d"
  "grows db (d\<lparr>feedback := x9\<rparr>) = grows db d"
  by (simp_all add: grows_def set_run_def set_node_def set_turn_def set_blocker_def)

lemma grows_set_attempt:
  assumes "\<And>a. attempt_snapshot (f a) = attempt_snapshot a"
  shows "grows db (set_attempt aid f d) = grows db d"
  unfolding grows_def set_attempt_def using assms by (simp add: map_update_where)

lemma grows_set_current_attempt: "grows db (set_current_attempt env i a d) = grows db d"
  unfolding grows_def set_current_attempt_def by (simp add: map_update_where item_start_def)

lemma createBlocker_grows:
  "createConsequenceBlockerTx env i a n cs db = Inr (u, db') \<Longrightarrow> grows db db'"
  "createHumanBlockerTx env i a n def db = Inr (u, db') \<Longrightarrow> grows db db'"
  by (auto simp: createConsequenceBlockerTx_def createHumanBlockerTx_def split: option.splits if_splits dest!: insert_blocker_Inr)

lemma prepare_node_tx_grows:
  assumes "prepare_node_tx env aid db = Inr (r, db')"
  shows "grows db db'"
proof -
  have block: "grows d d'" if "block_on_consequences env i aid node d = Inr (x, d')" for i node x d d'
    using that by (auto simp: block_on_consequences_def Let_def split: sum.splits if_splits dest!: appendTimelineTx_frame createBlocker_grows)
  have human: "grows d d'" if "prepare_human_gate env i aid def node d = Inr (x, d')" for i node def x d d'
    using that by (auto simp: prepare_human_gate_def Let_def split: sum.splits if_splits dest!: appendTimelineTx_frame createBlocker_grows)
  have turn: "grows d d'" if "start_agent_turn env i aid node d = Inr (x, d')" for i node x d d'
    using that by (cases x) (auto elim!: start_agent_turn_okE)
  show ?thesis using assms
    by (auto simp: prepare_node_tx_def map_sum_Inr_iff split: sum.splits if_splits option.splits prod.splits
      dest: block_on_consequences_None block human turn)
qed

lemma record_report_tx_grows: "record_report_tx validates env tid report db = Inr (u, db') \<Longrightarrow> grows db db'"
  by (auto simp: record_report_tx_def split: option.splits if_splits sum.splits dest!: insert_links_frame)

lemma advanceGraphTx_grows:
  assumes run: "advanceGraphTx env inp db = Inr (r, db')"
  shows "grows db db'"
proof -
  have snap: "attempt_snapshot (a\<lparr>at_finished_at := x\<rparr>) = attempt_snapshot a"
    "attempt_snapshot (a\<lparr>at_finished_at := x, at_customer_failure := y\<rparr>) = attempt_snapshot a" for a x y
    by (simp_all add: attempt_snapshot_def)
  have terminal: "grows d d'" if "advance_terminal env inp a outcome d = Inr (r, d')" for a outcome d d'
    using that by (auto simp: advance_terminal_def Let_def tx_simps insert_transition_Inr grows_set_attempt snap dest!: appendTimelineTx_frame creditValueTx_frame)
  have limit: "grows d d'" if "advance_limit env inp d = Inr (r, d')" for d d'
    using that by (auto simp: advance_limit_def Let_def tx_simps grows_set_attempt snap dest!: appendTimelineTx_frame)
  have edge: "grows d d'" if "advance_edge env inp a spec outcome target d = Inr (r, d')" for a spec outcome target d d'
    using that by (auto elim!: advance_edge_okE)
  from run show ?thesis
  proof (rule advanceGraphTx_okE)
    fix outcome a d spec def tl target trm
    assume t: "trm \<Longrightarrow> advance_terminal env inp a outcome (db\<lparr>timeline := tl\<rparr>) = Inr (r, db')"
      and l: "\<not> trm \<Longrightarrow> g_max_transitions (at_graph a) \<le> int (transition_count (ga_attempt inp) db) \<Longrightarrow>
         advance_limit env inp (db\<lparr>timeline := tl\<rparr>) = Inr (r, db')"
      and e: "\<not> trm \<Longrightarrow> int (transition_count (ga_attempt inp) db) < g_max_transitions (at_graph a) \<Longrightarrow>
         advance_edge env inp a spec outcome target (db\<lparr>timeline := tl\<rparr>) = Inr (r, db')"
    have "grows db (db\<lparr>timeline := tl\<rparr>)" by simp
    moreover have "grows (db\<lparr>timeline := tl\<rparr>) db'"
      using t [THEN terminal] l [THEN limit] e [THEN edge]
      by (cases trm; cases "g_max_transitions (at_graph a) \<le> int (transition_count (ga_attempt inp) db)") auto
    ultimately show ?thesis by (rule grows_trans)
  qed
qed

lemma complete_turn_tx_grows:
  assumes run: "complete_turn_tx env tid reason cf opf db = Inr (r, db')"
  shows "grows db db'"
proof -
  have failed: "grows d d'" if "fail_turn_tx env t node i reason cf opf d = Inr (r, d')" for t node i d d'
    using that by (auto simp: fail_turn_tx_def Let_def tx_simps grows_set_attempt attempt_snapshot_def dest!: appendTimelineTx_frame)
  from run show ?thesis
  proof (rule complete_turn_tx_okE)
    fix t :: Turn and node :: NodeExecution and a :: Attempt
    let ?db = "set_node (ne_id node) (\<lambda>_. True) (\<lambda>n. n\<lparr>ne_state := NodeSucceeded, ne_finished_at := Some (env_now env)\<rparr>)
              (set_turn env tid TurnSucceeded db)"
    assume f: "reason \<noteq> ''completed'' \<or> ne_outcome node = None \<or> ne_reported_at node = None \<Longrightarrow>
         fail_turn_tx env t node (at_work_item_id a) reason cf opf db = Inr (r, db')"
      and adv: "reason = ''completed'' \<Longrightarrow> ne_outcome node \<noteq> None \<Longrightarrow> ne_reported_at node \<noteq> None \<Longrightarrow>
         advanceGraphTx env \<lparr>ga_item = at_work_item_id a, ga_attempt = turn_run_id t, ga_node = node, ga_actor = []\<rparr> ?db = Inr (r, db')"
    have "grows db ?db" by simp
    then show ?thesis using failed [OF f] grows_trans [OF _ advanceGraphTx_grows [OF adv]] by blast
  qed
qed

lemma respond_blocker_tx_grows:
  assumes run: "respond_blocker_tx validates env inp db = Inr (r, db')"
  shows "grows db db'"
proof -
  have resume: "grows db d'" if "resume_confirmed env inp b nid d = Inr (u, d')" "grows db d" for b nid u d d'
    using that by (auto simp: resume_confirmed_def Let_def dest!: appendTimelineTx_frame)
  have human: "grows db d'" if "completeHumanNodeTx env b nid out resp refs actor d = Inr (u, d')" "grows db d"
    for b nid out resp refs actor u d d'
    using that(1) by (rule completeHumanNodeTx_okE) (drule advanceGraphTx_grows, erule grows_trans [rotated], simp add: that(2))
  show ?thesis using run
    by (auto simp: respond_blocker_tx_def tx_simps split: option.splits sum.splits confirmation.splits if_splits elim!: resume human)
qed

lemma createAttemptTx_grows: "createAttemptTx env inp db = Inr (u, db') \<Longrightarrow> grows db db'"
  by (erule createAttemptTx_okE) (simp add: grows_def)

lemma start_tx_grows:
  assumes "start_tx compiles env inp refs hash db = Inr (r, db')"
  shows "grows db db'"
proof -
  obtain iid created where "r = (iid, created)" by (cases r)
  with assms have "start_tx compiles env inp refs hash db = Inr ((iid, created), db')" by simp
  then show ?thesis
  proof (cases rule: start_tx_okE)
    case (fresh resolved w db1 ca tl)
    have "grows db (db\<lparr>work_items := work_items db @ [w]\<rparr>)" by (simp add: grows_def)
    then have "grows db db1" using createAttemptTx_grows [OF fresh(4)] by (rule grows_trans)
    then show ?thesis by (simp add: fresh(12) grows_set_current_attempt)
  qed simp
qed

lemma create_revision_tx_grows: "create_revision_tx env inp resolved current db = Inr (u, db') \<Longrightarrow> grows db db'"
  by (erule create_revision_tx_okE) (simp add: grows_set_current_attempt createAttemptTx_grows)

lemma save_feedback_tx_grows: "save_feedback_tx env inp db = Inr (f, db') \<Longrightarrow> grows db db'"
  by (erule save_feedback_tx_okE) (auto dest!: deductValueTx_frame)

lemma work_step_grows:
  assumes "work_step db db'"
  shows "grows db db'"
proof -
  have rt: "rt_frame d d' \<Longrightarrow> grows d d'" for d d' :: "'a work_db_scheme"
    by (rule grows_same) (auto simp: rt_frame_def work_tables_more [of d' d])
  have others: "others_frame d d' \<Longrightarrow> grows d d'" for d d' :: "'a work_db_scheme"
    by (rule grows_same) (auto simp: others_frame_def)
  have model: "grows d (d\<lparr>value_models := x\<rparr>)" for d :: "'a work_db_scheme" and x by (rule grows_same) auto
  show ?thesis
    by (rule work_step_keeps [where I = "grows db", OF _ _ _ _ _ _ _ _ _ _ assms grows_refl]; erule grows_trans;
        (rule model | erule start_tx_grows prepare_node_tx_grows record_report_tx_grows complete_turn_tx_grows respond_blocker_tx_grows
          save_feedback_tx_grows create_revision_tx_grows rt others))
qed

lemma work_steps_grows: "work_step\<^sup>*\<^sup>* db db' \<Longrightarrow> grows db db'"
  by (induction rule: rtranclp_induct) (auto intro: grows_trans work_step_grows)

end
