(* ===== verification/Work_Example.thy ===== *)
theory Work_Example
  imports Work_Steps Workflow_Properties
begin

text \<open>
  One work item from start to deduction, as a sequence of the store's operations on a concrete
  database: the example graph of \<open>Workflow_Properties\<close>, a task that is unsure, a person who
  sends it back, and a second visit that is done. The witnesses of the properties are read off
  this sequence.
\<close>

definition example_env :: "int \<Rightarrow> tx_env" where
  "example_env now = \<lparr>env_now = now, env_clock = now, env_uuid = (\<lambda>table i. table @ replicate i CHR ''i''),
     env_credit = (\<lambda>seconds cost. seconds * cost div 3600)\<rparr>"

definition example_row :: Definition where
  "example_row = \<lparr>d_id = ''def'', d_key = ''wf'', d_version = ''v1'', d_digest = ''sha'',
     d_spec_json = SpecDoc (example_spec\<lparr>sp_value_model_ref := ''vm''\<rparr>),
     d_validation_status = ''valid'', d_scope_identity_id = ''scope'', d_source_type = ''manual_api'', d_pool_key = ''ns/pool'',
     d_presentation = None, d_created_at = 0, d_updated_at = 0, d_deleted_at = None\<rparr>"

definition example_world :: work_db where
  "example_world = \<lparr>identities = [''scope'', ''ann''], runs = [], steps = [], turns = [], events = [],
     wf = \<lparr>wf_identities = [(''scope'', ''ns/scope'')], definitions = [example_row], trigger_bindings = [],
       pool_bindings = [\<lparr>pb_definition_key = ''wf:v1'', pb_pool_id = ''pool'', pb_permitted_tools = Some [], pb_deleted_at = None\<rparr>]\<rparr>,
     run_principals = [], work_items = [], attempts = [], node_executions = [], graph_transitions = [], blockers = [],
     feedback = [], artifact_links = [], artifacts = [], timeline = [],
     value_models = [\<lparr>vm_id = ''model'', vm_ref = ''vm'', vm_version = ''1'', vm_currency = ''EUR'', vm_baseline_seconds = 3600,
       vm_loaded_hourly_cost = 50, vm_assumptions = JObj [], vm_explanation = JObj [], vm_created_at = 0\<rparr>],
     value_ledger = [], run_pools = [],
     catalog = [\<lparr>cm_model_key = ''ns/gpt'', cm_model_id = ''gpt-x'', cm_context_length = Some 1000, cm_default_params = JObj [],
       cm_reasoning_config = JObj [], cm_available = True\<rparr>],
     available_tool_versions = [\<lparr>tv_id = ''t1'', tv_name = ''mail'', tv_digest = ''d1'', tv_effect_class = ''read_only'', tv_created_at = 0\<rparr>],
     pool_grants = [\<lparr>pg_pool_id = ''pool'', pg_tool_name = ''mail'', pg_max_effect_class = ''read_only'', pg_deleted_at = None\<rparr>],
     attempt_tool_pins = [], invocations = []\<rparr>"

definition example_start :: StartInput where
  "example_start = \<lparr>sti_actor = ''ann'', sti_workflow_key = ''wf'', sti_workflow_version = [], sti_idempotency_key = ''k1'',
     sti_title = ''T'', sti_source = RawJson (JObj []), sti_source_bytes = 2,
     sti_source_presentation = \<lparr>spn_kind = ''mail'', spn_title = ''T'', spn_subtitle = [], spn_original_url = [], spn_evidence = []\<rparr>,
     sti_artifact_refs = [], sti_initiating_human = [], sti_authorization_source = [], sti_authorization_api_key = [],
     sti_authorization_session = []\<rparr>"

text \<open>A stand-in for the digest that tells titles apart.\<close>

definition example_sha :: "json \<Rightarrow> string" where
  "example_sha j = (case j of JObj (_ # _ # (_, JStr t) # _) \<Rightarrow> t | _ \<Rightarrow> [])"

text \<open>Start; the first visit reports that it is unsure; the person sends it back.\<close>

definition example_started :: work_db where
  "example_started = snd (Start (\<lambda>_. True) example_sha False (example_env 1) example_start example_world)"

definition example_turn :: "int \<Rightarrow> string \<Rightarrow> uuid \<Rightarrow> work_db \<Rightarrow> work_db" where
  "example_turn now outcome tid db =
     (let report = \<lparr>cr_outcome = outcome, cr_summary = ''s'', cr_output = RawJson (JObj []), cr_artifact_refs = []\<rparr>;
          db1 = snd (PrepareNode False (example_env now) ''attempts'' db);
          db2 = snd (RecordCompletionReport (\<lambda>_ _. True) False (example_env now) tid report db1)
      in snd (CompleteTurn False (example_env now) tid ''completed'' None None db2))"

definition example_asked :: work_db where
  "example_asked = snd (PrepareNode False (example_env 3) ''attempts'' (example_turn 2 ''unsure'' ''turns'' example_started))"

definition example_answer :: BlockerResponseInput where
  "example_answer = \<lparr>bri_blocker_id = ''blockers'', bri_actor = ''ann'', bri_outcome = ''retry'', bri_response = RawJson (JObj []),
     bri_artifact_refs = [], bri_confirmed = []\<rparr>"

definition example_answered :: work_db where
  "example_answered = snd (RespondBlocker (\<lambda>_ _. True) False (example_env 4) example_answer example_asked)"

definition example_done :: work_db where
  "example_done = example_turn 5 ''done'' ''turnsi'' example_answered"

definition example_deducted :: work_db where
  "example_deducted = snd (SaveFeedback False (example_env 6) \<lparr>fi_work_item_id = ''work_items'', fi_attempt_id = ''attempts'', fi_actor = ''ann'',
     fi_category = ''wrong'', fi_explanation = [], fi_corrected_result = RawNil\<rparr> example_done)"

text \<open>What the witnesses read of a database.\<close>

definition example_view ::
  "work_db \<Rightarrow> (string \<times> nat \<times> nat \<times> string option) list \<times> uuid list \<times> (LedgerKind \<times> int) list \<times> (int option \<times> bool) option" where
  "example_view db = (map (\<lambda>n. (ne_node_key n, ne_visit n, ne_seq n, ne_outcome n)) (node_executions db), map at_id (attempts db),
     map (\<lambda>r. (vl_kind r, vl_amount r)) (value_ledger db),
     (case GetWorkItem ''work_items'' db of Inl _ \<Rightarrow> None | Inr i \<Rightarrow> Some (w_estimated_value i, w_value_disputed i)))"

lemma example_deducted_view:
  "example_view example_deducted =
     ([(''task'', 1, 1, Some ''unsure''), (''ask'', 1, 2, Some ''retry''), (''task'', 2, 3, Some ''done'')], [''attempts''],
      [(CompletionCredit, 50), (FeedbackDeduction, -50)], Some (Some 0, True))"
  by code_simp

lemmas example_defs = example_started_def example_asked_def example_answered_def example_done_def example_deducted_def

lemma work_steps_snoc: "work_step\<^sup>*\<^sup>* a b \<Longrightarrow> work_step b c \<Longrightarrow> work_step\<^sup>*\<^sup>* a c"
  by (rule rtranclp.rtrancl_into_rtrancl)

lemma example_turn_steps: "work_step\<^sup>*\<^sup>* db (example_turn now outcome tid db)"
  unfolding example_turn_def Let_def
  by (rule work_steps_snoc [rotated], rule wk_complete, rule work_steps_snoc [rotated], rule wk_report,
      rule r_into_rtranclp, rule wk_prepare)

lemma example_work_reachable: "work_step\<^sup>*\<^sup>* example_world example_started" "work_step\<^sup>*\<^sup>* example_started example_deducted"
proof -
  show "work_step\<^sup>*\<^sup>* example_world example_started"
    unfolding example_started_def by (rule r_into_rtranclp) (rule wk_start)
  have "work_step\<^sup>*\<^sup>* example_started example_asked" unfolding example_asked_def
    by (rule work_steps_snoc, rule example_turn_steps, rule wk_prepare)
  then have "work_step\<^sup>*\<^sup>* example_started example_answered" unfolding example_answered_def
    by (rule work_steps_snoc) (rule wk_respond)
  then have "work_step\<^sup>*\<^sup>* example_started example_done" unfolding example_done_def
    using example_turn_steps by (rule rtranclp_trans)
  then show "work_step\<^sup>*\<^sup>* example_started example_deducted" unfolding example_deducted_def
    by (rule work_steps_snoc) (rule wk_feedback)
qed

lemma example_world_empty: "work_empty example_world"
  by (simp add: work_empty_def example_world_def)

text \<open>The same work when the first visit sent a mail: the second visit is blocked until the person
  confirms that the mail may be sent again.\<close>

definition example_written :: work_db where
  "example_written = example_answered\<lparr>invocations := [\<lparr>iv_id = ''mail1'', iv_caller_scope = ''turn'', iv_caller_scope_id = ''turns'',
     iv_effect_class = ''non_idempotent_write'', iv_state = ''succeeded'',
     iv_consequence_summary = RawJson (JObj [(''en'', JStr ''mail''), (''pt'', JStr ''mail'')]), iv_created_at = 2\<rparr>]\<rparr>"

definition example_blocked :: work_db where
  "example_blocked = snd (PrepareNode False (example_env 5) ''attempts'' example_written)"

definition example_confirmed :: work_db where
  "example_confirmed = snd (RespondBlocker (\<lambda>_ _. True) False (example_env 6)
     \<lparr>bri_blocker_id = ''blockersi'', bri_actor = ''ann'', bri_outcome = ''confirmed'', bri_response = RawJson (JObj []),
      bri_artifact_refs = [], bri_confirmed = [''mail1'']\<rparr> example_blocked)"

text \<open>Whether preparing the node starts a turn that was not there, for which visit, and whether
  every node of every attempt is a task or a gate.\<close>

definition example_repeats :: "work_db \<Rightarrow> (nat \<times> bool) option \<times> bool" where
  "example_repeats db =
     ((case fst (PrepareNode False (example_env 7) ''attempts'' db) of
         Inr (n, Some t, True) \<Rightarrow> Some (ne_visit n, turn_id t \<in> turn_id ` set (turns db))
       | _ \<Rightarrow> None),
      list_all (\<lambda>a. list_all (\<lambda>d. n_kind d \<in> {NodeAgentTask, NodeHumanGate}) (g_nodes (at_graph a))) (attempts db))"

lemma example_blocked_repeats: "fst (example_repeats example_blocked) = None"
  by code_simp

lemma example_confirmed_repeats: "example_repeats example_confirmed = (Some (2, False), True)"
  by code_simp

lemma example_start_created:
  "(case fst (Start (\<lambda>_. True) example_sha False (example_env 1) example_start example_world) of Inr (_, c) \<Rightarrow> c | _ \<Rightarrow> False) = True"
  by code_simp

end
