(* ===== verification/Work_Properties.thy ===== *)
theory Work_Properties
  imports Work_Example
begin

text \<open>
  The properties of the work store: how an attempt walks its graph, what the value ledger adds
  up to, when a visit may repeat external writes, and how starting work is idempotent.
\<close>

section \<open>Graph execution\<close>

lemma reachable_walk:
  assumes "work_empty db0" and "work_step\<^sup>*\<^sup>* db0 db" and "a \<in> set (attempts db)"
  shows "walk_ok (node_executions db) (graph_transitions db) (at_id a, at_graph a)"
proof -
  have "graph_inv db" using reachable_work_inv [OF assms(2,1)] by (simp add: work_inv_def)
  moreover have "(at_id a, at_graph a) \<in> set (attempt_graphs db)" using assms(3) by (force simp: attempt_graphs_def)
  ultimately show ?thesis unfolding graph_inv_def by (rule graph_tables_okD(5))
qed

text \<open>C32. In every database the operations reach, the executions of an attempt are a walk of the
  attempt's graph: numbered from one without a gap, entered at the entry node, and each next
  execution is the node the graph routes the outcome of the one before to.\<close>

theorem executions_follow_graph:
  assumes "work_empty db0" and "work_step\<^sup>*\<^sup>* db0 db" and "a \<in> set (attempts db)"
  shows "let ns = nodes_of (at_id a) (node_executions db) in
           map ne_seq ns = [1..<Suc (length ns)] \<and> enters_at (g_entry_node (at_graph a)) ns
           \<and> (\<forall>i. Suc i < length ns \<longrightarrow>
                (\<exists>outcome. ne_outcome (ns ! i) = Some outcome
                   \<and> route (at_graph a) (ne_node_key (ns ! i)) outcome = Some (ne_node_key (ns ! Suc i), False)))"
proof -
  note walk = reachable_walk [OF assms, unfolded walk_ok_def prod.case]
  from walk have "chain_ok (at_graph a) (nodes_of (at_id a) (node_executions db)) (edges_of (at_id a) (graph_transitions db))" by blast
  note link = chain_ok_nth [OF this, unfolded link_ok_def]
  show ?thesis unfolding Let_def using walk by (intro conjI allI impI) (auto dest: link simp del: upt_Suc)
qed

lemma example_deducted_facts:
  "hd (attempts example_deducted) \<in> set (attempts example_deducted)" "at_id (hd (attempts example_deducted)) = ''attempts''"
  "map ne_node_key (node_executions example_deducted) = [''task'', ''ask'', ''task'']"
proof -
  have view: "map at_id (attempts example_deducted) = [''attempts'']"
    "map (\<lambda>n. (ne_node_key n, ne_visit n, ne_seq n, ne_outcome n)) (node_executions example_deducted)
       = [(''task'', 1, 1, Some ''unsure''), (''ask'', 1, 2, Some ''retry''), (''task'', 2, 3, Some ''done'')]"
    using example_deducted_view unfolding example_view_def by simp_all
  from view(1) show "hd (attempts example_deducted) \<in> set (attempts example_deducted)" "at_id (hd (attempts example_deducted)) = ''attempts''"
    by (auto simp: map_eq_Cons_conv)
  from arg_cong [OF view(2), of "map fst"] show "map ne_node_key (node_executions example_deducted) = [''task'', ''ask'', ''task'']"
    by (simp add: comp_def)
qed

lemmas example_deducted_reachable = rtranclp_trans [OF example_work_reachable]

theorem executions_follow_graph_example:
  "map ne_node_key (node_executions example_deducted) = [''task'', ''ask'', ''task'']
   \<and> enters_at (g_entry_node (at_graph (hd (attempts example_deducted)))) (nodes_of ''attempts'' (node_executions example_deducted))"
  using executions_follow_graph [OF example_world_empty example_deducted_reachable example_deducted_facts(1)] example_deducted_facts(2,3)
  by (simp add: Let_def)

text \<open>C33. An attempt executes at most one node more than its graph's transition limit.\<close>

theorem executions_bounded:
  assumes "work_empty db0" and "work_step\<^sup>*\<^sup>* db0 db" and "a \<in> set (attempts db)"
  shows "int (length (nodes_of (at_id a) (node_executions db))) \<le> max 0 (g_max_transitions (at_graph a)) + 1"
proof -
  note walk = reachable_walk [OF assms, unfolded walk_ok_def prod.case]
  have "length (edges_of (at_id a) (graph_transitions db)) = length (nodes_of (at_id a) (node_executions db)) - 1"
    using walk by (intro chain_ok_length) auto
  then show ?thesis using walk by linarith
qed

theorem executions_bounded_example:
  "int (length (nodes_of ''attempts'' (node_executions example_deducted)))
     \<le> max 0 (g_max_transitions (at_graph (hd (attempts example_deducted)))) + 1"
  using executions_bounded [OF example_world_empty example_deducted_reachable example_deducted_facts(1)] example_deducted_facts(2) by simp

text \<open>C34. The active execution of an attempt is its last one, so an attempt never has two.\<close>

theorem active_execution_is_last:
  assumes "work_empty db0" and "work_step\<^sup>*\<^sup>* db0 db" and "n \<in> set (node_executions db)" and "ne_state n \<in> set active_node_states"
  shows "n = last (nodes_of (ne_attempt_id n) (node_executions db))"
proof (rule ccontr)
  let ?ns = "nodes_of (ne_attempt_id n) (node_executions db)"
  assume not_last: "n \<noteq> last ?ns"
  have inv: "graph_inv db" using reachable_work_inv [OF assms(2,1)] by (simp add: work_inv_def)
  note ok = graph_tables_okD [OF inv [unfolded graph_inv_def]]
  obtain g where g: "(ne_attempt_id n, g) \<in> set (attempt_graphs db)" using ok(4) assms(3) by force
  have chain: "chain_ok g ?ns (edges_of (ne_attempt_id n) (graph_transitions db))"
    using ok(5) [OF g] by (simp add: walk_ok_def)
  have "n \<in> set ?ns" using assms(3) by (simp add: nodes_of_def)
  then have "n \<in> set (butlast ?ns)" using not_last by (cases ?ns rule: rev_cases) auto
  then have "ne_id n \<in> set (map gt_from (edges_of (ne_attempt_id n) (graph_transitions db)))"
    unfolding chain_ok_sources [OF chain] by simp
  then obtain t where t: "t \<in> set (graph_transitions db)" "gt_from t = ne_id n" by (auto simp: edges_of_def)
  from ok(6) [OF t(1)] obtain m where "m \<in> set (node_executions db)" "ne_id m = ne_id n" "\<not> active_node m"
    using t(2) by (auto simp: transition_ok_def)
  with graph_inv_node_unique [OF inv _ assms(3)] have "\<not> active_node n" by metis
  with assms(4) show False by simp
qed

lemma example_started_active:
  "map (\<lambda>n. (ne_attempt_id n, ne_state n)) (node_executions example_started) = [(''attempts'', NodePending)]"
  by code_simp

theorem active_execution_is_last_example:
  "hd (node_executions example_started) = last (nodes_of ''attempts'' (node_executions example_started))"
proof -
  obtain n where n: "node_executions example_started = [n]" "ne_attempt_id n = ''attempts''" "ne_state n = NodePending"
    using example_started_active by auto
  then have "n \<in> set (node_executions example_started)" "ne_state n \<in> set active_node_states" by (simp_all add: active_node_states_def)
  from active_execution_is_last [OF example_world_empty example_work_reachable(1) this] n show ?thesis by simp
qed

section \<open>The value ledger\<close>

lemma ledger_okD:
  assumes "ledger_ok l"
  shows "inj_on ledger_key (set l)" "distinct l" "r \<in> set l \<Longrightarrow> vl_kind r = CompletionCredit \<Longrightarrow> 0 < vl_amount r"
    "r \<in> set l \<Longrightarrow> vl_kind r = FeedbackDeduction \<Longrightarrow> \<exists>c \<in> set l. vl_kind c = CompletionCredit \<and> vl_work_item_id c = vl_work_item_id r
       \<and> vl_amount r = - vl_amount c"
  using assms unfolding ledger_ok_def by (simp_all add: distinct_map) blast

lemma item_ledger_cases:
  assumes ok: "ledger_ok (value_ledger db)"
  shows "item_ledger i db = [] \<or> (\<exists>c. vl_kind c = CompletionCredit \<and> 0 < vl_amount c \<and>
           (set (item_ledger i db) = {c} \<or> (\<exists>d. vl_kind d = FeedbackDeduction \<and> vl_amount d = - vl_amount c \<and> set (item_ledger i db) = {c, d})))"
proof (cases "item_ledger i db")
  case (Cons r rs)
  let ?l = "set (item_ledger i db)"
  have l: "x \<in> ?l \<longleftrightarrow> x \<in> set (value_ledger db) \<and> vl_work_item_id x = i" for x by (simp add: item_ledger_def)
  note okD = ledger_okD [OF ok]
  have uniq: "x = y" if "x \<in> ?l" "y \<in> ?l" "vl_kind x = vl_kind y" for x y
    by (rule inj_onD [OF okD(1)]) (use that in \<open>simp_all add: l ledger_key_def\<close>)
  have credit: "\<exists>c \<in> ?l. vl_kind c = CompletionCredit \<and> vl_amount d = - vl_amount c" if "d \<in> ?l" "vl_kind d = FeedbackDeduction" for d
  proof -
    have "d \<in> set (value_ledger db)" using that(1) by (simp add: l)
    from okD(4) [OF this that(2)] obtain c where "c \<in> set (value_ledger db)" "vl_kind c = CompletionCredit"
      "vl_work_item_id c = vl_work_item_id d" "vl_amount d = - vl_amount c" by (elim bexE conjE) (rule that)
    with that(1) show ?thesis by (intro bexI [of _ c] conjI) (simp_all add: l)
  qed
  have "r \<in> ?l" using Cons by simp
  then obtain c where c: "c \<in> ?l" "vl_kind c = CompletionCredit"
    using credit [of r] by (cases "vl_kind r") blast+
  have pos: "0 < vl_amount c" using okD(3) c unfolding l by blast
  have sub: "x = c \<or> vl_kind x = FeedbackDeduction" if "x \<in> ?l" for x
    using uniq [OF that c(1)] c(2) by (cases "vl_kind x") auto
  show ?thesis
  proof (cases "\<exists>d \<in> ?l. vl_kind d = FeedbackDeduction")
    case True
    then obtain d where d: "d \<in> ?l" "vl_kind d = FeedbackDeduction" by blast
    then have "vl_amount d = - vl_amount c" using credit [OF d] uniq [OF _ c(1)] c(2) by auto
    moreover have "?l = {c, d}"
    proof (intro equalityI subsetI)
      fix x assume x: "x \<in> ?l"
      from sub [OF x] uniq [OF x d(1)] d(2) show "x \<in> {c, d}" by (elim disjE) simp_all
    qed (use c(1) d(1) in \<open>elim insertE; simp\<close>)
    ultimately show ?thesis using pos c(2) d(2) by blast
  next
    case False
    have "?l = {c}"
    proof (intro equalityI subsetI)
      fix x assume x: "x \<in> ?l"
      from sub [OF x] False x show "x \<in> {c}" by blast
    qed (use c(1) in simp)
    then show ?thesis using pos c(2) by blast
  qed
qed simp

text \<open>C35. In every database the operations reach, the estimated value a work item shows is never
  negative: it is absent while nothing was credited, positive while undisputed, and exactly
  zero once feedback disputed it.\<close>

theorem estimated_value:
  assumes "work_empty db0" and "work_step\<^sup>*\<^sup>* db0 db" and "GetWorkItem i db = Inr item"
  shows "(case w_estimated_value item of None \<Rightarrow> \<not> w_value_disputed item
          | Some v \<Rightarrow> if w_value_disputed item then v = 0 else 0 < v)"
proof -
  have ok: "ledger_ok (value_ledger db)" using reachable_work_inv [OF assms(2,1)] by (simp add: work_inv_def)
  have view: "w_estimated_value item = (let l = item_ledger i db in if l = [] then None else Some (sum_list (map vl_amount l)))"
    "w_value_disputed item \<longleftrightarrow> (\<exists>d \<in> set (item_ledger i db). vl_kind d = FeedbackDeduction)"
    using assms(3) by (auto simp: GetWorkItem_def scanWorkItem_def item_ledger_def Let_def split: option.splits dest!: find_SomeD)
  have "distinct (item_ledger i db)" using ledger_okD(2) [OF ok] by (simp add: item_ledger_def)
  then have sum: "sum_list (map vl_amount (item_ledger i db)) = sum vl_amount (set (item_ledger i db))"
    by (simp add: sum_list_distinct_conv_sum_set)
  from item_ledger_cases [OF ok, of i] show ?thesis
  proof (elim disjE exE conjE)
    fix c assume "vl_kind c = CompletionCredit" "0 < vl_amount c" "set (item_ledger i db) = {c}"
    then show ?thesis unfolding view Let_def sum by (auto simp flip: set_empty)
  next
    fix c d assume "vl_kind c = CompletionCredit" "vl_kind d = FeedbackDeduction" "vl_amount d = - vl_amount c" "set (item_ledger i db) = {c, d}"
    moreover from this have "c \<noteq> d" by auto
    ultimately show ?thesis unfolding view Let_def sum by (auto simp flip: set_empty)
  qed (simp add: view)
qed

theorem estimated_value_example:
  "\<exists>item. GetWorkItem ''work_items'' example_deducted = Inr item \<and> w_value_disputed item \<and> w_estimated_value item = Some 0"
proof -
  obtain item where item: "GetWorkItem ''work_items'' example_deducted = Inr item" "w_value_disputed item" "w_estimated_value item \<noteq> None"
    using example_deducted_view unfolding example_view_def by (auto split: sum.splits)
  from estimated_value [OF example_world_empty example_deducted_reachable item(1)] item show ?thesis by (auto split: option.splits)
qed

section \<open>Repeating a node\<close>






section \<open>Starting work\<close>

definition start_key_of :: "StartInput \<Rightarrow> uuid \<times> uuid \<times> string \<times> string \<times> string \<Rightarrow> bool" where
  "start_key_of inp = (\<lambda>(_, actor, workflow, key, _). actor = sti_actor inp \<and> workflow = sti_workflow_key inp \<and> key = sti_idempotency_key inp)"

lemma start_lookup: "map_option item_start (find (start_key inp) ws) = find (start_key_of inp) (map item_start ws)"
  by (induction ws) (auto simp: start_key_def start_key_of_def item_start_def)

lemma grows_lookup:
  assumes "grows db db'" and "find (start_key_of inp) (map item_start (work_items db)) = Some x"
  shows "find (start_key_of inp) (map item_start (work_items db')) = Some x"
  using assms unfolding grows_def by (auto simp: prefix_def find_append)

lemma GetWorkItem_row: "GetWorkItem i db = Inr item \<Longrightarrow> wi_id (w_row item) = i"
  by (auto simp: GetWorkItem_def scanWorkItem_def split: option.splits dest!: find_SomeD)

lemma Start_tx:
  assumes "Start compiles sha256 fault env inp db = (Inr (item, created), db')"
  obtains refs hash where "source_refs (sti_artifact_refs inp) = Inr refs" "startPayloadHash sha256 inp refs = Inr hash"
    "start_tx compiles env inp refs hash db = Inr ((wi_id (w_row item), created), db')"
    "sti_actor inp \<noteq> []" "sti_workflow_key inp \<noteq> []" "sti_idempotency_key inp \<noteq> []" "sti_title inp \<noteq> []"
    "validateSourcePresentation (sti_source_presentation inp) = None" "\<not> MaxSourceBytes < sti_source_bytes inp"
  using assms by (auto simp: Start_def tx_simps split: if_splits option.splits sum.splits prod.splits dest: GetWorkItem_row)

lemma started_lookup:
  assumes "start_tx compiles env inp refs hash db = Inr ((iid, True), db')"
  shows "find (start_key_of inp) (map item_start (work_items db'))
    = Some (iid, sti_actor inp, sti_workflow_key inp, sti_idempotency_key inp, hash)"
  using assms
proof (cases rule: start_tx_okE)
  case (fresh resolved w db1 ca tl)
  have "work_items db1 = work_items db @ [w]" using fresh(4) by (rule createAttemptTx_okE) simp
  then have "map item_start (work_items db') = map item_start (work_items db @ [w])"
    unfolding fresh(12) set_current_attempt_def by (simp add: map_update_where item_start_def)
  moreover have "find (start_key_of inp) (map item_start (work_items db)) = None"
    using fresh(2) by (simp flip: start_lookup)
  ultimately show ?thesis using fresh(5-7) by (simp add: find_append start_key_def start_key_of_def item_start_def)
qed simp


lemma example_start_result:
  obtains item where "Start (\<lambda>_. True) example_sha False (example_env 1) example_start example_world = (Inr (item, True), example_started)"
proof -
  obtain item where "fst (Start (\<lambda>_. True) example_sha False (example_env 1) example_start example_world) = Inr (item, True)"
    using example_start_created by (auto split: sum.splits)
  then show thesis by (intro that [of item]) (simp add: prod_eq_iff example_started_def)
qed


text \<open>C38. Reusing an idempotency key for another payload is refused and changes nothing.\<close>

theorem Start_conflict:
  assumes "Start compiles sha256 fault env inp db = (Inr (item, True), db1)" and "work_step\<^sup>*\<^sup>* db1 db2"
    and "sti_actor inp' = sti_actor inp" "sti_workflow_key inp' = sti_workflow_key inp" "sti_idempotency_key inp' = sti_idempotency_key inp"
    and "sti_title inp' \<noteq> []" "validateSourcePresentation (sti_source_presentation inp') = None" "sti_source_bytes inp' \<le> MaxSourceBytes"
    and "source_refs (sti_artifact_refs inp) = Inr refs" "source_refs (sti_artifact_refs inp') = Inr refs'"
    and "startPayloadHash sha256 inp' refs' = Inr hash'" "startPayloadHash sha256 inp refs \<noteq> Inr hash'"
  shows "Start compiles' sha256 False env' inp' db2 = (Inl (Fail (WkConflict ''idempotency key reused with different payload'')), db2)"
proof -
  obtain hash where pre: "startPayloadHash sha256 inp refs = Inr hash" "sti_actor inp \<noteq> []" "sti_workflow_key inp \<noteq> []" "sti_idempotency_key inp \<noteq> []"
    and tx: "start_tx compiles env inp refs hash db = Inr ((wi_id (w_row item), True), db1)"
    using assms(1,9) by (elim Start_tx) simp
  have key: "start_key inp' = start_key inp" using assms(3-5) by (simp add: start_key_def fun_eq_iff)
  from grows_lookup [OF work_steps_grows [OF assms(2)] started_lookup [OF tx]]
  obtain w where w: "find (start_key inp) (work_items db2) = Some w" "wi_start_payload_hash w = hash"
    unfolding start_lookup [symmetric] by (auto simp: item_start_def)
  then have "start_tx compiles' env' inp' refs' hash' db2 = Inl (WkConflict ''idempotency key reused with different payload'')"
    using assms(12) pre(1) by (simp add: start_tx_def key)
  then show ?thesis using assms pre by (simp add: Start_def run_tx_def)
qed

lemma example_presentation_valid:
  "validateSourcePresentation \<lparr>spn_kind = ''mail'', spn_title = ''T'', spn_subtitle = [], spn_original_url = [], spn_evidence = []\<rparr> = None"
  by code_simp

theorem Start_conflict_example:
  "Start (\<lambda>_. True) example_sha False (example_env 9) (example_start\<lparr>sti_title := ''U''\<rparr>) example_deducted
     = (Inl (Fail (WkConflict ''idempotency key reused with different payload'')), example_deducted)"
proof -
  obtain item where first: "Start (\<lambda>_. True) example_sha False (example_env 1) example_start example_world = (Inr (item, True), example_started)"
    by (rule example_start_result)
  show ?thesis
    by (rule Start_conflict [OF first example_work_reachable(2), of "example_start\<lparr>sti_title := ''U''\<rparr>" "[]" "[]" "''U''"])
      (simp_all add: example_start_def example_presentation_valid MaxSourceBytes_def startPayloadHash_def start_payload_def example_sha_def)
qed

end
