(* ===== verification/Dispatch_Store.thy ===== *)
theory Dispatch_Store
  imports Work_Steps "HOL-Library.Word"
begin

text \<open>
  The dispatch store, \<^verbatim>\<open>src/control-plane/internal/dispatch/store.go\<close>: which worker runs
  which turn under which fencing generation, how far the worker's events were applied, which
  sandbox user a session owns, and which pools may take new work.

  \<open>dispatch_db\<close> extends \<open>work_db\<close> by the tables of migrations 000013, 000014 and 000025
  and the pool registry, so the operations of the runtime and of the work store act on it
  unchanged. Sequence numbers of worker events and sandbox users keep their widths
  (\<^verbatim>\<open>uint64\<close>, \<^verbatim>\<open>uint32\<close>); a free ratio is the exact value of its float64.

  A method that is one statement runs in a transaction of its own. \<open>AllocateSessionUID\<close> is
  several statements, and \<open>tryAllocSessionUID\<close> reads before it writes: what other
  transactions commit at those points is the argument \<open>between\<close>.
\<close>

section \<open>Rows\<close>

datatype AssignmentState = AssignmentActive | AssignmentTerminal | AssignmentFenced

record Assignment =
  as_turn_id :: uuid
  as_run_id :: uuid
  as_pool_id :: uuid
  as_worker_id :: string
  as_fencing_generation :: int
  as_attempt_id :: string
  as_scope_identity_id :: uuid
  as_agent_pool_key :: string
  as_model_permission :: json
  as_capability_request :: json
  as_tool_version_snapshot :: json
  as_work_item_id :: "uuid option"
  as_node_execution_id :: "uuid option"
  as_state :: AssignmentState
  as_highest_applied_sequence :: "64 word"
  as_assigned_at :: time
  as_terminalized_at :: "time option"

record AssignmentInput =
  ai_turn_id :: uuid
  ai_run_id :: uuid
  ai_pool_id :: uuid
  ai_worker_id :: string
  ai_fencing_generation :: int
  ai_attempt_id :: string
  ai_scope_identity_id :: uuid
  ai_agent_pool_key :: string
  ai_session_id :: string
  ai_sandbox_uid :: "32 word"
  ai_sandbox_gid :: "32 word"
  ai_model_permission :: "json option"
  ai_capability_request :: "json option"
  ai_tool_version_snapshot :: "json option"
  ai_work_item_id :: uuid
  ai_node_execution_id :: uuid

datatype UidState = UidInUse | UidFreed

record UidAllocation =
  ua_uid :: nat
  ua_session_id :: string
  ua_state :: UidState
  ua_allocated_at :: time
  ua_freed_at :: "time option"

record WorkspaceCapacityState =
  wc_pool_id :: uuid
  wc_observed :: bool
  wc_free_bytes :: int
  wc_capacity_bytes :: int
  wc_free_ratio :: rat
  wc_warning :: bool
  wc_credit_gated :: bool
  wc_storage_authorized :: bool
  wc_observed_at :: "time option"

record Pool =
  pl_id :: uuid
  pl_key :: string
  pl_name :: string
  pl_spiffe_id_prefix :: string
  pl_deleted_at :: "time option"

record dispatch_db = work_db +
  turn_assignments :: "Assignment list"
  uid_allocations :: "UidAllocation list"
  capacity_states :: "WorkspaceCapacityState list"
  pools :: "Pool list"

datatype dispatch_error =
    DErrNotFound | DErrPoolStorageUnauthorized | DErrAlreadyAssigned | DErrAssignmentNotActive
  | DErrSessionUIDUnavailable | DErrSessionIdentityMismatch | DErrSessionUIDActive | DErrOutOfOrderSequence
  | DErrUIDExhausted | DErrUIDRace | DErrUniqueViolation | DErrConstraint | DErrRange | DErrRetries

definition MaxInt64 :: int where
  "MaxInt64 = 2 ^ 63 - 1"

definition MaxInt32 :: int where
  "MaxInt32 = 2 ^ 31 - 1"

section \<open>Assignments\<close>

definition MaxFencingGeneration :: "'z dispatch_db_scheme \<Rightarrow> dispatch_error + nat" where
  "MaxFencingGeneration db =
     (case map as_fencing_generation (turn_assignments db) of
        [] \<Rightarrow> Inr 0
      | g # gs \<Rightarrow> (let m = fold max gs g in if m < 0 then Inl DErrRange else Inr (nat m)))"

definition active_assignment :: "uuid \<Rightarrow> 'z dispatch_db_scheme \<Rightarrow> Assignment option" where
  "active_assignment turnID db = find (\<lambda>a. as_turn_id a = turnID \<and> as_state a = AssignmentActive) (turn_assignments db)"

definition new_assignment :: "time \<Rightarrow> AssignmentInput \<Rightarrow> Assignment" where
  "new_assignment now inp =
     \<lparr>as_turn_id = ai_turn_id inp, as_run_id = ai_run_id inp, as_pool_id = ai_pool_id inp, as_worker_id = ai_worker_id inp,
      as_fencing_generation = ai_fencing_generation inp, as_attempt_id = ai_attempt_id inp,
      as_scope_identity_id = ai_scope_identity_id inp, as_agent_pool_key = ai_agent_pool_key inp,
      as_model_permission = jsonB (ai_model_permission inp), as_capability_request = jsonB (ai_capability_request inp),
      as_tool_version_snapshot = jsonB (ai_tool_version_snapshot inp), as_work_item_id = nullable (ai_work_item_id inp),
      as_node_execution_id = nullable (ai_node_execution_id inp), as_state = AssignmentActive,
      as_highest_applied_sequence = 0, as_assigned_at = now, as_terminalized_at = None\<rparr>"

text \<open>The primary key, then the foreign keys.\<close>

definition insert_assignment :: "Assignment \<Rightarrow> (dispatch_error, 'z dispatch_db_scheme, Assignment) tx" where
  "insert_assignment a db =
     (if exists_row (\<lambda>x. as_turn_id x = as_turn_id a) (turn_assignments db) then Inl DErrAlreadyAssigned
      else if exists_row (\<lambda>t. turn_id t = as_turn_id a) (turns db) \<and> exists_row (\<lambda>r. run_id r = as_run_id a) (runs db)
         \<and> (case as_work_item_id a of None \<Rightarrow> True | Some w \<Rightarrow> exists_row (\<lambda>i. wi_id i = w) (work_items db))
         \<and> (case as_node_execution_id a of None \<Rightarrow> True | Some n \<Rightarrow> exists_row (\<lambda>x. ne_id x = n) (node_executions db))
      then Inr (a, db\<lparr>turn_assignments := turn_assignments db @ [a]\<rparr>)
      else Inl DErrConstraint)"

definition create_assignment_tx :: "time \<Rightarrow> AssignmentInput \<Rightarrow> (dispatch_error, 'z dispatch_db_scheme, Assignment) tx" where
  "create_assignment_tx now inp db =
     (case find_run (ai_run_id inp) db of
        None \<Rightarrow> Inl DErrNotFound
      | Some r \<Rightarrow>
          if run_session_id r \<noteq> ai_session_id inp then Inl DErrSessionIdentityMismatch
          else (case find (\<lambda>u. ua_session_id u = ai_session_id inp) (uid_allocations db) of
              None \<Rightarrow> Inl DErrSessionUIDUnavailable
            | Some u \<Rightarrow>
                if ua_state u \<noteq> UidInUse then Inl DErrSessionUIDUnavailable
                else if ua_uid u \<noteq> unat (ai_sandbox_uid inp) then Inl DErrSessionIdentityMismatch
                else insert_assignment (new_assignment now inp) db))"

definition CreateAssignment ::
  "bool \<Rightarrow> time \<Rightarrow> AssignmentInput \<Rightarrow> 'z dispatch_db_scheme \<Rightarrow> (dispatch_error failure + Assignment) \<times> 'z dispatch_db_scheme" where
  "CreateAssignment fault now inp db =
     (if ai_session_id inp = [] \<or> ai_sandbox_uid inp = 0 \<or> ai_sandbox_uid inp \<noteq> ai_sandbox_gid inp
      then (Inl (Fail DErrSessionIdentityMismatch), db)
      else run_tx fault (create_assignment_tx now inp) db)"

definition ResolveActiveAssignment :: "uuid \<Rightarrow> 'z dispatch_db_scheme \<Rightarrow> dispatch_error + Assignment" where
  "ResolveActiveAssignment turnID db =
     (case active_assignment turnID db of None \<Rightarrow> Inl DErrAssignmentNotActive | Some a \<Rightarrow> Inr a)"

definition held_by :: "uuid \<Rightarrow> string \<Rightarrow> Assignment \<Rightarrow> bool" where
  "held_by poolID workerID a \<longleftrightarrow> as_pool_id a = poolID \<and> as_worker_id a = workerID \<and> as_state a = AssignmentActive"

definition ActiveAssignmentForWorker :: "uuid \<Rightarrow> string \<Rightarrow> 'z dispatch_db_scheme \<Rightarrow> dispatch_error + Assignment" where
  "ActiveAssignmentForWorker poolID workerID db =
     (case find (held_by poolID workerID) (turn_assignments db) of None \<Rightarrow> Inl DErrNotFound | Some a \<Rightarrow> Inr a)"

definition fenced :: "Assignment \<Rightarrow> Assignment" where
  "fenced a = a\<lparr>as_state := AssignmentFenced\<rparr>"

text \<open>\<^verbatim>\<open>UPDATE ... RETURNING\<close> read by \<^verbatim>\<open>QueryRow\<close>: every matching row changes, the first is
  returned.\<close>

definition fence_where :: "(Assignment \<Rightarrow> bool) \<Rightarrow> (dispatch_error, 'z dispatch_db_scheme, Assignment) tx" where
  "fence_where P db =
     (case find P (turn_assignments db) of
        None \<Rightarrow> Inl DErrNotFound
      | Some a \<Rightarrow> Inr (fenced a, db\<lparr>turn_assignments := update_where P fenced (turn_assignments db)\<rparr>))"

definition FenceWorkerGeneration ::
  "bool \<Rightarrow> uuid \<Rightarrow> string \<Rightarrow> 'z dispatch_db_scheme \<Rightarrow> (dispatch_error failure + Assignment) \<times> 'z dispatch_db_scheme" where
  "FenceWorkerGeneration fault poolID workerID = run_tx fault (fence_where (held_by poolID workerID))"

definition FenceWorkerGenerationIf ::
  "bool \<Rightarrow> uuid \<Rightarrow> string \<Rightarrow> int \<Rightarrow> 'z dispatch_db_scheme \<Rightarrow> (dispatch_error failure + Assignment) \<times> 'z dispatch_db_scheme" where
  "FenceWorkerGenerationIf fault poolID workerID expectedGen =
     run_tx fault (fence_where (\<lambda>a. held_by poolID workerID a \<and> as_fencing_generation a = expectedGen))"

definition PriorAssignmentForWorker :: "uuid \<Rightarrow> string \<Rightarrow> 'z dispatch_db_scheme \<Rightarrow> dispatch_error + Assignment" where
  "PriorAssignmentForWorker poolID workerID db =
     (case limit1 (order_by (\<lambda>a. - as_assigned_at a)
             (filter (\<lambda>a. as_pool_id a = poolID \<and> as_worker_id a = workerID) (turn_assignments db))) of
        None \<Rightarrow> Inl DErrNotFound
      | Some a \<Rightarrow> Inr a)"

definition terminalize_where :: "time \<Rightarrow> uuid \<Rightarrow> Assignment list \<Rightarrow> Assignment list" where
  "terminalize_where now turnID =
     update_where (\<lambda>a. as_turn_id a = turnID \<and> as_state a \<in> {AssignmentActive, AssignmentFenced})
       (\<lambda>a. a\<lparr>as_state := AssignmentTerminal, as_terminalized_at := Some now\<rparr>)"

definition TerminalizeAssignment ::
  "bool \<Rightarrow> time \<Rightarrow> uuid \<Rightarrow> 'z dispatch_db_scheme \<Rightarrow> (dispatch_error failure + unit) \<times> 'z dispatch_db_scheme" where
  "TerminalizeAssignment fault now turnID =
     run_tx fault (\<lambda>db. Inr ((), db\<lparr>turn_assignments := terminalize_where now turnID (turn_assignments db)\<rparr>))"

section \<open>Worker events\<close>

text \<open>The statements both appending methods share once the row is locked: the sequence is
  compared with the watermark, the event appended, the watermark moved. A watermark beyond
  \<^verbatim>\<open>bigint\<close> is refused by the driver.\<close>

definition apply_turn_event ::
  "time \<Rightarrow> uuid \<Rightarrow> uuid \<Rightarrow> 64 word \<Rightarrow> EventKind \<Rightarrow> json option \<Rightarrow> Assignment
   \<Rightarrow> (dispatch_error, 'z dispatch_db_scheme, bool) tx" where
  "apply_turn_event now eid turnID workerSeq kind payload a db =
     (if workerSeq \<le> as_highest_applied_sequence a then Inr (False, db)
      else if workerSeq \<noteq> as_highest_applied_sequence a + 1 then Inl DErrOutOfOrderSequence
      else (case appendEventTx now eid (as_run_id a) turnID [] kind payload db of
          Inl e \<Rightarrow> Inl DErrConstraint
        | Inr (_, db1) \<Rightarrow>
            if MaxInt64 < uint workerSeq then Inl DErrRange
            else Inr (True, db1\<lparr>turn_assignments := update_where (\<lambda>x. as_turn_id x = turnID)
                   (\<lambda>x. x\<lparr>as_highest_applied_sequence := workerSeq\<rparr>) (turn_assignments db1)\<rparr>)))"

definition AppendTurnEvent ::
  "bool \<Rightarrow> time \<Rightarrow> uuid \<Rightarrow> uuid \<Rightarrow> 64 word \<Rightarrow> EventKind \<Rightarrow> json option \<Rightarrow> 'z dispatch_db_scheme
   \<Rightarrow> (dispatch_error failure + bool) \<times> 'z dispatch_db_scheme" where
  "AppendTurnEvent fault now eid turnID workerSeq kind payload = run_tx fault (\<lambda>db.
     case active_assignment turnID db of
       None \<Rightarrow> Inl DErrAssignmentNotActive
     | Some a \<Rightarrow> apply_turn_event now eid turnID workerSeq kind payload a db)"

definition AppendAfterTerminalEvent ::
  "bool \<Rightarrow> time \<Rightarrow> uuid \<Rightarrow> uuid \<Rightarrow> 64 word \<Rightarrow> EventKind \<Rightarrow> json option \<Rightarrow> uuid \<Rightarrow> string \<Rightarrow> 'z dispatch_db_scheme
   \<Rightarrow> (dispatch_error failure + bool) \<times> 'z dispatch_db_scheme" where
  "AppendAfterTerminalEvent fault now eid turnID workerSeq kind payload poolID workerID = run_tx fault (\<lambda>db.
     case find (\<lambda>a. as_turn_id a = turnID \<and> as_pool_id a = poolID \<and> as_worker_id a = workerID) (turn_assignments db) of
       None \<Rightarrow> Inl DErrNotFound
     | Some a \<Rightarrow> apply_turn_event now eid turnID workerSeq kind payload a db)"

definition AckWatermark :: "uuid \<Rightarrow> 'z dispatch_db_scheme \<Rightarrow> dispatch_error + 64 word" where
  "AckWatermark turnID db =
     (case active_assignment turnID db of
        None \<Rightarrow> Inl DErrAssignmentNotActive
      | Some a \<Rightarrow> Inr (as_highest_applied_sequence a))"

definition SessionIDForRun :: "uuid \<Rightarrow> 'z dispatch_db_scheme \<Rightarrow> dispatch_error + string" where
  "SessionIDForRun runID db = (case find_run runID db of None \<Rightarrow> Inl DErrNotFound | Some r \<Rightarrow> Inr (run_session_id r))"

section \<open>Sandbox users\<close>

definition freed_before :: "time \<Rightarrow> UidAllocation \<Rightarrow> bool" where
  "freed_before t u \<longleftrightarrow> ua_state u = UidFreed \<and> (case ua_freed_at u of None \<Rightarrow> False | Some f \<Rightarrow> f < t)"

definition reuse :: "UidAllocation \<Rightarrow> UidAllocation" where
  "reuse u = u\<lparr>ua_state := UidInUse, ua_freed_at := None\<rparr>"

text \<open>The lowest user of the range that has no row or one freed before \<open>graceBefore\<close>. The end of
  the range is computed in \<^verbatim>\<open>uint32\<close>.\<close>

definition free_candidate :: "32 word \<Rightarrow> 32 word \<Rightarrow> time \<Rightarrow> UidAllocation list \<Rightarrow> nat option" where
  "free_candidate base n graceBefore us =
     find (\<lambda>g. case find (\<lambda>u. ua_uid u = g) us of None \<Rightarrow> True | Some u \<Rightarrow> freed_before graceBefore u)
       [unat base..<Suc (unat (base + n - 1))]"

definition claim_uid :: "time \<Rightarrow> time \<Rightarrow> nat \<Rightarrow> string \<Rightarrow> (dispatch_error, 'z dispatch_db_scheme, nat) tx" where
  "claim_uid now graceBefore uid sessionID db =
     (case find (\<lambda>u. ua_uid u = uid) (uid_allocations db) of
        None \<Rightarrow>
          if exists_row (\<lambda>u. ua_session_id u = sessionID) (uid_allocations db) then Inl DErrUniqueViolation
          else Inr (uid, db\<lparr>uid_allocations := uid_allocations db @
                 [\<lparr>ua_uid = uid, ua_session_id = sessionID, ua_state = UidInUse, ua_allocated_at = now, ua_freed_at = None\<rparr>]\<rparr>)
      | Some u \<Rightarrow>
          if \<not> freed_before graceBefore u then Inl DErrUIDRace
          else if exists_row (\<lambda>x. ua_session_id x = sessionID \<and> ua_uid x \<noteq> uid) (uid_allocations db) then Inl DErrUniqueViolation
          else Inr (uid, db\<lparr>uid_allocations := update_where (\<lambda>x. ua_uid x = uid)
                 (\<lambda>x. reuse (x\<lparr>ua_session_id := sessionID\<rparr>)) (uid_allocations db)\<rparr>))"

definition tryAllocSessionUID ::
  "bool \<Rightarrow> time \<Rightarrow> time \<Rightarrow> ('z dispatch_db_scheme \<Rightarrow> 'z dispatch_db_scheme) \<Rightarrow> string \<Rightarrow> 32 word \<Rightarrow> 32 word
   \<Rightarrow> 'z dispatch_db_scheme \<Rightarrow> (dispatch_error failure + nat) \<times> 'z dispatch_db_scheme" where
  "tryAllocSessionUID fault now graceBefore between sessionID base n db =
     (if fault then (Inl Infra, db)
      else if MaxInt32 < uint base \<or> MaxInt32 < uint (base + n - 1) then (Inl (Fail DErrRange), db)
      else case free_candidate base n graceBefore (uid_allocations db) of
        None \<Rightarrow> (Inl (Fail DErrUIDExhausted), db)
      | Some uid \<Rightarrow> run_tx False (claim_uid now graceBefore uid sessionID) (between db))"

definition uid_of_session :: "string \<Rightarrow> (UidAllocation \<Rightarrow> bool) \<Rightarrow> 'z dispatch_db_scheme \<Rightarrow> UidAllocation option" where
  "uid_of_session sessionID P db = find (\<lambda>u. ua_session_id u = sessionID \<and> P u) (uid_allocations db)"

definition reuse_where :: "string \<Rightarrow> (UidAllocation \<Rightarrow> bool) \<Rightarrow> 'z dispatch_db_scheme \<Rightarrow> 'z dispatch_db_scheme" where
  "reuse_where sessionID P db =
     db\<lparr>uid_allocations := update_where (\<lambda>u. ua_session_id u = sessionID \<and> P u) reuse (uid_allocations db)\<rparr>"

text \<open>The process state of one call: whether each statement fails, the clock and the database's
  time, and what others commit, by the position of the statement.\<close>

record 'db alloc_env =
  al_fault :: "nat \<Rightarrow> bool"
  al_clock :: "nat \<Rightarrow> time"
  al_now :: "nat \<Rightarrow> time"
  al_between :: "nat \<Rightarrow> 'db \<Rightarrow> 'db"
  al_within :: "nat \<Rightarrow> 'db \<Rightarrow> 'db"

fun alloc_attempts ::
  "'z dispatch_db_scheme alloc_env \<Rightarrow> string \<Rightarrow> 32 word \<Rightarrow> 32 word \<Rightarrow> time \<Rightarrow> nat \<Rightarrow> nat
   \<Rightarrow> 'z dispatch_db_scheme \<Rightarrow> (dispatch_error failure + nat) \<times> 'z dispatch_db_scheme" where
  "alloc_attempts ae sessionID base n grace i 0 db = (Inl (Fail DErrRetries), db)"
| "alloc_attempts ae sessionID base n grace i (Suc left) db =
     (case tryAllocSessionUID (al_fault ae i) (al_now ae i) (al_clock ae i - grace) (al_within ae i) sessionID base n (al_between ae i db) of
        (Inr uid, db1) \<Rightarrow> (Inr uid, db1)
      | (Inl (Fail DErrUniqueViolation), db1) \<Rightarrow> alloc_attempts ae sessionID base n grace (Suc i) left db1
      | (Inl (Fail DErrUIDRace), db1) \<Rightarrow> alloc_attempts ae sessionID base n grace (Suc i) left db1
      | (Inl e, db1) \<Rightarrow> (Inl e, db1))"

definition AllocateSessionUID ::
  "'z dispatch_db_scheme alloc_env \<Rightarrow> string \<Rightarrow> 32 word \<Rightarrow> 32 word \<Rightarrow> time
   \<Rightarrow> 'z dispatch_db_scheme \<Rightarrow> (dispatch_error failure + nat) \<times> 'z dispatch_db_scheme" where
  "AllocateSessionUID ae sessionID base n grace db =
     (if n = 0 then (Inl (Fail DErrUIDExhausted), db)
      else let graceBefore = al_clock ae 0 - grace; in_use = (\<lambda>u. ua_state u = UidInUse)
       in if al_fault ae 0 then (Inl Infra, db)
       else case uid_of_session sessionID in_use db of
         Some u \<Rightarrow> (Inr (ua_uid u), reuse_where sessionID in_use db)
       | None \<Rightarrow>
          let db1 = al_between ae 1 db
          in if al_fault ae 1 then (Inl Infra, db1)
          else case uid_of_session sessionID (freed_before graceBefore) db1 of
            Some u \<Rightarrow> (Inr (ua_uid u), reuse_where sessionID (freed_before graceBefore) db1)
          | None \<Rightarrow>
             let db2 = al_between ae 2 db1
             in if al_fault ae 2 then (Inl Infra, db2)
             else if exists_row (\<lambda>u. ua_session_id u = sessionID \<and> ua_state u = UidFreed
                       \<and> (case ua_freed_at u of None \<Rightarrow> False | Some f \<Rightarrow> graceBefore \<le> f)) (uid_allocations db2)
             then (Inl (Fail DErrUIDExhausted), db2)
             else alloc_attempts ae sessionID base n grace 3 8 db2)"

definition SessionUID :: "string \<Rightarrow> 'z dispatch_db_scheme \<Rightarrow> dispatch_error + nat" where
  "SessionUID sessionID db =
     (case uid_of_session sessionID (\<lambda>u. ua_state u = UidInUse) db of None \<Rightarrow> Inl DErrNotFound | Some u \<Rightarrow> Inr (ua_uid u))"

definition session_active :: "string \<Rightarrow> 'z dispatch_db_scheme \<Rightarrow> bool" where
  "session_active sessionID db =
     exists_row (\<lambda>a. as_state a = AssignmentActive
       \<and> exists_row (\<lambda>r. run_id r = as_run_id a \<and> run_session_id r = sessionID) (runs db)) (turn_assignments db)"

definition ReleaseSessionUID ::
  "bool \<Rightarrow> time \<Rightarrow> string \<Rightarrow> 'z dispatch_db_scheme \<Rightarrow> (dispatch_error failure + unit) \<times> 'z dispatch_db_scheme" where
  "ReleaseSessionUID fault now sessionID = run_tx fault (\<lambda>db.
     case find (\<lambda>u. ua_session_id u = sessionID) (uid_allocations db) of
       None \<Rightarrow> Inr ((), db)
     | Some u \<Rightarrow>
         if ua_state u = UidFreed then Inr ((), db)
         else if session_active sessionID db then Inl DErrSessionUIDActive
         else Inr ((), db\<lparr>uid_allocations := update_where (\<lambda>x. ua_session_id x = sessionID \<and> ua_state x = UidInUse)
                (\<lambda>x. x\<lparr>ua_state := UidFreed, ua_freed_at := Some now\<rparr>) (uid_allocations db)\<rparr>))"

section \<open>Workspace capacity\<close>

text \<open>The float64 nearest to 0.20, and 0.25.\<close>

definition ratio_gate :: rat where
  "ratio_gate = 3602879701896397 / 18014398509481984"

definition ratio_open :: rat where
  "ratio_open = 1 / 4"

definition freshCreditGated :: "WorkspaceCapacityState \<Rightarrow> bool" where
  "freshCreditGated s \<longleftrightarrow> wc_credit_gated s \<or> \<not> wc_storage_authorized s"

definition scan_capacity_ok :: "WorkspaceCapacityState \<Rightarrow> bool" where
  "scan_capacity_ok s \<longleftrightarrow> wc_pool_id s \<noteq> [] \<and> 0 \<le> wc_free_bytes s \<and> 0 \<le> wc_capacity_bytes s"

definition LoadWorkspaceCapacityStates :: "'z dispatch_db_scheme \<Rightarrow> dispatch_error + (uuid \<times> WorkspaceCapacityState) list" where
  "LoadWorkspaceCapacityStates db =
     (let rows = filter (\<lambda>s. exists_row (\<lambda>p. pl_id p = wc_pool_id s \<and> pl_deleted_at p = None) (pools db)) (capacity_states db)
      in if list_all scan_capacity_ok rows then Inr (map (\<lambda>s. (wc_pool_id s, s)) rows) else Inl DErrRange)"

definition next_gate :: "bool \<Rightarrow> rat \<Rightarrow> bool" where
  "next_gate gated ratio = (if ratio \<le> ratio_gate then True else if ratio_open \<le> ratio then False else gated)"

definition observe_tx ::
  "time \<Rightarrow> uuid \<Rightarrow> int \<Rightarrow> int \<Rightarrow> rat \<Rightarrow> (dispatch_error, 'z dispatch_db_scheme, WorkspaceCapacityState) tx" where
  "observe_tx now poolID free capacity ratio db =
     (if \<not> exists_row (\<lambda>p. pl_id p = poolID) (pools db) \<or> ratio < 0 \<or> 1 < ratio then Inl DErrConstraint
      else case find (\<lambda>s. wc_pool_id s = poolID) (capacity_states db) of
        None \<Rightarrow>
          let s = \<lparr>wc_pool_id = poolID, wc_observed = True, wc_free_bytes = free, wc_capacity_bytes = capacity,
                wc_free_ratio = ratio, wc_warning = ratio < ratio_open, wc_credit_gated = ratio < ratio_open,
                wc_storage_authorized = False, wc_observed_at = Some now\<rparr>
          in Inr (s, db\<lparr>capacity_states := capacity_states db @ [s]\<rparr>)
      | Some s \<Rightarrow>
          let observe = (\<lambda>s. s\<lparr>wc_observed := True, wc_free_bytes := free, wc_capacity_bytes := capacity,
                wc_free_ratio := ratio, wc_warning := ratio < ratio_open,
                wc_credit_gated := next_gate (wc_credit_gated s) ratio, wc_observed_at := Some now\<rparr>)
          in Inr (observe s, db\<lparr>capacity_states := update_where (\<lambda>s. wc_pool_id s = poolID) observe (capacity_states db)\<rparr>))"

definition ObserveWorkspaceCapacity ::
  "bool \<Rightarrow> time \<Rightarrow> uuid \<Rightarrow> 64 word \<Rightarrow> 64 word \<Rightarrow> rat \<Rightarrow> 'z dispatch_db_scheme
   \<Rightarrow> (dispatch_error failure + WorkspaceCapacityState) \<times> 'z dispatch_db_scheme" where
  "ObserveWorkspaceCapacity fault now poolID free capacity ratio db =
     (if MaxInt64 < uint free \<or> MaxInt64 < uint capacity then (Inl (Fail DErrRange), db)
      else run_tx fault (observe_tx now poolID (uint free) (uint capacity) ratio) db)"

section \<open>Pools\<close>

text \<open>SQL \<^verbatim>\<open>LIKE\<close>, given the text and the pattern: \<^verbatim>\<open>%\<close> is any text, \<^verbatim>\<open>_\<close> any character,
  a backslash takes the next character as it is.\<close>

fun like :: "string \<Rightarrow> string \<Rightarrow> bool" where
  "like s [] = (s = [])"
| "like s (p # ps) =
     (if p = CHR ''%'' then like s ps \<or> (case s of [] \<Rightarrow> False | _ # t \<Rightarrow> like t (p # ps))
      else if p = CHR ''_'' then (case s of [] \<Rightarrow> False | _ # t \<Rightarrow> like t ps)
      else if p = CHR 0x5C then (case ps of [] \<Rightarrow> False | q # qs \<Rightarrow> (case s of [] \<Rightarrow> False | c # t \<Rightarrow> c = q \<and> like t qs))
      else (case s of [] \<Rightarrow> False | c # t \<Rightarrow> c = p \<and> like t ps))"

definition ResolvePoolBySpiffePrefix :: "string \<Rightarrow> 'z dispatch_db_scheme \<Rightarrow> dispatch_error + Pool" where
  "ResolvePoolBySpiffePrefix spiffeID db =
     (case limit1 (order_by (\<lambda>p. - int (length (pl_spiffe_id_prefix p)))
             (filter (\<lambda>p. like spiffeID (pl_spiffe_id_prefix p @ ''%'') \<and> pl_deleted_at p = None) (pools db))) of
        None \<Rightarrow> Inl DErrNotFound
      | Some p \<Rightarrow> Inr p)"

definition AssignRunToPool ::
  "bool \<Rightarrow> time \<Rightarrow> uuid \<Rightarrow> uuid \<Rightarrow> 'z dispatch_db_scheme \<Rightarrow> (dispatch_error failure + unit) \<times> 'z dispatch_db_scheme" where
  "AssignRunToPool fault now runID poolID = run_tx fault (\<lambda>db.
     if \<not> exists_row (\<lambda>r. run_id r = runID) (runs db) then Inl DErrConstraint
     else if exists_row (\<lambda>p. rp_run_id p = runID) (run_pools db)
     then Inr ((), db\<lparr>run_pools := update_where (\<lambda>p. rp_run_id p = runID) (\<lambda>p. p\<lparr>rp_pool_id := poolID, rp_assigned_at := now\<rparr>) (run_pools db)\<rparr>)
     else Inr ((), db\<lparr>run_pools := run_pools db @ [\<lparr>rp_run_id = runID, rp_pool_id = poolID, rp_assigned_at = now\<rparr>]\<rparr>))"

definition PoolForRun :: "uuid \<Rightarrow> 'z dispatch_db_scheme \<Rightarrow> dispatch_error + uuid" where
  "PoolForRun runID db =
     (case find (\<lambda>p. rp_run_id p = runID) (run_pools db) of
        None \<Rightarrow> Inl DErrNotFound
      | Some p \<Rightarrow>
          if (case find (\<lambda>s. wc_pool_id s = rp_pool_id p) (capacity_states db) of None \<Rightarrow> False | Some s \<Rightarrow> wc_storage_authorized s)
          then Inr (rp_pool_id p) else Inl DErrPoolStorageUnauthorized)"

end
