(* ===== verification/Dispatch_Steps.thy ===== *)
theory Dispatch_Steps
  imports Dispatch_Store
begin

text \<open>
  The steps of the dispatch store beside the runtime and the work store, and what they keep: the
  keys of its tables, the life of an assignment, the watermark of worker events, and that the
  sandbox user of a session stays in use while one of its turns is assigned.
\<close>

section \<open>What the other stores leave to dispatch\<close>

text \<open>The tables of the dispatch store, and the session of every run.\<close>

definition carries :: "'z work_db_scheme \<Rightarrow> 'z work_db_scheme \<Rightarrow> bool" where
  "carries db db' \<longleftrightarrow> work_db.more db' = work_db.more db \<and> prefix (map run_session (runs db)) (map run_session (runs db'))"

lemma carries_refl [simp]: "carries db db"
  by (simp add: carries_def)

lemma carries_trans: "carries a b \<Longrightarrow> carries b c \<Longrightarrow> carries a c"
  unfolding carries_def by (elim conjE) (intro conjI; (simp | erule (1) prefix_order.trans))

lemma carries_frame [simp]:
  "carries db (set_node nid Q g d) = carries db d" "carries db (set_turn env tid to d) = carries db d"
  "carries db (set_blocker bid R k d) = carries db d" "carries db (set_attempt aid h d) = carries db d"
  "carries db (set_current_attempt env i a d) = carries db d"
  "carries db (d\<lparr>timeline := x1\<rparr>) = carries db d" "carries db (d\<lparr>artifact_links := x2\<rparr>) = carries db d"
  "carries db (d\<lparr>value_ledger := x3\<rparr>) = carries db d" "carries db (d\<lparr>events := x4\<rparr>) = carries db d"
  "carries db (d\<lparr>turns := x5\<rparr>) = carries db d" "carries db (d\<lparr>graph_transitions := x6\<rparr>) = carries db d"
  "carries db (d\<lparr>node_executions := x7\<rparr>) = carries db d" "carries db (d\<lparr>blockers := x8\<rparr>) = carries db d"
  "carries db (d\<lparr>feedback := x9\<rparr>) = carries db d" "carries db (d\<lparr>value_models := x10\<rparr>) = carries db d"
  by (simp_all add: carries_def set_node_def set_turn_def set_blocker_def set_attempt_def set_current_attempt_def)

lemma carries_set_run:
  assumes "\<And>r. run_session (f r) = run_session r"
  shows "carries db (set_run env rid P f d) = carries db d"
proof -
  have "run_session ((f r)\<lparr>run_updated_at := t\<rparr>) = run_session r" for r t
    using assms [of r] by (simp add: run_session_def)
  then show ?thesis unfolding carries_def set_run_def by (simp add: map_update_where)
qed

lemma run_session_simps [simp]:
  "run_session (awaiting r) = run_session r" "run_session (started env to r) = run_session r"
  "run_session (finish_run env to r) = run_session r" "run_session (r\<lparr>run_state := to\<rparr>) = run_session r"
  by (simp_all add: run_session_def awaiting_def started_def finish_run_def)

lemmas carries_set_runs [simp] = carries_set_run [where f = awaiting, simplified]
  carries_set_run [where f = "started env to" for env to, simplified]
  carries_set_run [where f = "finish_run env to" for env to, simplified]
  carries_set_run [where f = "\<lambda>r. r\<lparr>run_state := to\<rparr>" for to, simplified]

lemma createBlocker_carries:
  "createConsequenceBlockerTx env i a n cs db = Inr (u, db') \<Longrightarrow> carries db db'"
  "createHumanBlockerTx env i a n def db = Inr (u, db') \<Longrightarrow> carries db db'"
  by (auto simp: createConsequenceBlockerTx_def createHumanBlockerTx_def split: option.splits if_splits dest!: insert_blocker_Inr)

lemma prepare_node_tx_carries:
  assumes "prepare_node_tx env aid db = Inr (r, db')"
  shows "carries db db'"
proof -
  have block: "carries d d'" if "block_on_consequences env i aid node d = Inr (x, d')" for i node x d d'
    using that by (auto simp: block_on_consequences_def Let_def split: sum.splits if_splits dest!: appendTimelineTx_frame createBlocker_carries)
  have human: "carries d d'" if "prepare_human_gate env i aid def node d = Inr (x, d')" for i node def x d d'
    using that by (auto simp: prepare_human_gate_def Let_def split: sum.splits if_splits dest!: appendTimelineTx_frame createBlocker_carries)
  have turn: "carries d d'" if "start_agent_turn env i aid node d = Inr (x, d')" for i node x d d'
    using that by (cases x) (auto elim!: start_agent_turn_okE)
  show ?thesis using assms
    by (auto simp: prepare_node_tx_def map_sum_Inr_iff split: sum.splits if_splits option.splits prod.splits
      dest: block_on_consequences_None block human turn)
qed

lemma record_report_tx_carries: "record_report_tx validates env tid report db = Inr (u, db') \<Longrightarrow> carries db db'"
  by (auto simp: record_report_tx_def split: option.splits if_splits sum.splits dest!: insert_links_frame)

lemma advanceGraphTx_carries:
  assumes run: "advanceGraphTx env inp db = Inr (r, db')"
  shows "carries db db'"
proof -
  have terminal: "carries d d'" if "advance_terminal env inp a outcome d = Inr (r, d')" for a outcome d d'
    using that by (auto simp: advance_terminal_def Let_def tx_simps insert_transition_Inr dest!: appendTimelineTx_frame creditValueTx_frame)
  have limit: "carries d d'" if "advance_limit env inp d = Inr (r, d')" for d d'
    using that by (auto simp: advance_limit_def Let_def tx_simps dest!: appendTimelineTx_frame)
  have edge: "carries d d'" if "advance_edge env inp a spec outcome target d = Inr (r, d')" for a spec outcome target d d'
    using that by (auto elim!: advance_edge_okE)
  from run show ?thesis
  proof (rule advanceGraphTx_okE)
    fix outcome a d spec def tl target trm
    assume t: "trm \<Longrightarrow> advance_terminal env inp a outcome (db\<lparr>timeline := tl\<rparr>) = Inr (r, db')"
      and l: "\<not> trm \<Longrightarrow> g_max_transitions (at_graph a) \<le> int (transition_count (ga_attempt inp) db) \<Longrightarrow>
         advance_limit env inp (db\<lparr>timeline := tl\<rparr>) = Inr (r, db')"
      and e: "\<not> trm \<Longrightarrow> int (transition_count (ga_attempt inp) db) < g_max_transitions (at_graph a) \<Longrightarrow>
         advance_edge env inp a spec outcome target (db\<lparr>timeline := tl\<rparr>) = Inr (r, db')"
    have "carries db (db\<lparr>timeline := tl\<rparr>)" by simp
    moreover have "carries (db\<lparr>timeline := tl\<rparr>) db'"
      using t [THEN terminal] l [THEN limit] e [THEN edge]
      by (cases trm; cases "g_max_transitions (at_graph a) \<le> int (transition_count (ga_attempt inp) db)") auto
    ultimately show ?thesis by (rule carries_trans)
  qed
qed

lemma complete_turn_tx_carries:
  assumes run: "complete_turn_tx env tid reason cf opf db = Inr (r, db')"
  shows "carries db db'"
proof -
  have failed: "carries d d'" if "fail_turn_tx env t node i reason cf opf d = Inr (r, d')" for t node i d d'
    using that by (auto simp: fail_turn_tx_def Let_def tx_simps dest!: appendTimelineTx_frame)
  from run show ?thesis
  proof (rule complete_turn_tx_okE)
    fix t :: Turn and node :: NodeExecution and a :: Attempt
    let ?db = "set_node (ne_id node) (\<lambda>_. True) (\<lambda>n. n\<lparr>ne_state := NodeSucceeded, ne_finished_at := Some (env_now env)\<rparr>)
              (set_turn env tid TurnSucceeded db)"
    assume f: "reason \<noteq> ''completed'' \<or> ne_outcome node = None \<or> ne_reported_at node = None \<Longrightarrow>
         fail_turn_tx env t node (at_work_item_id a) reason cf opf db = Inr (r, db')"
      and adv: "reason = ''completed'' \<Longrightarrow> ne_outcome node \<noteq> None \<Longrightarrow> ne_reported_at node \<noteq> None \<Longrightarrow>
         advanceGraphTx env \<lparr>ga_item = at_work_item_id a, ga_attempt = turn_run_id t, ga_node = node, ga_actor = []\<rparr> ?db = Inr (r, db')"
    have "carries db ?db" by simp
    then show ?thesis using failed [OF f] carries_trans [OF _ advanceGraphTx_carries [OF adv]] by blast
  qed
qed

lemma respond_blocker_tx_carries:
  assumes run: "respond_blocker_tx validates env inp db = Inr (r, db')"
  shows "carries db db'"
proof -
  have resume: "carries db d'" if "resume_confirmed env inp b nid d = Inr (u, d')" "carries db d" for b nid u d d'
    using that by (auto simp: resume_confirmed_def Let_def dest!: appendTimelineTx_frame)
  have human: "carries db d'" if "completeHumanNodeTx env b nid out resp refs actor d = Inr (u, d')" "carries db d"
    for b nid out resp refs actor u d d'
    using that(1) by (rule completeHumanNodeTx_okE) (drule advanceGraphTx_carries, erule carries_trans [rotated], simp add: that(2))
  show ?thesis using run
    by (auto simp: respond_blocker_tx_def tx_simps split: option.splits sum.splits confirmation.splits if_splits elim!: resume human)
qed

lemma createAttemptTx_carries: "createAttemptTx env inp db = Inr (u, db') \<Longrightarrow> carries db db'"
  by (erule createAttemptTx_okE) (simp add: carries_def)

lemma start_tx_carries:
  assumes "start_tx compiles env inp refs hash db = Inr (r, db')"
  shows "carries db db'"
proof -
  obtain iid created where "r = (iid, created)" by (cases r)
  with assms have "start_tx compiles env inp refs hash db = Inr ((iid, created), db')" by simp
  then show ?thesis
  proof (cases rule: start_tx_okE)
    case (fresh resolved w db1 ca tl)
    have "carries db (db\<lparr>work_items := work_items db @ [w]\<rparr>)" by (simp add: carries_def)
    then have "carries db db1" using createAttemptTx_carries [OF fresh(4)] by (rule carries_trans)
    then show ?thesis by (simp add: fresh(12))
  qed simp
qed

lemma create_revision_tx_carries: "create_revision_tx env inp resolved current db = Inr (u, db') \<Longrightarrow> carries db db'"
  by (erule create_revision_tx_okE) (simp add: createAttemptTx_carries)

lemma save_feedback_tx_carries: "save_feedback_tx env inp db = Inr (f, db') \<Longrightarrow> carries db db'"
  by (erule save_feedback_tx_okE) (auto dest!: deductValueTx_frame)

lemma work_op_carries:
  assumes "work_op db db'"
  shows "carries db db'"
  by (rule work_op_keeps [where I = "carries db", OF _ _ _ _ _ _ _ _ assms carries_refl];
      ((erule carries_trans, erule start_tx_carries prepare_node_tx_carries record_report_tx_carries complete_turn_tx_carries
        respond_blocker_tx_carries save_feedback_tx_carries create_revision_tx_carries) | simp))

lemma rt_step_carries: "rt_step db db' \<Longrightarrow> carries db db'" for db db' :: "'z work_db_scheme"
  by (drule rt_step_frame) (cases db; cases db'; simp add: rt_frame_def carries_def)

lemma carries_find_run:
  assumes "carries db db'" "find_run rid db = Some r"
  obtains r' where "find_run rid db' = Some r'" "run_session_id r' = run_session_id r"
proof -
  have key: "map_of (map run_session rs) rid = map_option run_session_id (find (\<lambda>r. run_id r = rid) rs)" for rs
    by (induction rs) (auto simp: run_session_def)
  from assms(1) obtain zs where "map run_session (runs db') = map run_session (runs db) @ zs"
    by (auto simp: carries_def prefix_def)
  then have "map_of (map run_session (runs db')) rid = Some (run_session_id r)"
    using assms(2) key [of "runs db"] by (simp add: find_run_def map_add_def)
  then show thesis using key [of "runs db'"] that by (auto simp: find_run_def)
qed

section \<open>The dispatch store as a transition system\<close>

text \<open>One step is one statement or transaction of the dispatch store, one operation of the work
  store or of the runtime, or what the rest of the control plane does: it may change the pool
  registry and the capacity rows (the manager authorizes storage there), not the assignments and
  not the sandbox users.\<close>

inductive dispatch_step :: "'z dispatch_db_scheme \<Rightarrow> 'z dispatch_db_scheme \<Rightarrow> bool" where
  ds_create: "dispatch_step db (snd (CreateAssignment fault now inp db))"
| ds_fence: "dispatch_step db (snd (FenceWorkerGeneration fault poolID workerID db))"
| ds_fence_if: "dispatch_step db (snd (FenceWorkerGenerationIf fault poolID workerID gen db))"
| ds_terminalize: "dispatch_step db (snd (TerminalizeAssignment fault now turnID db))"
| ds_append: "dispatch_step db (snd (AppendTurnEvent fault now eid turnID sq kind payload db))"
| ds_after: "dispatch_step db (snd (AppendAfterTerminalEvent fault now eid turnID sq kind payload poolID workerID db))"
| ds_claim: "dispatch_step db (snd (run_tx fault (claim_uid now graceBefore uid sessionID) db))"
| ds_reuse: "P = (\<lambda>u. ua_state u = UidInUse) \<or> P = freed_before graceBefore \<Longrightarrow> dispatch_step db (reuse_where sessionID P db)"
| ds_release: "dispatch_step db (snd (ReleaseSessionUID fault now sessionID db))"
| ds_observe: "dispatch_step db (snd (ObserveWorkspaceCapacity fault now poolID free capacity ratio db))"
| ds_assign_pool: "dispatch_step db (snd (AssignRunToPool fault now runID poolID db))"
| ds_work: "work_op db db' \<Longrightarrow> dispatch_step db db'"
| ds_runtime: "rt_step db db' \<Longrightarrow> dispatch_step db db'"
| ds_others: "others_frame db db' \<Longrightarrow> turn_assignments db' = turn_assignments db \<Longrightarrow> uid_allocations db' = uid_allocations db
    \<Longrightarrow> dispatch_step db db'"

lemma carries_tables:
  fixes db db' :: "'z dispatch_db_scheme"
  assumes "carries db db'"
  shows "turn_assignments db' = turn_assignments db" "uid_allocations db' = uid_allocations db"
    "capacity_states db' = capacity_states db" "pools db' = pools db"
  using assms unfolding carries_def by (cases db; cases db'; simp)+

section \<open>The tables\<close>

definition in_use :: "UidAllocation list \<Rightarrow> string set" where
  "in_use us = ua_session_id ` {u \<in> set us. ua_state u = UidInUse}"

definition uids_ok :: "UidAllocation list \<Rightarrow> bool" where
  "uids_ok us \<longleftrightarrow> distinct (map ua_uid us) \<and> distinct (map ua_session_id us)
     \<and> (\<forall>u \<in> set us. ua_state u = UidInUse \<longleftrightarrow> ua_freed_at u = None)"

definition run_uses :: "Run list \<Rightarrow> uuid \<Rightarrow> string set \<Rightarrow> bool" where
  "run_uses rs rid S \<longleftrightarrow> (\<exists>r. find (\<lambda>r. run_id r = rid) rs = Some r \<and> run_session_id r \<in> S)"

definition sandboxed :: "Run list \<Rightarrow> string set \<Rightarrow> Assignment list \<Rightarrow> bool" where
  "sandboxed rs S as \<longleftrightarrow> (\<forall>a \<in> set as. as_state a = AssignmentActive \<longrightarrow> run_uses rs (as_run_id a) S)"

definition dispatch_inv :: "'z dispatch_db_scheme \<Rightarrow> bool" where
  "dispatch_inv db \<longleftrightarrow> distinct (map as_turn_id (turn_assignments db)) \<and> uids_ok (uid_allocations db)
     \<and> sandboxed (runs db) (in_use (uid_allocations db)) (turn_assignments db)"

lemma carries_sandboxed:
  assumes "carries db db'" "sandboxed (runs db) S as"
  shows "sandboxed (runs db') S as"
  using assms(2) unfolding sandboxed_def run_uses_def
  by (metis assms(1) carries_find_run find_run_def)

lemma sandboxed_update:
  assumes "sandboxed rs S as" "\<And>a. P a \<Longrightarrow> as_run_id (f a) = as_run_id a" "\<And>a. P a \<Longrightarrow> as_state (f a) = AssignmentActive \<Longrightarrow> as_state a = AssignmentActive"
  shows "sandboxed rs S (update_where P f as)"
  using assms unfolding sandboxed_def by (auto simp: set_update_where)

lemma sandboxed_mono: "sandboxed rs S as \<Longrightarrow> S \<subseteq> T \<Longrightarrow> sandboxed rs T as"
  unfolding sandboxed_def run_uses_def by blast

lemma reuse_simps [simp]:
  "ua_uid (reuse u) = ua_uid u" "ua_session_id (reuse u) = ua_session_id u" "ua_state (reuse u) = UidInUse" "ua_freed_at (reuse u) = None"
  by (simp_all add: reuse_def)

lemma uids_ok_reuse: "uids_ok us \<Longrightarrow> uids_ok (update_where P reuse us)"
  by (auto simp: uids_ok_def map_update_where set_update_where)

lemma in_use_reuse: "in_use us \<subseteq> in_use (update_where P reuse us)"
proof
  fix x assume "x \<in> in_use us"
  then obtain u where u: "u \<in> set us" "ua_state u = UidInUse" "x = ua_session_id u" by (auto simp: in_use_def)
  then have "(if P u then reuse u else u) \<in> set (update_where P reuse us)" by (auto simp: update_where_def)
  then show "x \<in> in_use (update_where P reuse us)"
    unfolding in_use_def by (intro image_eqI [of _ _ "if P u then reuse u else u"]) (use u in simp_all)
qed

lemma fenced_simps [simp]:
  "as_turn_id (fenced a) = as_turn_id a" "as_run_id (fenced a) = as_run_id a" "as_state (fenced a) = AssignmentFenced"
  by (simp_all add: fenced_def)

lemma distinct_set_key:
  assumes "distinct (map i xs)" "distinct (map k xs)" "\<forall>x \<in> set xs. i x \<noteq> c \<longrightarrow> k x \<noteq> v" "\<And>x. i x = c \<Longrightarrow> k (f x) = v"
  shows "distinct (map k (update_where (\<lambda>x. i x = c) f xs))"
  using assms(1-3)
proof (induction xs)
  case (Cons a xs)
  show ?case
  proof (cases "i a = c")
    case True
    then have "update_where (\<lambda>x. i x = c) f xs = xs" using Cons.prems(1) by (intro update_where_none) (auto simp: image_iff)
    moreover have "k x \<noteq> v" if "x \<in> set xs" for x
    proof -
      have "i x \<noteq> c" using Cons.prems(1) True that by (auto simp: image_iff)
      then show ?thesis using Cons.prems(3) that by simp
    qed
    ultimately show ?thesis using Cons.prems(2) True assms(4) by auto
  next
    case False
    then have "k a \<noteq> v" using Cons.prems(3) by simp
    then show ?thesis using Cons False assms(4) by (auto simp: set_update_where)
  qed
qed simp

lemma claim_uid_okE:
  assumes "claim_uid now gb uid sid db = Inr (r, db')"
  obtains (fresh) row where "uid \<notin> ua_uid ` set (uid_allocations db)" "sid \<notin> ua_session_id ` set (uid_allocations db)"
      "ua_uid row = uid" "ua_session_id row = sid" "ua_state row = UidInUse" "ua_freed_at row = None"
      "db' = db\<lparr>uid_allocations := uid_allocations db @ [row]\<rparr>" "r = uid"
  | (recycled) u where "find (\<lambda>u. ua_uid u = uid) (uid_allocations db) = Some u" "freed_before gb u"
      "\<forall>x \<in> set (uid_allocations db). ua_uid x \<noteq> uid \<longrightarrow> ua_session_id x \<noteq> sid"
      "db' = db\<lparr>uid_allocations := update_where (\<lambda>x. ua_uid x = uid) (\<lambda>x. reuse (x\<lparr>ua_session_id := sid\<rparr>)) (uid_allocations db)\<rparr>" "r = uid"
proof (cases "find (\<lambda>u. ua_uid u = uid) (uid_allocations db)")
  case None
  then have "uid \<notin> ua_uid ` set (uid_allocations db)" by (auto simp: find_None_iff)
  then show ?thesis using assms None by (intro fresh) (auto simp: claim_uid_def image_iff split: if_splits)
next
  case (Some u)
  then show ?thesis using assms by (intro recycled [OF Some]) (auto simp: claim_uid_def split: if_splits)
qed

lemma uid_unique: "uids_ok us \<Longrightarrow> u \<in> set us \<Longrightarrow> x \<in> set us \<Longrightarrow> ua_uid x = ua_uid u \<Longrightarrow> x = u"
  unfolding uids_ok_def distinct_map by (elim conjE) (erule (3) inj_onD)

lemma session_unique: "uids_ok us \<Longrightarrow> u \<in> set us \<Longrightarrow> x \<in> set us \<Longrightarrow> ua_session_id x = ua_session_id u \<Longrightarrow> x = u"
  unfolding uids_ok_def distinct_map by (elim conjE) (erule (3) inj_onD)

lemma claim_uid_tables:
  assumes "claim_uid now gb uid sid db = Inr (r, db')" "uids_ok (uid_allocations db)"
  shows "uids_ok (uid_allocations db') \<and> in_use (uid_allocations db) \<subseteq> in_use (uid_allocations db')
    \<and> turn_assignments db' = turn_assignments db \<and> runs db' = runs db"
  using assms(1)
proof (cases rule: claim_uid_okE)
  case (fresh row)
  then show ?thesis using assms(2) by (auto simp: uids_ok_def in_use_def)
next
  case (recycled u)
  have u: "u \<in> set (uid_allocations db)" "ua_uid u = uid" using find_SomeD [OF recycled(1)] by auto
  have "distinct (map ua_session_id (uid_allocations db'))"
    unfolding recycled(4) using assms(2) recycled(3) by (simp add: distinct_set_key uids_ok_def)
  then have "uids_ok (uid_allocations db')" using assms(2) by (auto simp: uids_ok_def recycled(4) map_update_where set_update_where)
  moreover have "x \<in> set (uid_allocations db')" if "x \<in> set (uid_allocations db)" "ua_state x = UidInUse" for x
  proof -
    have "ua_uid x \<noteq> uid" using uid_unique [OF assms(2) u(1) that(1)] u(2) that(2) recycled(2) by (auto simp: freed_before_def)
    then show ?thesis using that(1) by (simp add: recycled(4) set_update_where)
  qed
  ultimately show ?thesis by (auto simp: in_use_def recycled(4))
qed

lemma dispatch_inv_carries:
  fixes db db' :: "'z dispatch_db_scheme"
  shows "carries db db' \<Longrightarrow> dispatch_inv db \<Longrightarrow> dispatch_inv db'"
  unfolding dispatch_inv_def by (simp add: carries_tables carries_sandboxed)

lemma dispatch_inv_assignments:
  assumes "dispatch_inv db" "\<And>a. P a \<Longrightarrow> as_turn_id (f a) = as_turn_id a \<and> as_run_id (f a) = as_run_id a"
    "\<And>a. P a \<Longrightarrow> as_state (f a) = AssignmentActive \<Longrightarrow> as_state a = AssignmentActive"
  shows "dispatch_inv (db\<lparr>turn_assignments := update_where P f (turn_assignments db)\<rparr>)"
  using assms by (auto simp: dispatch_inv_def map_update_where intro!: sandboxed_update)

lemma create_assignment_tx_okE:
  assumes "create_assignment_tx now inp db = Inr (a, db')"
  obtains r u where "find_run (ai_run_id inp) db = Some r" "run_session_id r = ai_session_id inp"
    "find (\<lambda>u. ua_session_id u = ai_session_id inp) (uid_allocations db) = Some u" "ua_state u = UidInUse"
    "ua_uid u = unat (ai_sandbox_uid inp)" "a = new_assignment now inp" "ai_turn_id inp \<notin> as_turn_id ` set (turn_assignments db)"
    "ai_turn_id inp \<in> turn_id ` set (turns db)"
    "db' = db\<lparr>turn_assignments := turn_assignments db @ [a]\<rparr>"
proof -
  obtain r u where g: "find_run (ai_run_id inp) db = Some r" "run_session_id r = ai_session_id inp"
    "find (\<lambda>u. ua_session_id u = ai_session_id inp) (uid_allocations db) = Some u" "ua_state u = UidInUse"
    "ua_uid u = unat (ai_sandbox_uid inp)" and ins: "insert_assignment (new_assignment now inp) db = Inr (a, db')"
    using assms by (auto simp: create_assignment_tx_def split: option.splits if_splits)
  have "a = new_assignment now inp \<and> ai_turn_id inp \<notin> as_turn_id ` set (turn_assignments db) \<and> ai_turn_id inp \<in> turn_id ` set (turns db)
      \<and> db' = db\<lparr>turn_assignments := turn_assignments db @ [a]\<rparr>"
    using ins unfolding insert_assignment_def exists_row_key new_assignment_def by (auto simp del: exists_row_iff split: if_splits)
  then show thesis using that [OF g] by blast
qed

lemma new_assignment_simps [simp]:
  "as_turn_id (new_assignment now inp) = ai_turn_id inp" "as_run_id (new_assignment now inp) = ai_run_id inp"
  "as_state (new_assignment now inp) = AssignmentActive" "as_highest_applied_sequence (new_assignment now inp) = 0"
  by (simp_all add: new_assignment_def)

lemma create_assignment_tx_inv:
  assumes inv: "dispatch_inv db" and run: "create_assignment_tx now inp db = Inr (a, db')"
  shows "dispatch_inv db'"
  using run
proof (cases rule: create_assignment_tx_okE)
  case (1 r u)
  have "run_session_id r \<in> in_use (uid_allocations db)"
    using find_SomeD [OF 1(3)] 1(2,4) by (force simp: in_use_def)
  then have "run_uses (runs db) (ai_run_id inp) (in_use (uid_allocations db))"
    using 1(1) by (auto simp: run_uses_def find_run_def)
  then show ?thesis using inv 1(7) by (auto simp: dispatch_inv_def sandboxed_def 1(6,9))
qed

lemma apply_turn_event_okE:
  assumes "apply_turn_event now eid tid sq kind payload a db = Inr (r, db')"
  obtains (replayed) "sq \<le> as_highest_applied_sequence a" "\<not> r" "db' = db"
  | (applied) e where "as_highest_applied_sequence a < sq" "sq = as_highest_applied_sequence a + 1" "uint sq \<le> MaxInt64" "r"
      "ev_run_id e = as_run_id a" "ev_turn_id e = nullable tid" "ev_kind e = kind" "ev_payload e = jsonB payload" "ev_id e = eid"
      "appendEventTx now eid (as_run_id a) tid [] kind payload db = Inr (e, db\<lparr>events := events db @ [e]\<rparr>)"
      "db' = db\<lparr>events := events db @ [e], turn_assignments := update_where (\<lambda>x. as_turn_id x = tid)
         (\<lambda>x. x\<lparr>as_highest_applied_sequence := sq\<rparr>) (turn_assignments db)\<rparr>"
proof (cases "sq \<le> as_highest_applied_sequence a")
  case True
  then show ?thesis using assms by (intro replayed) (auto simp: apply_turn_event_def)
next
  case False
  then obtain e db1 where e: "appendEventTx now eid (as_run_id a) tid [] kind payload db = Inr (e, db1)"
    and rest: "sq = as_highest_applied_sequence a + 1" "uint sq \<le> MaxInt64" "r"
      "db' = db1\<lparr>turn_assignments := update_where (\<lambda>x. as_turn_id x = tid) (\<lambda>x. x\<lparr>as_highest_applied_sequence := sq\<rparr>) (turn_assignments db1)\<rparr>"
    using assms by (auto simp: apply_turn_event_def split: if_splits sum.splits)
  from e have "ev_run_id e = as_run_id a" "ev_turn_id e = nullable tid" "ev_kind e = kind" "ev_payload e = jsonB payload" "ev_id e = eid"
    "db1 = db\<lparr>events := events db @ [e]\<rparr>"
    by (auto simp: appendEventTx_Inr)
  then show ?thesis using False e rest by (intro applied [of e]) (auto simp: not_le)
qed

lemma apply_turn_event_inv:
  assumes "dispatch_inv db" "apply_turn_event now eid tid sq kind payload a db = Inr (r, db')"
  shows "dispatch_inv db'"
  using assms(2)
proof (cases rule: apply_turn_event_okE)
  case (applied e)
  have "dispatch_inv (db\<lparr>turn_assignments := update_where (\<lambda>x. as_turn_id x = tid)
         (\<lambda>x. x\<lparr>as_highest_applied_sequence := sq\<rparr>) (turn_assignments db)\<rparr>)"
    by (rule dispatch_inv_assignments [OF assms(1)]) auto
  then show ?thesis by (simp add: applied(11) dispatch_inv_def)
qed (use assms(1) in simp)

lemma release_inv:
  assumes inv: "dispatch_inv db" and free: "\<not> session_active sid db"
  shows "dispatch_inv (db\<lparr>uid_allocations := update_where (\<lambda>x. ua_session_id x = sid \<and> ua_state x = UidInUse)
                (\<lambda>x. x\<lparr>ua_state := UidFreed, ua_freed_at := Some now\<rparr>) (uid_allocations db)\<rparr>)" (is "dispatch_inv (db\<lparr>uid_allocations := ?us\<rparr>)")
proof -
  have "uids_ok ?us" using inv by (auto simp: dispatch_inv_def uids_ok_def map_update_where set_update_where)
  moreover have keep: "in_use (uid_allocations db) - {sid} \<subseteq> in_use ?us" by (auto simp: in_use_def set_update_where)
  have "run_uses (runs db) (as_run_id a) (in_use ?us)" if a: "a \<in> set (turn_assignments db)" "as_state a = AssignmentActive" for a
  proof -
    from inv a obtain r where r: "find (\<lambda>r. run_id r = as_run_id a) (runs db) = Some r" "run_session_id r \<in> in_use (uid_allocations db)"
      unfolding dispatch_inv_def sandboxed_def run_uses_def by blast
    have "run_session_id r \<noteq> sid" using free a find_SomeD [OF r(1)] by (auto simp: session_active_def)
    then show ?thesis using r keep by (auto simp: run_uses_def)
  qed
  ultimately show ?thesis using inv by (simp add: dispatch_inv_def sandboxed_def)
qed

lemma dispatch_step_inv:
  assumes "dispatch_step db db'" "dispatch_inv db"
  shows "dispatch_inv db'"
  using assms
proof (induction rule: dispatch_step.induct)
  case (ds_create db fault now inp)
  have "dispatch_inv (snd (run_tx fault (create_assignment_tx now inp) db))"
    by (rule run_tx_invariant [where I = dispatch_inv, OF ds_create]) (rule create_assignment_tx_inv [OF ds_create])
  then show ?case using ds_create by (simp add: CreateAssignment_def)
next
  case (ds_fence db fault poolID workerID)
  show ?case unfolding FenceWorkerGeneration_def
    by (rule run_tx_invariant [where I = dispatch_inv, OF ds_fence])
       (use ds_fence in \<open>auto simp: fence_where_def split: option.splits intro!: dispatch_inv_assignments\<close>)
next
  case (ds_fence_if db fault poolID workerID gen)
  show ?case unfolding FenceWorkerGenerationIf_def
    by (rule run_tx_invariant [where I = dispatch_inv, OF ds_fence_if])
       (use ds_fence_if in \<open>auto simp: fence_where_def split: option.splits intro!: dispatch_inv_assignments\<close>)
next
  case (ds_terminalize db fault now turnID)
  show ?case unfolding TerminalizeAssignment_def terminalize_where_def
    by (rule run_tx_invariant [where I = dispatch_inv, OF ds_terminalize])
       (use ds_terminalize in \<open>auto intro!: dispatch_inv_assignments\<close>)
next
  case (ds_append db fault now eid turnID sq kind payload)
  show ?case unfolding AppendTurnEvent_def
    by (rule run_tx_invariant [where I = dispatch_inv, OF ds_append])
       (auto split: option.splits elim: apply_turn_event_inv [OF ds_append])
next
  case (ds_after db fault now eid turnID sq kind payload poolID workerID)
  show ?case unfolding AppendAfterTerminalEvent_def
    by (rule run_tx_invariant [where I = dispatch_inv, OF ds_after])
       (auto split: option.splits elim: apply_turn_event_inv [OF ds_after])
next
  case (ds_claim db fault now graceBefore uid sessionID)
  show ?case
  proof (rule run_tx_invariant [where I = dispatch_inv, OF ds_claim])
    fix r db' assume "claim_uid now graceBefore uid sessionID db = Inr (r, db')"
    from claim_uid_tables [OF this] ds_claim show "dispatch_inv db'" by (auto simp: dispatch_inv_def intro: sandboxed_mono)
  qed
next
  case (ds_reuse P graceBefore db sessionID)
  then show ?case by (auto simp: dispatch_inv_def reuse_where_def uids_ok_reuse intro: sandboxed_mono [OF _ in_use_reuse])
next
  case (ds_release db fault now sessionID)
  show ?case unfolding ReleaseSessionUID_def
    by (rule run_tx_invariant [where I = dispatch_inv, OF ds_release])
       (use ds_release in \<open>auto split: option.splits if_splits intro!: release_inv\<close>)
next
  case (ds_observe db fault now poolID free capacity ratio)
  have "dispatch_inv (snd (run_tx fault (observe_tx now poolID (uint free) (uint capacity) ratio) db))"
    by (rule run_tx_invariant [where I = dispatch_inv, OF ds_observe])
       (use ds_observe in \<open>auto simp: observe_tx_def Let_def dispatch_inv_def split: option.splits if_splits\<close>)
  then show ?case using ds_observe by (simp add: ObserveWorkspaceCapacity_def)
next
  case (ds_assign_pool db fault now runID poolID)
  show ?case unfolding AssignRunToPool_def
    by (rule run_tx_invariant [where I = dispatch_inv, OF ds_assign_pool])
       (use ds_assign_pool in \<open>auto simp: dispatch_inv_def split: if_splits\<close>)
next
  case (ds_work db db')
  then show ?case using dispatch_inv_carries work_op_carries by blast
next
  case (ds_runtime db db')
  then show ?case using dispatch_inv_carries rt_step_carries by blast
next
  case (ds_others db db')
  then show ?case by (simp add: dispatch_inv_def others_frame_def)
qed

lemma dispatch_steps_inv: "dispatch_step\<^sup>*\<^sup>* db db' \<Longrightarrow> dispatch_inv db \<Longrightarrow> dispatch_inv db'"
  by (induction rule: rtranclp_induct) (auto intro: dispatch_step_inv)

definition dispatch_empty :: "'z dispatch_db_scheme \<Rightarrow> bool" where
  "dispatch_empty db \<longleftrightarrow> turn_assignments db = [] \<and> uid_allocations db = []"

lemma dispatch_empty_inv: "dispatch_empty db \<Longrightarrow> dispatch_inv db"
  by (simp add: dispatch_empty_def dispatch_inv_def uids_ok_def sandboxed_def)

lemmas reachable_dispatch_inv = dispatch_steps_inv [OF _ dispatch_empty_inv]

section \<open>The life of an assignment\<close>

fun assignment_edge :: "AssignmentState \<Rightarrow> AssignmentState \<Rightarrow> bool" where
  "assignment_edge AssignmentActive s = (s \<in> {AssignmentFenced, AssignmentTerminal})"
| "assignment_edge AssignmentFenced s = (s = AssignmentTerminal)"
| "assignment_edge AssignmentTerminal s = False"

text \<open>All of an assignment but its state and its watermark: who runs what, under which generation
  and with which permissions.\<close>

definition binding :: "Assignment \<Rightarrow> Assignment" where
  "binding a = a\<lparr>as_state := AssignmentActive, as_highest_applied_sequence := 0, as_terminalized_at := None\<rparr>"

definition ages :: "Assignment \<Rightarrow> Assignment \<Rightarrow> bool" where
  "ages a b \<longleftrightarrow> binding b = binding a \<and> assignment_edge\<^sup>*\<^sup>* (as_state a) (as_state b)
     \<and> as_highest_applied_sequence a \<le> as_highest_applied_sequence b"

definition assignments_age :: "Assignment list \<Rightarrow> Assignment list \<Rightarrow> bool" where
  "assignments_age as bs \<longleftrightarrow> (\<exists>olds new. bs = olds @ new \<and> list_all2 ages as olds)"

lemma ages_refl [simp]: "ages a a"
  by (simp add: ages_def)

lemma ages_trans: "ages a b \<Longrightarrow> ages b c \<Longrightarrow> ages a c"
  unfolding ages_def by (elim conjE) (intro conjI; (simp | erule (1) rtranclp_trans | erule (1) order_trans))

lemma assignments_age_refl [simp]: "assignments_age as as"
  unfolding assignments_age_def by (intro exI [of _ as] exI [of _ "[]"]) (simp add: list_all2_same)

lemma assignments_age_append [simp]: "assignments_age as (as @ new)"
  unfolding assignments_age_def by (intro exI [of _ as] exI [of _ new]) (simp add: list_all2_same)

lemma assignments_age_trans:
  assumes "assignments_age as bs" "assignments_age bs cs"
  shows "assignments_age as cs"
proof -
  obtain o1 n1 where 1: "bs = o1 @ n1" "list_all2 ages as o1" using assms(1) by (auto simp: assignments_age_def)
  obtain o2 n2 where 2: "cs = o2 @ n2" "list_all2 ages bs o2" using assms(2) by (auto simp: assignments_age_def)
  from 1(1) 2(2) obtain o3 n3 where 3: "o2 = o3 @ n3" "list_all2 ages o1 o3" by (auto simp: list_all2_append1)
  have "list_all2 ages as o3" by (rule list_all2_trans [OF ages_trans 1(2) 3(2)])
  then show ?thesis unfolding assignments_age_def 2(1) 3(1) by (intro exI [of _ o3] exI [of _ "n3 @ n2"]) simp
qed

lemma assignments_age_update:
  assumes "\<And>a. a \<in> set as \<Longrightarrow> P a \<Longrightarrow> ages a (f a)"
  shows "assignments_age as (update_where P f as)"
  unfolding assignments_age_def
  by (intro exI [of _ "update_where P f as"] exI [of _ "[]"])
     (use assms in \<open>auto simp: update_where_def list_all2_conv_all_nth\<close>)

lemma assignments_ageD:
  assumes "assignments_age as bs" "a \<in> set as"
  obtains b where "b \<in> set bs" "ages a b"
proof -
  obtain olds new where bs: "bs = olds @ new" "list_all2 ages as olds" using assms(1) by (auto simp: assignments_age_def)
  from assms(2) obtain i where "i < length as" "a = as ! i" by (auto simp: in_set_conv_nth)
  then have "olds ! i \<in> set bs" "ages a (olds ! i)" using bs by (auto simp: list_all2_conv_all_nth)
  then show thesis by (rule that)
qed

lemma ages_fence: "held_by p w a \<Longrightarrow> ages a (fenced a)"
  by (auto simp: ages_def held_by_def binding_def fenced_def)

lemma ages_terminalize:
  "as_state a \<in> {AssignmentActive, AssignmentFenced} \<Longrightarrow> ages a (a\<lparr>as_state := AssignmentTerminal, as_terminalized_at := t\<rparr>)"
  by (auto simp: ages_def binding_def)

lemma assignment_unique:
  assumes "dispatch_inv db" "a \<in> set (turn_assignments db)" "b \<in> set (turn_assignments db)" "as_turn_id a = as_turn_id b"
  shows "a = b"
  using assms unfolding dispatch_inv_def distinct_map by (elim conjE) (erule (3) inj_onD)

lemma apply_turn_event_ages:
  assumes inv: "dispatch_inv db" and a: "a \<in> set (turn_assignments db)" "as_turn_id a = tid"
    and run: "apply_turn_event now eid tid sq kind payload a db = Inr (r, db')"
  shows "assignments_age (turn_assignments db) (turn_assignments db')"
  using run
proof (cases rule: apply_turn_event_okE)
  case (applied e)
  have "ages x (x\<lparr>as_highest_applied_sequence := sq\<rparr>)" if "x \<in> set (turn_assignments db)" "as_turn_id x = tid" for x
    using assignment_unique [OF inv that(1) a(1)] that(2) a(2) applied(1) by (simp add: ages_def binding_def)
  then show ?thesis by (auto simp: applied(11) intro: assignments_age_update)
qed simp

lemma dispatch_step_ages:
  assumes "dispatch_step db db'" and inv: "dispatch_inv db"
  shows "assignments_age (turn_assignments db) (turn_assignments db')"
  using assms(1)
proof cases
  case (ds_create fault now inp)
  have "assignments_age (turn_assignments db) (turn_assignments (snd (run_tx fault (create_assignment_tx now inp) db)))"
    by (rule run_tx_invariant [where I = "\<lambda>d. assignments_age (turn_assignments db) (turn_assignments d)"])
       (auto elim!: create_assignment_tx_okE)
  then show ?thesis by (simp add: ds_create CreateAssignment_def)
next
  case (ds_fence fault poolID workerID)
  then show ?thesis
    by (auto simp: FenceWorkerGeneration_def run_tx_def fence_where_def split: option.splits intro: assignments_age_update ages_fence)
next
  case (ds_fence_if fault poolID workerID gen)
  then show ?thesis
    by (auto simp: FenceWorkerGenerationIf_def run_tx_def fence_where_def split: option.splits intro: assignments_age_update ages_fence)
next
  case (ds_terminalize fault now turnID)
  then show ?thesis
    by (auto simp: TerminalizeAssignment_def run_tx_def terminalize_where_def intro: assignments_age_update ages_terminalize)
next
  case (ds_append fault now eid turnID sq kind payload)
  show ?thesis unfolding ds_append AppendTurnEvent_def
    by (rule run_tx_invariant [where I = "\<lambda>d. assignments_age (turn_assignments db) (turn_assignments d)"])
       (auto simp: active_assignment_def split: option.splits dest!: find_SomeD intro: apply_turn_event_ages [OF inv])
next
  case (ds_after fault now eid turnID sq kind payload poolID workerID)
  show ?thesis unfolding ds_after AppendAfterTerminalEvent_def
    by (rule run_tx_invariant [where I = "\<lambda>d. assignments_age (turn_assignments db) (turn_assignments d)"])
       (auto split: option.splits dest!: find_SomeD intro: apply_turn_event_ages [OF inv])
next
  case (ds_claim fault now graceBefore uid sessionID)
  show ?thesis unfolding ds_claim
    by (rule run_tx_invariant [where I = "\<lambda>d. assignments_age (turn_assignments db) (turn_assignments d)"])
       (auto elim!: claim_uid_okE)
next
  case (ds_release fault now sessionID)
  then show ?thesis by (auto simp: ReleaseSessionUID_def run_tx_def split: option.splits)
next
  case (ds_observe fault now poolID free capacity ratio)
  then show ?thesis by (auto simp: ObserveWorkspaceCapacity_def run_tx_def observe_tx_def Let_def split: option.splits)
next
  case (ds_assign_pool fault now runID poolID)
  then show ?thesis by (auto simp: AssignRunToPool_def run_tx_def)
next
  case ds_work
  then show ?thesis by (simp add: carries_tables [OF work_op_carries])
next
  case ds_runtime
  then show ?thesis by (simp add: carries_tables [OF rt_step_carries])
qed (auto simp: reuse_where_def)

lemma dispatch_steps_ages:
  "dispatch_step\<^sup>*\<^sup>* db db' \<Longrightarrow> dispatch_inv db \<Longrightarrow> assignments_age (turn_assignments db) (turn_assignments db')"
  by (induction rule: rtranclp_induct) (auto intro: assignments_age_trans dispatch_step_ages dispatch_steps_inv)

section \<open>Dispatch beside the work store\<close>

text \<open>Every step of the dispatcher is a sequence of steps of the work store's system, so what holds
  there of the attempts holds beside it.\<close>

lemma others_step: "others_frame db db' \<Longrightarrow> work_step\<^sup>*\<^sup>* db db'"
  by (rule r_into_rtranclp) (rule wk_others)

lemma apply_turn_event_work:
  assumes "apply_turn_event now eid tid sq kind payload a db = Inr (r, db')"
  shows "work_step\<^sup>*\<^sup>* db db'"
  using assms
proof (cases rule: apply_turn_event_okE)
  case (applied e)
  have "snd (AppendEvent False now eid (as_run_id a) tid [] kind payload db) = db\<lparr>events := events db @ [e]\<rparr>"
    by (simp add: AppendEvent_def run_tx_def applied(10))
  then have "work_step db (db\<lparr>events := events db @ [e]\<rparr>)"
    using wk_runtime [OF rt_append [of db False now eid "as_run_id a" tid "[]" kind payload]] by simp
  moreover have "work_step (db\<lparr>events := events db @ [e]\<rparr>) db'" by (rule wk_others) (simp add: applied(11) others_frame_def)
  ultimately show ?thesis by (meson converse_rtranclp_into_rtranclp r_into_rtranclp)
qed simp

lemma dispatch_step_work:
  assumes "dispatch_step db db'"
  shows "work_step\<^sup>*\<^sup>* db db'"
  using assms
proof cases
  case (ds_create fault now inp)
  have "others_frame db (snd (run_tx fault (create_assignment_tx now inp) db))"
    by (rule run_tx_invariant [where I = "others_frame db"]) (auto simp: others_frame_def elim!: create_assignment_tx_okE)
  then have "others_frame db (snd (CreateAssignment fault now inp db))" by (simp add: CreateAssignment_def others_frame_def)
  then show ?thesis unfolding ds_create by (rule others_step)
next
  case (ds_append fault now eid turnID sq kind payload)
  show ?thesis unfolding ds_append AppendTurnEvent_def
    by (rule run_tx_invariant [where I = "work_step\<^sup>*\<^sup>* db"]) (auto split: option.splits intro: apply_turn_event_work)
next
  case (ds_after fault now eid turnID sq kind payload poolID workerID)
  show ?thesis unfolding ds_after AppendAfterTerminalEvent_def
    by (rule run_tx_invariant [where I = "work_step\<^sup>*\<^sup>* db"]) (auto split: option.splits intro: apply_turn_event_work)
next
  case (ds_claim fault now graceBefore uid sessionID)
  have "others_frame db (snd (run_tx fault (claim_uid now graceBefore uid sessionID) db))"
    by (rule run_tx_invariant [where I = "others_frame db"]) (auto simp: others_frame_def elim!: claim_uid_okE)
  then show ?thesis unfolding ds_claim by (rule others_step)
next
  case ds_work
  then show ?thesis by (intro r_into_rtranclp) (rule wk_op)
next
  case ds_runtime
  then show ?thesis by (intro r_into_rtranclp) (rule wk_runtime)
next
  case (ds_observe fault now poolID free capacity ratio)
  then show ?thesis
    by (intro others_step) (auto simp: ObserveWorkspaceCapacity_def run_tx_def observe_tx_def Let_def others_frame_def split: option.splits)
qed (auto intro!: others_step simp: others_frame_def FenceWorkerGeneration_def FenceWorkerGenerationIf_def TerminalizeAssignment_def
       ReleaseSessionUID_def AssignRunToPool_def reuse_where_def fence_where_def run_tx_def split: option.splits)

lemma dispatch_steps_work: "dispatch_step\<^sup>*\<^sup>* db db' \<Longrightarrow> work_step\<^sup>*\<^sup>* db db'"
  by (induction rule: rtranclp_induct) (auto intro: rtranclp_trans dispatch_step_work)

section \<open>Allocating a sandbox user under interference\<close>

lemma SessionUID_in_use:
  assumes "uids_ok (uid_allocations db)" "u \<in> set (uid_allocations db)" "ua_state u = UidInUse"
  shows "SessionUID (ua_session_id u) db = Inr (ua_uid u)"
proof -
  have "find (\<lambda>x. ua_session_id x = ua_session_id u \<and> ua_state x = UidInUse) (uid_allocations db) = Some u"
    using find_key_guard_None [of ua_session_id "uid_allocations db" "ua_session_id u" u "\<lambda>x. ua_state x = UidInUse"]
      find_distinct_key [of ua_session_id "uid_allocations db" u] assms by (simp add: uids_ok_def)
  then show ?thesis by (simp add: SessionUID_def uid_of_session_def)
qed

lemma claim_uid_session:
  assumes "uids_ok (uid_allocations db)" "claim_uid now gb uid sid db = Inr (r, db')"
  shows "r = uid \<and> SessionUID sid db' = Inr uid"
proof -
  have ok: "uids_ok (uid_allocations db')" using claim_uid_tables [OF assms(2,1)] by blast
  from assms(2) have "\<exists>row \<in> set (uid_allocations db'). ua_uid row = uid \<and> ua_session_id row = sid \<and> ua_state row = UidInUse \<and> r = uid"
  proof (cases rule: claim_uid_okE)
    case (recycled u)
    have "reuse (u\<lparr>ua_session_id := sid\<rparr>) \<in> set (uid_allocations db')"
      using find_SomeD [OF recycled(1)] by (auto simp: recycled(4) set_update_where)
    then show ?thesis using find_SomeD [OF recycled(1)] recycled(5) by (intro bexI) (auto simp: reuse_def)
  qed auto
  then show ?thesis using SessionUID_in_use [OF ok] by blast
qed

lemma reuse_session:
  assumes "uids_ok (uid_allocations db)" "uid_of_session sid P db = Some u"
  shows "SessionUID sid (reuse_where sid P db) = Inr (ua_uid u)"
proof -
  have u: "u \<in> set (uid_allocations db)" "ua_session_id u = sid" "P u"
    using find_SomeD [OF assms(2) [unfolded uid_of_session_def]] by auto
  have "reuse u \<in> set (uid_allocations (reuse_where sid P db))"
    using u by (auto simp: reuse_where_def set_update_where)
  moreover have "uids_ok (uid_allocations (reuse_where sid P db))"
    using assms(1) by (simp add: reuse_where_def uids_ok_reuse)
  ultimately show ?thesis using SessionUID_in_use [of "reuse_where sid P db" "reuse u"] u(2) by simp
qed

lemma tryAlloc_safe:
  assumes "dispatch_inv db" "\<And>d. dispatch_step\<^sup>*\<^sup>* d (between d)"
    and run: "tryAllocSessionUID fault now gb between sid base n db = (x, db')"
  shows "dispatch_step\<^sup>*\<^sup>* db db' \<and> (\<forall>uid. x = Inr uid \<longrightarrow> SessionUID sid db' = Inr uid)"
proof -
  have "dispatch_step\<^sup>*\<^sup>* db d \<and> (\<forall>uid. y = Inr uid \<longrightarrow> SessionUID sid d = Inr uid)"
    if claim: "run_tx False (claim_uid now gb cand sid) (between db) = (y, d)" for cand y d
  proof -
    have "dispatch_step (between db) d" using ds_claim [of "between db" False now gb cand sid] claim by simp
    then have "dispatch_step\<^sup>*\<^sup>* db d" using assms(2) [of db] by (rule rtranclp.rtrancl_into_rtrancl [rotated])
    moreover have ok: "uids_ok (uid_allocations (between db))" using dispatch_steps_inv [OF assms(2) assms(1)] by (simp add: dispatch_inv_def)
    ultimately show ?thesis using claim claim_uid_session [OF ok, of now gb cand sid] by (auto simp: run_tx_def split: sum.splits)
  qed
  then show ?thesis using run by (auto simp: tryAllocSessionUID_def split: if_splits option.splits)
qed

lemma alloc_attempts_safe:
  assumes "dispatch_inv db" "\<And>i d. dispatch_step\<^sup>*\<^sup>* d (al_between ae i d)" "\<And>i d. dispatch_step\<^sup>*\<^sup>* d (al_within ae i d)"
    and "alloc_attempts ae sid base n grace i left db = (x, db')"
  shows "dispatch_step\<^sup>*\<^sup>* db db' \<and> (\<forall>uid. x = Inr uid \<longrightarrow> SessionUID sid db' = Inr uid)"
  using assms(1,4)
proof (induction left arbitrary: i db)
  case (Suc left)
  have inv: "dispatch_inv (al_between ae i db)" by (rule dispatch_steps_inv [OF assms(2) Suc.prems(1)])
  obtain y db1 where tr: "tryAllocSessionUID (al_fault ae i) (al_now ae i) (al_clock ae i - grace) (al_within ae i) sid base n
      (al_between ae i db) = (y, db1)" by (cases "tryAllocSessionUID (al_fault ae i) (al_now ae i) (al_clock ae i - grace) (al_within ae i) sid base n (al_between ae i db)")
  note one = tryAlloc_safe [OF inv assms(3) tr]
  have steps: "dispatch_step\<^sup>*\<^sup>* db db1" using assms(2) [of db i] one by (meson rtranclp_trans)
  have next_try: "dispatch_step\<^sup>*\<^sup>* db db' \<and> (\<forall>uid. x = Inr uid \<longrightarrow> SessionUID sid db' = Inr uid)"
    if "alloc_attempts ae sid base n grace (Suc i) left db1 = (x, db')"
    using Suc.IH [OF dispatch_steps_inv [OF steps Suc.prems(1)] that] steps by (meson rtranclp_trans)
  show ?case
  proof (cases "y = Inl (Fail DErrUniqueViolation) \<or> y = Inl (Fail DErrUIDRace)")
    case True
    then show ?thesis using Suc.prems(2) tr by (intro next_try) auto
  next
    case False
    then have "x = y" "db' = db1" using Suc.prems(2) tr by (auto split: sum.splits failure.splits dispatch_error.splits)
    then show ?thesis using one steps by simp
  qed
qed auto

lemma AllocateSessionUID_safe:
  assumes inv: "dispatch_inv db"
    and "\<forall>i d. dispatch_step\<^sup>*\<^sup>* d (al_between ae i d)" "\<forall>i d. dispatch_step\<^sup>*\<^sup>* d (al_within ae i d)"
    and "AllocateSessionUID ae sid base n grace db = (x, db')"
  shows "dispatch_step\<^sup>*\<^sup>* db db' \<and> (\<forall>uid. x = Inr uid \<longrightarrow> SessionUID sid db' = Inr uid)"
proof -
  let ?gb = "al_clock ae 0 - grace"
  let ?db1 = "al_between ae 1 db" and ?db2 = "al_between ae 2 (al_between ae 1 db)"
  have s1: "dispatch_step\<^sup>*\<^sup>* db ?db1" using assms(2) by blast
  have s2: "dispatch_step\<^sup>*\<^sup>* db ?db2" using s1 assms(2) by (meson rtranclp_trans)
  have reuse: "dispatch_step\<^sup>*\<^sup>* db (reuse_where sid P d) \<and> SessionUID sid (reuse_where sid P d) = Inr (ua_uid u)"
    if "dispatch_step\<^sup>*\<^sup>* db d" "uid_of_session sid P d = Some u" "P = (\<lambda>u. ua_state u = UidInUse) \<or> P = freed_before ?gb" for P d u
    using rtranclp.rtrancl_into_rtrancl [OF that(1) ds_reuse [OF that(3)]]
      reuse_session [OF _ that(2)] dispatch_steps_inv [OF that(1) inv] by (auto simp: dispatch_inv_def)
  have attempts: ?thesis if "alloc_attempts ae sid base n grace 3 8 ?db2 = (x, db')"
  proof -
    have "dispatch_step\<^sup>*\<^sup>* ?db2 db' \<and> (\<forall>uid. x = Inr uid \<longrightarrow> SessionUID sid db' = Inr uid)"
      by (rule alloc_attempts_safe [OF dispatch_steps_inv [OF s2 inv] _ _ that]) (use assms(2,3) in blast)+
    then show ?thesis using rtranclp_trans [OF s2] by simp
  qed
  show ?thesis
  proof (cases "uid_of_session sid (\<lambda>u. ua_state u = UidInUse) db")
    case (Some u)
    then show ?thesis using reuse [OF rtranclp.rtrancl_refl Some disjI1] assms(4)
      by (auto simp: AllocateSessionUID_def Let_def split: if_splits)
  next
    case None
    note first = None
    show ?thesis
    proof (cases "uid_of_session sid (freed_before ?gb) ?db1")
      case (Some u)
      then show ?thesis using reuse [OF s1 Some disjI2] assms(4) first s1 by (auto simp: AllocateSessionUID_def Let_def split: if_splits)
    next
      case None
      show ?thesis
      proof (cases "n = 0 \<or> al_fault ae 0 \<or> al_fault ae 1 \<or> al_fault ae 2
          \<or> exists_row (\<lambda>u. ua_session_id u = sid \<and> ua_state u = UidFreed
               \<and> (case ua_freed_at u of None \<Rightarrow> False | Some f \<Rightarrow> ?gb \<le> f)) (uid_allocations ?db2)")
        case True
        then show ?thesis using assms(4) first None s1 s2
          by (auto simp: AllocateSessionUID_def Let_def simp del: alloc_attempts.simps exists_row_iff split: if_splits)
      next
        case False
        then show ?thesis using assms(4) first None
          by (intro attempts) (simp add: AllocateSessionUID_def Let_def del: alloc_attempts.simps exists_row_iff)
      qed
    qed
  qed
qed

end
