(* ===== verification/Dispatch_Example.thy ===== *)
theory Dispatch_Example
  imports Dispatch_Steps Work_Example
begin

text \<open>
  Two chat sessions on one pool, as a sequence of the stores' operations: both runs start a turn,
  each session gets a sandbox user, each turn is assigned to a worker, and the first worker's
  first event is applied. The witnesses of the dispatch properties are read off this sequence.
\<close>

definition example_pool :: Pool where
  "example_pool = \<lparr>pl_id = ''pool'', pl_key = ''ns/pool'', pl_name = ''pool'', pl_spiffe_id_prefix = ''spiffe://td/pools/p/'', pl_deleted_at = None\<rparr>"

definition example_capacity :: WorkspaceCapacityState where
  "example_capacity = \<lparr>wc_pool_id = ''pool'', wc_observed = True, wc_free_bytes = 1, wc_capacity_bytes = 2, wc_free_ratio = 1 / 2,
     wc_warning = False, wc_credit_gated = False, wc_storage_authorized = True, wc_observed_at = Some 0\<rparr>"

definition example_fleet :: dispatch_db where
  "example_fleet = work_db.extend example_world (dispatch_db.fields [] [] [example_capacity] [example_pool])"

definition example_chat :: "uuid \<Rightarrow> string \<Rightarrow> dispatch_db \<Rightarrow> dispatch_db" where
  "example_chat rid session db =
     (let db1 = snd (CreateRun False 1 rid (\<lambda>_. rid) \<lparr>cri_kind = ''chat'', cri_definition_key = [], cri_scope_identity_id = ''scope'',
            cri_session_id = session, cri_session_dir = ''d'', cri_trigger = None, cri_steps = []\<rparr> db)
      in snd (StartTurn False 2 (''turn-'' @ rid) (''event-'' @ rid) rid [] ''gpt'' db1))"

definition example_chats :: dispatch_db where
  "example_chats = example_chat ''r2'' ''s2'' (example_chat ''r1'' ''s1'' example_fleet)"

definition example_alloc :: "'db alloc_env" where
  "example_alloc = \<lparr>al_fault = (\<lambda>_. False), al_clock = (\<lambda>_. 100), al_now = (\<lambda>_. 100), al_between = (\<lambda>_. id), al_within = (\<lambda>_. id)\<rparr>"

definition example_allocate :: "string \<Rightarrow> dispatch_db \<Rightarrow> dispatch_db" where
  "example_allocate session db = snd (AllocateSessionUID example_alloc session 10 5 7 db)"

definition example_assignment :: "uuid \<Rightarrow> string \<Rightarrow> string \<Rightarrow> 32 word \<Rightarrow> AssignmentInput" where
  "example_assignment rid session worker uid =
     \<lparr>ai_turn_id = ''turn-'' @ rid, ai_run_id = rid, ai_pool_id = ''pool'', ai_worker_id = worker, ai_fencing_generation = 1,
      ai_attempt_id = rid, ai_scope_identity_id = ''scope'', ai_agent_pool_key = ''pool'', ai_session_id = session,
      ai_sandbox_uid = uid, ai_sandbox_gid = uid, ai_model_permission = None, ai_capability_request = None,
      ai_tool_version_snapshot = None, ai_work_item_id = [], ai_node_execution_id = []\<rparr>"

definition example_assigned :: dispatch_db where
  "example_assigned =
     snd (CreateAssignment False 3 (example_assignment ''r2'' ''s2'' ''w2'' 11)
       (snd (CreateAssignment False 3 (example_assignment ''r1'' ''s1'' ''w1'' 10)
         (example_allocate ''s2'' (example_allocate ''s1'' example_chats)))))"

definition example_event :: "dispatch_db \<Rightarrow> (dispatch_error failure + bool) \<times> dispatch_db" where
  "example_event = AppendTurnEvent False 4 ''ev1'' ''turn-r1'' 1 EvModelCallStarted None"

definition example_reported :: dispatch_db where
  "example_reported = snd (example_event example_assigned)"

text \<open>What the witnesses read of a database.\<close>

definition fleet_view ::
  "dispatch_db \<Rightarrow> (uuid \<times> AssignmentState \<times> nat) list \<times> (nat \<times> string \<times> UidState) list \<times> (uuid \<times> string) list" where
  "fleet_view db = (map (\<lambda>a. (as_turn_id a, as_state a, unat (as_highest_applied_sequence a))) (turn_assignments db),
     map (\<lambda>u. (ua_uid u, ua_session_id u, ua_state u)) (uid_allocations db), map run_session (runs db))"

lemma example_reported_view:
  "(fst (example_event example_assigned), fleet_view example_reported) =
     (Inr True, [(''turn-r1'', AssignmentActive, 1), (''turn-r2'', AssignmentActive, 0)],
       [(10, ''s1'', UidInUse), (11, ''s2'', UidInUse)], [(''r1'', ''s1''), (''r2'', ''s2'')])"
  by code_simp

lemma example_fleet_empty: "work_empty example_fleet" "dispatch_empty example_fleet"
  by (simp_all add: work_empty_def dispatch_empty_def example_fleet_def example_world_def work_db.extend_def dispatch_db.fields_def)

lemma dispatch_steps_snoc: "dispatch_step\<^sup>*\<^sup>* a b \<Longrightarrow> dispatch_step b c \<Longrightarrow> dispatch_step\<^sup>*\<^sup>* a c"
  by (rule rtranclp.rtrancl_into_rtrancl)

lemma example_chat_steps: "dispatch_step\<^sup>*\<^sup>* db (example_chat rid session db)"
  unfolding example_chat_def Let_def
  by (rule dispatch_steps_snoc [rotated], rule ds_runtime, rule rt_start_turn, rule r_into_rtranclp, rule ds_runtime, rule rt_create_run)

lemma example_allocate_steps: "dispatch_inv db \<Longrightarrow> dispatch_step\<^sup>*\<^sup>* db (example_allocate session db)"
  unfolding example_allocate_def
  by (cases "AllocateSessionUID example_alloc session 10 5 7 db")
     (use AllocateSessionUID_safe [of db "example_alloc :: dispatch_db alloc_env" session 10 5 7] in \<open>simp add: example_alloc_def\<close>)

lemma example_assigned_reachable: "dispatch_step\<^sup>*\<^sup>* example_fleet example_assigned"
proof -
  have chats: "dispatch_step\<^sup>*\<^sup>* example_fleet example_chats"
    unfolding example_chats_def by (rule rtranclp_trans [OF example_chat_steps example_chat_steps])
  note inv = reachable_dispatch_inv [OF _ example_fleet_empty(2)]
  have one: "dispatch_step\<^sup>*\<^sup>* example_fleet (example_allocate ''s1'' example_chats)"
    by (rule rtranclp_trans [OF chats example_allocate_steps [OF inv [OF chats]]])
  have two: "dispatch_step\<^sup>*\<^sup>* example_fleet (example_allocate ''s2'' (example_allocate ''s1'' example_chats))"
    by (rule rtranclp_trans [OF one example_allocate_steps [OF inv [OF one]]])
  show ?thesis unfolding example_assigned_def
    by (rule dispatch_steps_snoc [OF dispatch_steps_snoc [OF two ds_create] ds_create])
qed

lemma example_event_step: "dispatch_step\<^sup>*\<^sup>* db (snd (example_event db))"
  unfolding example_event_def by (rule r_into_rtranclp) (rule ds_append)

lemma example_reported_reachable: "dispatch_step\<^sup>*\<^sup>* example_fleet example_reported"
  unfolding example_reported_def by (rule rtranclp_trans [OF example_assigned_reachable example_event_step])

text \<open>The rows the witnesses start from.\<close>

lemma example_reported_rows:
  obtains a b r s where "a \<in> set (turn_assignments example_reported)" "as_turn_id a = ''turn-r1''" "as_state a = AssignmentActive"
    "find_run (as_run_id a) example_reported = Some r" "run_session_id r = ''s1''"
    "b \<in> set (turn_assignments example_reported)" "as_turn_id b = ''turn-r2''" "as_state b = AssignmentActive"
    "find_run (as_run_id b) example_reported = Some s" "run_session_id s = ''s2''"
proof -
  have "case turn_assignments example_reported of [a, b] \<Rightarrow>
      (as_turn_id a, as_state a, as_turn_id b, as_state b, map_option run_session_id (find_run (as_run_id a) example_reported),
       map_option run_session_id (find_run (as_run_id b) example_reported))
      = (''turn-r1'', AssignmentActive, ''turn-r2'', AssignmentActive, Some ''s1'', Some ''s2'') | _ \<Rightarrow> False"
    by code_simp
  then show thesis by (auto split: list.splits intro: that)
qed

end
