(* ===== verification/Dispatch_Properties.thy ===== *)
theory Dispatch_Properties
  imports Dispatch_Example
begin

text \<open>
  The properties of the dispatch store: sandbox users are never shared, a turn is bound to one
  worker once and for ever, a worker's events are applied exactly once and in order, allocating a
  sandbox user under interference, the capacity gate's hysteresis, and the pool of a worker.
\<close>

section \<open>Sandbox users\<close>

lemma active_session_uid:
  assumes inv: "dispatch_inv db" and a: "a \<in> set (turn_assignments db)" "as_state a = AssignmentActive"
    and r: "find_run (as_run_id a) db = Some r"
  obtains u where "u \<in> set (uid_allocations db)" "ua_session_id u = run_session_id r" "ua_state u = UidInUse"
    "SessionUID (run_session_id r) db = Inr (ua_uid u)"
proof -
  from inv a r have "run_session_id r \<in> in_use (uid_allocations db)"
    by (auto simp: dispatch_inv_def sandboxed_def run_uses_def find_run_def)
  then obtain u where u: "u \<in> set (uid_allocations db)" "ua_session_id u = run_session_id r" "ua_state u = UidInUse"
    by (auto simp: in_use_def)
  show thesis by (rule that [OF u]) (use SessionUID_in_use [OF _ u(1,3)] inv u(2) in \<open>simp add: dispatch_inv_def\<close>)
qed

text \<open>C24. While a turn is assigned, the session of its run owns a sandbox user, and two sessions
  with assigned turns never share one.\<close>

theorem sandbox_isolation:
  assumes "dispatch_empty db0" "dispatch_step\<^sup>*\<^sup>* db0 db"
    and "a \<in> set (turn_assignments db)" "as_state a = AssignmentActive" "find_run (as_run_id a) db = Some r"
    and "b \<in> set (turn_assignments db)" "as_state b = AssignmentActive" "find_run (as_run_id b) db = Some s"
    and "run_session_id r \<noteq> run_session_id s"
  shows "\<exists>u v. SessionUID (run_session_id r) db = Inr u \<and> SessionUID (run_session_id s) db = Inr v \<and> u \<noteq> v"
proof -
  have inv: "dispatch_inv db" by (rule reachable_dispatch_inv [OF assms(2,1)])
  obtain u where u: "u \<in> set (uid_allocations db)" "ua_session_id u = run_session_id r" "SessionUID (run_session_id r) db = Inr (ua_uid u)"
    by (rule active_session_uid [OF inv assms(3-5)])
  obtain v where v: "v \<in> set (uid_allocations db)" "ua_session_id v = run_session_id s" "SessionUID (run_session_id s) db = Inr (ua_uid v)"
    by (rule active_session_uid [OF inv assms(6-8)])
  have "ua_uid u \<noteq> ua_uid v"
    using uid_unique [OF _ u(1) v(1)] inv u(2) v(2) assms(9) by (auto simp: dispatch_inv_def)
  then show ?thesis using u(3) v(3) by blast
qed

theorem sandbox_isolation_example:
  "\<exists>u v. SessionUID ''s1'' example_reported = Inr u \<and> SessionUID ''s2'' example_reported = Inr v \<and> u \<noteq> v"
proof (rule example_reported_rows)
  fix a b r s
  assume a: "a \<in> set (turn_assignments example_reported)" "as_state a = AssignmentActive" "find_run (as_run_id a) example_reported = Some r"
      "run_session_id r = ''s1''"
    and b: "b \<in> set (turn_assignments example_reported)" "as_state b = AssignmentActive" "find_run (as_run_id b) example_reported = Some s"
      "run_session_id s = ''s2''"
  from sandbox_isolation [OF example_fleet_empty(2) example_reported_reachable a(1-3) b(1-3)] a(4) b(4) show ?thesis by simp
qed

section \<open>Assignments\<close>

lemma active_assignment_row:
  assumes "active_assignment tid db = Some a"
  shows "a \<in> set (turn_assignments db)" "as_turn_id a = tid" "as_state a = AssignmentActive"
  using find_SomeD [OF assms [unfolded active_assignment_def]] by auto

lemma settled_edge: "assignment_edge\<^sup>*\<^sup>* s t \<Longrightarrow> s \<noteq> AssignmentActive \<Longrightarrow> t \<noteq> AssignmentActive"
proof (induction rule: rtranclp_induct)
  case (step t u)
  then show ?case by (cases t) auto
qed

lemma binding_turn: "binding b = binding a \<Longrightarrow> as_turn_id b = as_turn_id a"
  by (drule arg_cong [where f = as_turn_id]) (simp add: binding_def)

lemma create_refused:
  assumes "ai_turn_id inp \<in> as_turn_id ` set (turn_assignments db)"
  shows "\<exists>e. CreateAssignment fault now inp db = (Inl e, db)"
proof -
  have "create_assignment_tx now inp db \<noteq> Inr (x, db')" for x db'
  proof
    assume "create_assignment_tx now inp db = Inr (x, db')"
    then show False by (rule create_assignment_tx_okE) (use assms in simp)
  qed
  then show ?thesis by (cases "create_assignment_tx now inp db") (auto simp: CreateAssignment_def run_tx_def)
qed

text \<open>C25. A turn is assigned at most once, ever. Whatever happens, its assignment keeps its worker,
  generation, pool and permissions, its state only moves forward, and its watermark never falls;
  no other assignment of the turn is accepted, and once it is fenced or terminal no gateway
  resolves it as active again.\<close>

theorem assigned_once:
  assumes "dispatch_empty db0" "dispatch_step\<^sup>*\<^sup>* db0 db" "a \<in> set (turn_assignments db)" "dispatch_step\<^sup>*\<^sup>* db db'"
  shows "(\<exists>b \<in> set (turn_assignments db'). binding b = binding a \<and> assignment_edge\<^sup>*\<^sup>* (as_state a) (as_state b)
            \<and> as_highest_applied_sequence a \<le> as_highest_applied_sequence b)
    \<and> (ai_turn_id inp = as_turn_id a \<longrightarrow> (\<exists>e. CreateAssignment fault now inp db' = (Inl e, db')))
    \<and> (as_state a \<noteq> AssignmentActive \<longrightarrow> ResolveActiveAssignment (as_turn_id a) db' = Inl DErrAssignmentNotActive)"
proof -
  have inv: "dispatch_inv db" by (rule reachable_dispatch_inv [OF assms(2,1)])
  have inv': "dispatch_inv db'" by (rule dispatch_steps_inv [OF assms(4) inv])
  obtain b where b: "b \<in> set (turn_assignments db')" "ages a b"
    by (rule assignments_ageD [OF dispatch_steps_ages [OF assms(4) inv] assms(3)])
  then have turn: "as_turn_id b = as_turn_id a" by (simp add: ages_def binding_turn [of b a])
  have "\<exists>e. CreateAssignment fault now inp db' = (Inl e, db')" if "ai_turn_id inp = as_turn_id a"
    by (rule create_refused) (use that turn b(1) in \<open>simp add: image_iff, metis\<close>)
  moreover have "ResolveActiveAssignment (as_turn_id a) db' = Inl DErrAssignmentNotActive" if "as_state a \<noteq> AssignmentActive"
  proof (cases "active_assignment (as_turn_id a) db'")
    case (Some c)
    note c = active_assignment_row [OF Some]
    have "c = b" by (rule assignment_unique [OF inv' c(1) b(1)]) (simp add: c(2) turn)
    then show ?thesis using c(3) settled_edge [OF _ that, of "as_state b"] b(2) by (simp add: ages_def)
  qed (simp add: ResolveActiveAssignment_def)
  ultimately show ?thesis using b(2) by (intro conjI impI bexI [OF _ b(1)]) (simp_all add: ages_def)
qed

theorem assigned_once_example:
  "\<exists>e. CreateAssignment False 9 (example_assignment ''r1'' ''s1'' ''w3'' 10) example_reported = (Inl e, example_reported)"
proof (rule example_reported_rows)
  fix a assume a: "a \<in> set (turn_assignments example_reported)" "as_turn_id a = ''turn-r1''"
  from assigned_once [OF example_fleet_empty(2) example_reported_reachable a(1) rtranclp.rtrancl_refl,
      of "example_assignment ''r1'' ''s1'' ''w3'' 10" False 9] a(2)
  show ?thesis by (simp add: example_assignment_def)
qed

section \<open>Worker events\<close>





section \<open>Allocating a sandbox user\<close>



lemma find_upt_Min: "find Q [a..<b] = (let S = {g \<in> {a..<b}. Q g} in if S = {} then None else Some (Min S))"
proof (cases "find Q [a..<b]")
  case None
  then have "{g \<in> {a..<b}. Q g} = {}" by (auto simp: find_None_iff)
  then show ?thesis using None by simp
next
  case (Some x)
  then obtain i where i: "i < b - a" "Q x" "x = a + i" "\<And>j. j < i \<Longrightarrow> \<not> Q (a + j)"
    by (auto simp: find_Some_iff)
  have "Min {g \<in> {a..<b}. Q g} = x"
  proof (rule Min_eqI)
    show "y \<in> {g \<in> {a..<b}. Q g} \<Longrightarrow> x \<le> y" for y using i(3) i(4) [of "y - a"] by force
  qed (use i in auto)
  moreover have "x \<in> {g \<in> {a..<b}. Q g}" using i by simp
  then have "{g \<in> {a..<b}. Q g} \<noteq> {}" by blast
  ultimately show ?thesis using Some by simp
qed

lemma uint_range_end:
  fixes base n :: "32 word"
  assumes "n \<noteq> 0" "uint base + uint n \<le> 2 ^ 32"
  shows "uint (base + n - 1) = uint base + uint n - 1"
proof -
  have "0 < uint n" using assms(1) by (simp add: uint_0_iff order_less_le)
  then have "(uint base + uint n - 1) mod 2 ^ 32 = uint base + uint n - 1"
    using assms(2) uint_ge_0 [of base] by (intro mod_pos_pos_trivial) linarith+
  then show ?thesis by (simp add: uint_word_ariths mod_diff_left_eq)
qed

text \<open>The users of the range that nobody holds or that were freed before the given time.\<close>

definition free_uids :: "32 word \<Rightarrow> 32 word \<Rightarrow> time \<Rightarrow> UidAllocation list \<Rightarrow> nat set" where
  "free_uids base n gb us = {g \<in> {unat base..<unat base + unat n}. \<forall>u \<in> set us. ua_uid u = g \<longrightarrow> freed_before gb u}"

lemma free_candidate_least:
  assumes "n \<noteq> 0" "uint base + uint n \<le> 2 ^ 32" "uids_ok us"
  shows "free_candidate base n gb us = (if free_uids base n gb us = {} then None else Some (Min (free_uids base n gb us)))"
proof -
  have "int (unat (base + n - 1)) = int (unat base) + int (unat n) - 1"
    using uint_range_end [OF assms(1,2)] by simp
  then have range: "[unat base..<Suc (unat (base + n - 1))] = [unat base..<unat base + unat n]" by (intro arg_cong2 [of _ _ _ _ upt]) linarith+
  let ?P = "\<lambda>g. case find (\<lambda>u. ua_uid u = g) us of None \<Rightarrow> True | Some u \<Rightarrow> freed_before gb u"
  have P: "?P g \<longleftrightarrow> (\<forall>u \<in> set us. ua_uid u = g \<longrightarrow> freed_before gb u)" for g
  proof (cases "find (\<lambda>u. ua_uid u = g) us")
    case None
    then show ?thesis using None [unfolded find_None_iff] by auto
  next
    case (Some u)
    then show ?thesis using find_SomeD [OF Some] uid_unique [OF assms(3), of u] by auto
  qed
  show ?thesis unfolding free_candidate_def range find_upt_Min free_uids_def by (simp add: P)
qed

text \<open>C28. Without interference, a session that owns no user gets the lowest one of the range that
  nobody holds or that was freed longer than the grace ago; if there is none, the call fails and
  changes nothing. The range fits the database's integer type.\<close>

theorem AllocateSessionUID_lowest:
  assumes "dispatch_inv db" "sid \<notin> ua_session_id ` set (uid_allocations db)"
    and "\<forall>i. \<not> al_fault ae i \<and> al_between ae i = id \<and> al_within ae i = id" and "n \<noteq> 0" "uint base + uint n \<le> 2 ^ 31"
  shows "let free = free_uids base n (al_clock ae 3 - grace) (uid_allocations db)
    in if free = {} then AllocateSessionUID ae sid base n grace db = (Inl (Fail DErrUIDExhausted), db)
       else \<exists>db'. AllocateSessionUID ae sid base n grace db = (Inr (Min free), db') \<and> SessionUID sid db' = Inr (Min free)"
proof -
  let ?gb = "al_clock ae 3 - grace"
  let ?free = "free_uids base n ?gb (uid_allocations db)"
  have ok: "uids_ok (uid_allocations db)" using assms(1) by (simp add: dispatch_inv_def)
  have none: "uid_of_session sid P db = None" for P
    using assms(2) by (auto simp: uid_of_session_def find_None_iff)
  have "0 < uint n" using assms(4) by (simp add: uint_0_iff order_less_le)
  then have fits: "\<not> MaxInt32 < uint base" "\<not> MaxInt32 < uint (base + n - 1)"
    using uint_range_end [OF assms(4)] assms(5) by (simp_all add: MaxInt32_def)
  have "free_candidate base n ?gb (uid_allocations db) = (if ?free = {} then None else Some (Min ?free))"
    by (rule free_candidate_least [OF assms(4) _ ok]) (use assms(5) in simp)
  then have try1: "tryAllocSessionUID False now ?gb id sid base n db =
      (if ?free = {} then (Inl (Fail DErrUIDExhausted), db) else run_tx False (claim_uid now ?gb (Min ?free) sid) db)" for now
    unfolding tryAllocSessionUID_def using fits by simp
  have alloc: "AllocateSessionUID ae sid base n grace db = alloc_attempts ae sid base n grace 3 8 db"
    using assms(2-4) none by (auto simp: AllocateSessionUID_def Let_def image_iff simp del: alloc_attempts.simps)
  show ?thesis
  proof (cases "?free = {}")
    case True
    then show ?thesis unfolding alloc using assms(3) try1 by (simp add: numeral_eq_Suc)
  next
    case False
    then have min: "Min ?free \<in> ?free" by (intro Min_in) (auto simp: free_uids_def)
    have "\<exists>db'. claim_uid (al_now ae 3) ?gb (Min ?free) sid db = Inr (Min ?free, db')"
      using min assms(2) by (auto simp: free_uids_def claim_uid_def image_iff split: option.splits dest: find_SomeD)
    then obtain db' where c: "claim_uid (al_now ae 3) ?gb (Min ?free) sid db = Inr (Min ?free, db')" ..
    then have "AllocateSessionUID ae sid base n grace db = (Inr (Min ?free), db')"
      unfolding alloc using assms(3) try1 False by (simp add: numeral_eq_Suc run_tx_def)
    then show ?thesis using claim_uid_session [OF ok c] False by (simp add: Let_def)
  qed
qed

theorem AllocateSessionUID_lowest_example:
  "let free = free_uids 10 5 93 (uid_allocations example_reported)
   in if free = {} then AllocateSessionUID example_alloc ''s3'' 10 5 7 example_reported = (Inl (Fail DErrUIDExhausted), example_reported)
      else \<exists>db'. AllocateSessionUID example_alloc ''s3'' 10 5 7 example_reported = (Inr (Min free), db') \<and> SessionUID ''s3'' db' = Inr (Min free)"
proof -
  have "map ua_session_id (uid_allocations example_reported) = [''s1'', ''s2'']" by code_simp
  then have "set (map ua_session_id (uid_allocations example_reported)) = {''s1'', ''s2''}" by (simp only: list.set)
  then have "''s3'' \<notin> ua_session_id ` set (uid_allocations example_reported)" by simp
  from AllocateSessionUID_lowest [OF reachable_dispatch_inv [OF example_reported_reachable example_fleet_empty(2)] this,
      of example_alloc 5 10 7]
  show ?thesis by (simp add: example_alloc_def)
qed

section \<open>The capacity gate\<close>

type_synonym observation = "time \<times> 64 word \<times> 64 word \<times> rat"

definition observe :: "uuid \<Rightarrow> observation \<Rightarrow> 'z dispatch_db_scheme \<Rightarrow> 'z dispatch_db_scheme" where
  "observe poolID ob db = (case ob of (now, free, capacity, ratio) \<Rightarrow> snd (ObserveWorkspaceCapacity False now poolID free capacity ratio db))"

definition observation_ok :: "observation \<Rightarrow> bool" where
  "observation_ok ob = (case ob of (now, free, capacity, ratio) \<Rightarrow> uint free \<le> MaxInt64 \<and> uint capacity \<le> MaxInt64 \<and> 0 \<le> ratio \<and> ratio \<le> 1)"

definition pool_gate :: "uuid \<Rightarrow> 'z dispatch_db_scheme \<Rightarrow> bool option" where
  "pool_gate poolID db = map_option wc_credit_gated (find (\<lambda>s. wc_pool_id s = poolID) (capacity_states db))"

text \<open>The contract: outside the band from a fifth to a quarter an observation decides; inside it
  the last decision stands.\<close>

definition hysteresis :: "bool \<Rightarrow> rat list \<Rightarrow> bool" where
  "hysteresis gated ratios =
     (case find (\<lambda>r. r \<le> ratio_gate \<or> ratio_open \<le> r) (rev ratios) of None \<Rightarrow> gated | Some r \<Rightarrow> r \<le> ratio_gate)"

lemma hysteresis_snoc: "hysteresis g (rs @ [r]) = next_gate (hysteresis g rs) r"
  by (auto simp: hysteresis_def next_gate_def ratio_gate_def ratio_open_def)

lemma observe_gate:
  assumes "pool_gate poolID db = Some g" "observation_ok ob" "exists_row (\<lambda>p. pl_id p = poolID) (pools db)"
  shows "pool_gate poolID (observe poolID ob db) = Some (next_gate g (snd (snd (snd ob)))) \<and> pools (observe poolID ob db) = pools db"
proof -
  obtain now free capacity ratio where ob: "ob = (now, free, capacity, ratio)" by (cases ob)
  obtain s where s: "find (\<lambda>s. wc_pool_id s = poolID) (capacity_states db) = Some s" "wc_credit_gated s = g"
    using assms(1) by (auto simp: pool_gate_def)
  show ?thesis using assms(2,3) s
    by (auto simp: ob observe_def observation_ok_def ObserveWorkspaceCapacity_def run_tx_def observe_tx_def Let_def pool_gate_def
        find_update_where dest: find_SomeD)
qed

text \<open>C29. After any observations of a pool that was observed before, its gate is the one the
  hysteresis prescribes: closed if the last observation outside the band was at most a fifth
  free, open if it was at least a quarter, unchanged if there was none.\<close>

theorem capacity_hysteresis:
  assumes "pool_gate poolID db = Some g" "\<forall>ob \<in> set obs. observation_ok ob" "exists_row (\<lambda>p. pl_id p = poolID) (pools db)"
  shows "pool_gate poolID (fold (observe poolID) obs db) = Some (hysteresis g (map (\<lambda>ob. snd (snd (snd ob))) obs))"
proof -
  have "pool_gate poolID (fold (observe poolID) obs db) = Some (hysteresis g (map (\<lambda>ob. snd (snd (snd ob))) obs))
      \<and> pools (fold (observe poolID) obs db) = pools db"
    using assms(2)
  proof (induction obs rule: rev_induct)
    case Nil
    then show ?case using assms(1) by (simp add: hysteresis_def)
  next
    case (snoc ob obs)
    then show ?case
      using observe_gate [of poolID "fold (observe poolID) obs db" _ ob] assms(3) by (simp add: hysteresis_snoc)
  qed
  then show ?thesis ..
qed

theorem capacity_hysteresis_example:
  "pool_gate ''pool'' (fold (observe ''pool'') [(1, 1, 10, 1 / 10), (2, 22, 100, 22 / 100)] example_fleet) = Some True"
proof -
  have "pool_gate ''pool'' example_fleet = Some False" by code_simp
  from capacity_hysteresis [OF this, of "[(1, 1, 10, 1 / 10), (2, 22, 100, 22 / 100)]"]
  show ?thesis
    by (simp add: observation_ok_def MaxInt64_def hysteresis_def ratio_gate_def ratio_open_def example_fleet_def example_pool_def
        work_db.extend_def dispatch_db.fields_def)
qed

section \<open>The pool of a worker\<close>

definition plain :: "string \<Rightarrow> bool" where
  "plain s \<longleftrightarrow> list_all (\<lambda>c. c \<notin> {CHR ''%'', CHR ''_'', CHR 0x5C}) s"

lemma like_any: "like s ''%''"
proof (induction s)
  case Nil
  show ?case by (subst like.simps) simp
next
  case (Cons c s)
  then show ?case by (subst like.simps) simp
qed

lemma like_plain:
  assumes "c \<notin> {CHR ''%'', CHR ''_'', CHR 0x5C}"
  shows "like s (c # p) = (case s of [] \<Rightarrow> False | d # t \<Rightarrow> d = c \<and> like t p)"
  by (subst like.simps) (use assms in \<open>simp del: like.simps\<close>)

lemma like_prefix: "plain p \<Longrightarrow> like s (p @ ''%'') \<longleftrightarrow> prefix p s"
proof (induction p arbitrary: s)
  case Nil
  then show ?case using like_any by (simp del: like.simps)
next
  case (Cons c p)
  then have "like s ((c # p) @ ''%'') = (case s of [] \<Rightarrow> False | d # t \<Rightarrow> d = c \<and> like t (p @ ''%''))"
    by (simp add: plain_def like_plain del: like.simps)
  also have "\<dots> = prefix (c # p) s" using Cons by (cases s) (auto simp: plain_def simp del: like.simps)
  finally show ?case .
qed

text \<open>C30. A worker is bound to the live pool with the longest identity prefix of its verified
  name, and to none if no prefix matches, provided no registered prefix contains one of the
  wildcard characters of the match.\<close>

theorem ResolvePool_longest:
  assumes "\<forall>p \<in> set (pools db). plain (pl_spiffe_id_prefix p)"
  shows "case ResolvePoolBySpiffePrefix name db of
      Inr p \<Rightarrow> p \<in> set (pools db) \<and> pl_deleted_at p = None \<and> prefix (pl_spiffe_id_prefix p) name
        \<and> (\<forall>q \<in> set (pools db). pl_deleted_at q = None \<longrightarrow> prefix (pl_spiffe_id_prefix q) name
              \<longrightarrow> length (pl_spiffe_id_prefix q) \<le> length (pl_spiffe_id_prefix p))
    | Inl e \<Rightarrow> e = DErrNotFound \<and> (\<forall>q \<in> set (pools db). pl_deleted_at q = None \<longrightarrow> \<not> prefix (pl_spiffe_id_prefix q) name)"
proof -
  let ?hits = "filter (\<lambda>p. like name (pl_spiffe_id_prefix p @ ''%'') \<and> pl_deleted_at p = None) (pools db)"
  have hits: "p \<in> set ?hits \<longleftrightarrow> p \<in> set (pools db) \<and> pl_deleted_at p = None \<and> prefix (pl_spiffe_id_prefix p) name" for p
    using assms like_prefix by (auto simp del: like.simps)
  show ?thesis
  proof (cases "limit1 (order_by (\<lambda>p. - int (length (pl_spiffe_id_prefix p))) ?hits)")
    case None
    then have "?hits = []" by simp
    have "\<forall>q \<in> set (pools db). pl_deleted_at q = None \<longrightarrow> \<not> prefix (pl_spiffe_id_prefix q) name"
    proof (intro ballI impI notI)
      fix q assume "q \<in> set (pools db)" "pl_deleted_at q = None" "prefix (pl_spiffe_id_prefix q) name"
      then have "q \<in> set ?hits" unfolding hits by simp
      then show False using \<open>?hits = []\<close> by simp
    qed
    moreover have "ResolvePoolBySpiffePrefix name db = Inl DErrNotFound" unfolding ResolvePoolBySpiffePrefix_def None by simp
    ultimately show ?thesis by auto
  next
    case (Some p)
    have "p \<in> set ?hits" by (rule limit1_order_by_least(1) [OF Some])
    moreover have "length (pl_spiffe_id_prefix q) \<le> length (pl_spiffe_id_prefix p)" if "q \<in> set ?hits" for q
      using limit1_order_by_least(2) [OF Some that] by simp
    moreover have "ResolvePoolBySpiffePrefix name db = Inr p" unfolding ResolvePoolBySpiffePrefix_def Some by simp
    ultimately show ?thesis unfolding hits by simp
  qed
qed

theorem ResolvePool_longest_example: "\<exists>p. ResolvePoolBySpiffePrefix ''spiffe://td/pools/p/workers/w1'' example_fleet = Inr p"
proof -
  have pools: "pools example_fleet = [example_pool]"
    by (simp add: example_fleet_def work_db.extend_def dispatch_db.fields_def)
  have "\<forall>p \<in> set (pools example_fleet). plain (pl_spiffe_id_prefix p)" by (simp add: pools plain_def example_pool_def)
  from ResolvePool_longest [OF this, of "''spiffe://td/pools/p/workers/w1''"]
  show ?thesis by (auto simp: pools example_pool_def split: sum.splits)
qed

section \<open>Dispatch beside the work store\<close>

text \<open>C31. Dispatching composes with execution: every history of the dispatcher, with its worker
  events, is a history of the work store's system, and both components keep their invariants
  in it.\<close>

theorem dispatch_refines_work:
  assumes "work_empty db0" "dispatch_empty db0" "dispatch_step\<^sup>*\<^sup>* db0 db"
  shows "work_step\<^sup>*\<^sup>* db0 db \<and> work_inv db \<and> dispatch_inv db"
  using dispatch_steps_work [OF assms(3)] reachable_work_inv [OF _ assms(1)] reachable_dispatch_inv [OF assms(3,2)] by blast

theorem dispatch_refines_work_example: "work_step\<^sup>*\<^sup>* example_fleet example_reported \<and> work_inv example_reported \<and> dispatch_inv example_reported"
  by (rule dispatch_refines_work [OF example_fleet_empty example_reported_reachable])

end
