(* ===== verification/Dispatch_Pool.thy ===== *)
theory Dispatch_Pool
  imports Dispatch_Store "HOL-Library.Multiset"
begin

text \<open>
  The live worker connections, \<^verbatim>\<open>src/control-plane/internal/dispatch/workerpool.go\<close>: the one
  credit a worker advertises with Ready, how an assignment spends it, and how the capacity gate
  suspends it.

  A connection is an object the handlers share, so the pool keeps the objects in a heap
  (\<open>wp_heap\<close>, by address) and its map from keys to addresses apart. Every method runs under
  its mutex and is one function here. The stream, its reader goroutine and the wait group that
  drains sends are not state of the model: whether a send reaches the stream is an argument of
  the operations that send. Go's iteration order over a map is an argument.
\<close>

section \<open>One connection\<close>

record workerConn =
  cn_pool_id :: uuid
  cn_worker_id :: string
  cn_gen :: int
  cn_closed :: bool
  cn_idle :: bool
  cn_credit_advertised :: bool
  cn_active_turn :: string
  cn_last_seen :: time
  cn_workspace_observed :: bool
  cn_workspace_gated :: bool
  cn_workspace_warning :: bool
  cn_workspace_free :: int
  cn_workspace_capacity :: int
  cn_workspace_ratio :: rat

definition new_conn :: "uuid \<Rightarrow> string \<Rightarrow> int \<Rightarrow> time \<Rightarrow> workerConn" where
  "new_conn poolID workerID gen now =
     \<lparr>cn_pool_id = poolID, cn_worker_id = workerID, cn_gen = gen, cn_closed = False, cn_idle = False, cn_credit_advertised = False,
      cn_active_turn = [], cn_last_seen = now, cn_workspace_observed = False, cn_workspace_gated = False,
      cn_workspace_warning = False, cn_workspace_free = 0, cn_workspace_capacity = 0, cn_workspace_ratio = 0\<rparr>"

definition markClosed :: "workerConn \<Rightarrow> workerConn" where
  "markClosed w = w\<lparr>cn_closed := True\<rparr>"

definition tryConsumeCredit :: "string \<Rightarrow> workerConn \<Rightarrow> bool \<times> workerConn" where
  "tryConsumeCredit turnID w =
     (if cn_closed w \<or> \<not> cn_idle w \<or> \<not> cn_credit_advertised w \<or> cn_active_turn w \<noteq> [] then (False, w)
      else (True, w\<lparr>cn_idle := False, cn_credit_advertised := False, cn_active_turn := turnID\<rparr>))"

definition restoreCreditAfterPreDeliveryFailure :: "string \<Rightarrow> workerConn \<Rightarrow> bool \<times> workerConn" where
  "restoreCreditAfterPreDeliveryFailure turnID w =
     (if cn_closed w \<or> cn_active_turn w \<noteq> turnID then (False, w)
      else let idle = cn_workspace_observed w \<and> \<not> cn_workspace_gated w
           in (idle, w\<lparr>cn_active_turn := [], cn_credit_advertised := True, cn_idle := idle\<rparr>))"

definition releaseTurn :: "workerConn \<Rightarrow> workerConn" where
  "releaseTurn w = w\<lparr>cn_active_turn := []\<rparr>"

definition releaseAssignmentFailure :: "string \<Rightarrow> bool \<Rightarrow> workerConn \<Rightarrow> bool \<times> workerConn" where
  "releaseAssignmentFailure turnID deliveryAttempted w =
     (if \<not> deliveryAttempted then restoreCreditAfterPreDeliveryFailure turnID w else (False, releaseTurn w))"

text \<open>The result is \<^verbatim>\<open>(granted, valid)\<close>.\<close>

definition grantCreditIfIdle :: "time \<Rightarrow> workerConn \<Rightarrow> (bool \<times> bool) \<times> workerConn" where
  "grantCreditIfIdle now w =
     (if cn_closed w \<or> cn_active_turn w \<noteq> [] \<or> \<not> cn_workspace_observed w then ((False, False), w)
      else let w1 = w\<lparr>cn_last_seen := now, cn_credit_advertised := True\<rparr>
           in if cn_workspace_gated w then ((False, True), w1\<lparr>cn_idle := False\<rparr>)
              else ((True, True), w1\<lparr>cn_idle := True\<rparr>))"

definition apply_status ::
  "time \<Rightarrow> int \<Rightarrow> int \<Rightarrow> rat \<Rightarrow> bool \<Rightarrow> bool \<Rightarrow> bool \<Rightarrow> workerConn \<Rightarrow> bool \<times> workerConn" where
  "apply_status now free capacity ratio warning gated observedByWorker w =
     (let w1 = w\<lparr>cn_workspace_observed := cn_workspace_observed w \<or> observedByWorker, cn_workspace_free := free,
                 cn_workspace_capacity := capacity, cn_workspace_ratio := ratio, cn_workspace_warning := warning,
                 cn_workspace_gated := gated, cn_last_seen := (if observedByWorker then now else cn_last_seen w)\<rparr>;
          w2 = (if cn_active_turn w1 = [] then w1\<lparr>cn_idle := \<not> gated \<and> cn_credit_advertised w1\<rparr> else w1)
      in (\<not> cn_idle w \<and> cn_idle w2, w2))"

definition updateWorkspaceStatus :: "time \<Rightarrow> int \<Rightarrow> int \<Rightarrow> rat \<Rightarrow> bool \<Rightarrow> bool \<Rightarrow> workerConn \<Rightarrow> bool \<times> workerConn" where
  "updateWorkspaceStatus now free capacity ratio warning gated w = apply_status now free capacity ratio warning gated True w"

section \<open>The pool\<close>

record workerPool =
  wp_heap :: "workerConn list"
  wp_conns :: "(string \<times> nat) list"
  wp_workspace_gated :: "(uuid \<times> bool) list"

definition newWorkerPool :: workerPool where
  "newWorkerPool = \<lparr>wp_heap = [], wp_conns = [], wp_workspace_gated = []\<rparr>"

definition workerKey :: "uuid \<Rightarrow> string \<Rightarrow> string" where
  "workerKey poolID workerID = poolID @ ''/'' @ workerID"

definition map_set :: "'k \<Rightarrow> 'v \<Rightarrow> ('k \<times> 'v) list \<Rightarrow> ('k \<times> 'v) list" where
  "map_set k v kvs = (k, v) # filter (\<lambda>(k', _). k' \<noteq> k) kvs"

definition map_delete :: "'k \<Rightarrow> ('k \<times> 'v) list \<Rightarrow> ('k \<times> 'v) list" where
  "map_delete k kvs = filter (\<lambda>(k', _). k' \<noteq> k) kvs"

definition seedWorkspaceCapacity :: "(uuid \<times> WorkspaceCapacityState) list \<Rightarrow> workerPool \<Rightarrow> workerPool" where
  "seedWorkspaceCapacity states p =
     p\<lparr>wp_workspace_gated := fold (\<lambda>(poolID, s). map_set poolID (freshCreditGated s)) states (wp_workspace_gated p)\<rparr>"

definition syncWorkspaceCapacity :: "(uuid \<times> WorkspaceCapacityState) list \<Rightarrow> workerPool \<Rightarrow> uuid list \<times> workerPool" where
  "syncWorkspaceCapacity states p =
     (let removed = filter (\<lambda>poolID. map_of states poolID = None) (map fst (wp_workspace_gated p));
          kept = filter (\<lambda>(poolID, _). map_of states poolID \<noteq> None) (wp_workspace_gated p)
      in (removed, p\<lparr>wp_workspace_gated := fold (\<lambda>(poolID, s). map_set poolID (freshCreditGated s)) states kept\<rparr>))"

definition conn :: "nat \<Rightarrow> workerPool \<Rightarrow> workerConn" where
  "conn i p = wp_heap p ! i"

definition set_conn :: "nat \<Rightarrow> workerConn \<Rightarrow> workerPool \<Rightarrow> workerPool" where
  "set_conn i w p = p\<lparr>wp_heap := (wp_heap p)[i := w]\<rparr>"

definition registered :: "workerPool \<Rightarrow> nat list" where
  "registered p = map snd (wp_conns p)"

text \<open>Every connection of the source's pool is visited, the source itself as the observer.\<close>

definition apply_pool_status ::
  "time \<Rightarrow> nat \<Rightarrow> int \<Rightarrow> int \<Rightarrow> rat \<Rightarrow> bool \<Rightarrow> bool \<Rightarrow> workerPool \<Rightarrow> bool \<times> workerPool" where
  "apply_pool_status now source free capacity ratio warning gated p =
     (let poolID = cn_pool_id (conn source p);
          visit = (\<lambda>i (restored, q).
            if cn_pool_id (conn i q) \<noteq> poolID then (restored, q)
            else let (r, w) = apply_status now free capacity ratio warning gated (i = source) (conn i q)
                 in (restored \<or> r, set_conn i w q))
      in fold visit (registered p) (False, p\<lparr>wp_workspace_gated := map_set poolID gated (wp_workspace_gated p)\<rparr>))"

text \<open>The new object is the last of the heap. The result is the replaced connection, if any.\<close>

definition add_conn :: "workerConn \<Rightarrow> workerPool \<Rightarrow> nat option \<times> nat \<times> workerPool" where
  "add_conn w p =
     (let key = workerKey (cn_pool_id w) (cn_worker_id w);
          gated = (case map_of (wp_workspace_gated p) (cn_pool_id w) of None \<Rightarrow> True | Some g \<Rightarrow> g);
          i = length (wp_heap p)
      in (map_of (wp_conns p) key, i,
          p\<lparr>wp_heap := wp_heap p @ [w\<lparr>cn_workspace_gated := gated\<rparr>], wp_conns := map_set key i (wp_conns p)\<rparr>))"

definition remove_conn :: "nat \<Rightarrow> workerPool \<Rightarrow> workerPool" where
  "remove_conn i p =
     (let key = workerKey (cn_pool_id (conn i p)) (cn_worker_id (conn i p))
      in if map_of (wp_conns p) key = Some i then p\<lparr>wp_conns := map_delete key (wp_conns p)\<rparr> else p)"

definition get_conn :: "uuid \<Rightarrow> string \<Rightarrow> workerPool \<Rightarrow> nat option" where
  "get_conn poolID workerID p = map_of (wp_conns p) (workerKey poolID workerID)"

fun pick_first :: "uuid \<Rightarrow> string \<Rightarrow> nat list \<Rightarrow> workerPool \<Rightarrow> nat option \<times> workerPool" where
  "pick_first poolID turnID [] p = (None, p)"
| "pick_first poolID turnID (i # is) p =
     (if cn_pool_id (conn i p) \<noteq> poolID then pick_first poolID turnID is p
      else case tryConsumeCredit turnID (conn i p) of
        (True, w) \<Rightarrow> (Some i, set_conn i w p)
      | (False, _) \<Rightarrow> pick_first poolID turnID is p)"

text \<open>\<open>order\<close> permutes the registered connections.\<close>

definition pickIdle :: "(nat list \<Rightarrow> nat list) \<Rightarrow> uuid \<Rightarrow> string \<Rightarrow> workerPool \<Rightarrow> nat option \<times> workerPool" where
  "pickIdle order poolID turnID p = pick_first poolID turnID (order (registered p)) p"

definition activeConn :: "(nat list \<Rightarrow> nat list) \<Rightarrow> string \<Rightarrow> workerPool \<Rightarrow> nat option" where
  "activeConn order turnID p =
     find (\<lambda>i. cn_active_turn (conn i p) = turnID \<and> \<not> cn_closed (conn i p)) (order (registered p))"

definition all_conns :: "(nat list \<Rightarrow> nat list) \<Rightarrow> workerPool \<Rightarrow> nat list" where
  "all_conns order p = order (registered p)"

definition lastSeenAt :: "nat \<Rightarrow> workerPool \<Rightarrow> time" where
  "lastSeenAt i p = cn_last_seen (conn i p)"

section \<open>The credit of a connection\<close>

text \<open>A usable credit is an advertised one of an open gate, nothing is running, and a worker that
  advertised or runs anything has reported its workspace.\<close>

definition credit_ok :: "workerConn \<Rightarrow> bool" where
  "credit_ok w \<longleftrightarrow>
     (cn_idle w \<longrightarrow> cn_credit_advertised w \<and> \<not> cn_workspace_gated w)
     \<and> (cn_active_turn w \<noteq> [] \<longrightarrow> \<not> cn_credit_advertised w)
     \<and> (cn_credit_advertised w \<or> cn_active_turn w \<noteq> [] \<longrightarrow> cn_workspace_observed w)"

text \<open>What happens to one connection, with what the methods return.\<close>

datatype conn_event =
    Ready time
  | Consume string
  | Restore string
  | Release
  | Status time int int rat bool bool bool
  | Close

definition conn_step :: "conn_event \<Rightarrow> workerConn \<Rightarrow> bool \<times> workerConn" where
  "conn_step ev w =
     (case ev of
        Ready now \<Rightarrow> (let ((_, valid), w') = grantCreditIfIdle now w in (valid, w'))
      | Consume turnID \<Rightarrow> tryConsumeCredit turnID w
      | Restore turnID \<Rightarrow> (\<not> cn_closed w \<and> cn_active_turn w = turnID, snd (restoreCreditAfterPreDeliveryFailure turnID w))
      | Release \<Rightarrow> (True, releaseTurn w)
      | Status now free capacity ratio warning gated own \<Rightarrow> apply_status now free capacity ratio warning gated own w
      | Close \<Rightarrow> (True, markClosed w))"

text \<open>The events that had an effect, in order.\<close>

fun conn_run :: "conn_event list \<Rightarrow> workerConn \<Rightarrow> conn_event list \<times> workerConn" where
  "conn_run [] w = ([], w)"
| "conn_run (ev # evs) w =
     (let (ok, w1) = conn_step ev w; (eff, w2) = conn_run evs w1
      in (if ok then ev # eff else eff, w2))"

definition names_turns :: "conn_event \<Rightarrow> bool" where
  "names_turns ev = (case ev of Consume t \<Rightarrow> t \<noteq> [] | Restore t \<Rightarrow> t \<noteq> [] | _ \<Rightarrow> True)"

lemmas conn_defs = grantCreditIfIdle_def tryConsumeCredit_def restoreCreditAfterPreDeliveryFailure_def releaseTurn_def
  apply_status_def markClosed_def

lemma conn_step_credit_ok: "credit_ok w \<Longrightarrow> names_turns ev \<Longrightarrow> credit_ok (snd (conn_step ev w))"
  by (cases ev) (auto simp: conn_step_def conn_defs credit_ok_def names_turns_def Let_def)

definition credits :: "workerConn \<Rightarrow> nat" where
  "credits w = (if cn_credit_advertised w then 1 else 0)"

abbreviation count_events :: "(conn_event \<Rightarrow> bool) \<Rightarrow> conn_event list \<Rightarrow> nat" where
  "count_events P evs \<equiv> length (filter P evs)"

fun is_ready :: "conn_event \<Rightarrow> bool" where
  "is_ready (Ready _) = True"
| "is_ready _ = False"

fun is_consume :: "conn_event \<Rightarrow> bool" where
  "is_consume (Consume _) = True"
| "is_consume _ = False"

fun is_restore :: "conn_event \<Rightarrow> bool" where
  "is_restore (Restore _) = True"
| "is_restore _ = False"

lemma conn_step_credits:
  assumes "credit_ok w" "names_turns ev" "conn_step ev w = (ok, w')"
  shows "credits w' + (if ok \<and> is_consume ev then 1 else 0) \<le> credits w + (if ok \<and> (is_ready ev \<or> is_restore ev) then 1 else 0)"
  using assms by (cases ev) (auto simp: conn_step_def conn_defs credit_ok_def names_turns_def credits_def Let_def split: if_splits)

lemma conn_run_credits:
  assumes "credit_ok w" "\<forall>ev \<in> set evs. names_turns ev" "conn_run evs w = (eff, w')"
  shows "credits w' + count_events is_consume eff \<le> credits w + count_events is_ready eff + count_events is_restore eff \<and> credit_ok w'"
  using assms
proof (induction evs arbitrary: w eff w')
  case (Cons ev evs)
  obtain ok w1 where one: "conn_step ev w = (ok, w1)" by (cases "conn_step ev w")
  obtain eff1 w2 where rest: "conn_run evs w1 = (eff1, w2)" by (cases "conn_run evs w1")
  have "credit_ok w1" using conn_step_credit_ok [OF Cons.prems(1), of ev] Cons.prems(2) one by simp
  from Cons.IH [OF this _ rest] Cons.prems(2)
  have "credits w2 + count_events is_consume eff1 \<le> credits w1 + count_events is_ready eff1 + count_events is_restore eff1 \<and> credit_ok w2"
    by simp
  moreover have "eff = (if ok then ev # eff1 else eff1)" "w' = w2" using Cons.prems(3) one rest by (auto split: if_splits)
  ultimately show ?case using conn_step_credits [OF Cons.prems(1) _ one] Cons.prems(2) by (cases ev) (auto split: if_splits)
qed simp

lemma new_conn_credit: "credit_ok (new_conn poolID workerID gen now)" "credits (new_conn poolID workerID gen now) = 0"
  by (simp_all add: credit_ok_def credits_def new_conn_def)

section \<open>Picking a worker\<close>

definition usable :: "uuid \<Rightarrow> workerConn \<Rightarrow> bool" where
  "usable poolID w \<longleftrightarrow> cn_pool_id w = poolID \<and> \<not> cn_closed w \<and> cn_idle w \<and> cn_credit_advertised w \<and> cn_active_turn w = []"

definition spent :: "string \<Rightarrow> workerConn \<Rightarrow> workerConn" where
  "spent turnID w = w\<lparr>cn_idle := False, cn_credit_advertised := False, cn_active_turn := turnID\<rparr>"

lemma tryConsumeCredit_usable:
  "cn_pool_id w = poolID \<Longrightarrow> tryConsumeCredit turnID w = (if usable poolID w then (True, spent turnID w) else (False, w))"
  by (auto simp: tryConsumeCredit_def usable_def spent_def)

lemma pick_first_find:
  "pick_first poolID turnID is p =
     (case find (\<lambda>i. usable poolID (conn i p)) is of None \<Rightarrow> (None, p) | Some i \<Rightarrow> (Some i, set_conn i (spent turnID (conn i p)) p))"
proof (induction "is")
  case (Cons i "is")
  then show ?case by (cases "cn_pool_id (conn i p) = poolID") (auto simp: tryConsumeCredit_usable, auto simp: usable_def)
qed simp

lemma conn_set_conn: "i < length (wp_heap p) \<Longrightarrow> conn j (set_conn i w p) = (if j = i then w else conn j p)"
  by (simp add: conn_def set_conn_def)

lemma set_conn_more [simp]:
  "wp_conns (set_conn i w p) = wp_conns p" "wp_workspace_gated (set_conn i w p) = wp_workspace_gated p"
  "length (wp_heap (set_conn i w p)) = length (wp_heap p)" "registered (set_conn i w p) = registered p"
  by (simp_all add: set_conn_def registered_def)

text \<open>The registered connections are objects of the heap.\<close>

definition pool_ok :: "workerPool \<Rightarrow> bool" where
  "pool_ok p \<longleftrightarrow> (\<forall>i \<in> set (registered p). i < length (wp_heap p))"

text \<open>An iteration order visits the entries of the map, each as often as it occurs.\<close>

definition permutes_conns :: "(nat list \<Rightarrow> nat list) \<Rightarrow> workerPool \<Rightarrow> bool" where
  "permutes_conns order p \<longleftrightarrow> mset (order (registered p)) = mset (registered p)"

lemma permutes_set: "permutes_conns order p \<Longrightarrow> set (order (registered p)) = set (registered p)"
  unfolding permutes_conns_def by (rule mset_eq_setD)

lemma find_some_prop: "find P xs = Some x \<Longrightarrow> x \<in> set xs \<and> P x"
  by (auto simp: find_Some_iff)

section \<open>Properties\<close>

text \<open>C22. One credit, one assignment. Whatever happens to a new connection, the assignments that took
  its credit are never more than the Ready messages it accepted plus the reservations that were
  handed back undelivered. A connection that runs a turn has no credit at all, and a usable credit
  is one the worker advertised behind an open capacity gate it has reported on.\<close>

theorem one_credit:
  assumes "conn_run evs ((new_conn poolID workerID gen now)\<lparr>cn_workspace_gated := gated\<rparr>) = (eff, w)"
    and "\<forall>ev \<in> set evs. names_turns ev"
  shows "count_events is_consume eff \<le> count_events is_ready eff + count_events is_restore eff
    \<and> (cn_active_turn w \<noteq> [] \<longrightarrow> \<not> cn_idle w \<and> \<not> cn_credit_advertised w)
    \<and> (cn_idle w \<longrightarrow> cn_credit_advertised w \<and> cn_workspace_observed w \<and> \<not> cn_workspace_gated w)"
proof -
  let ?w = "(new_conn poolID workerID gen now)\<lparr>cn_workspace_gated := gated\<rparr>"
  have "credit_ok ?w" "credits ?w = 0" by (simp_all add: credit_ok_def credits_def new_conn_def)
  from conn_run_credits [OF this(1) assms(2,1)] this(2)
  have "count_events is_consume eff \<le> count_events is_ready eff + count_events is_restore eff" "credit_ok w"
    by simp_all
  then show ?thesis by (auto simp: credit_ok_def)
qed

definition example_events :: "conn_event list" where
  "example_events =
     [Ready 1, Status 2 30 100 (3/10) False False True, Ready 3, Consume ''t1'', Consume ''t2'', Restore ''t1'', Consume ''t2'']"

lemma example_events_run:
  "conn_run example_events ((new_conn ''p'' ''w'' 1 0)\<lparr>cn_workspace_gated := True\<rparr>) =
     ([Ready 3, Consume ''t1'', Restore ''t1'', Consume ''t2''],
      \<lparr>cn_pool_id = ''p'', cn_worker_id = ''w'', cn_gen = 1, cn_closed = False, cn_idle = False, cn_credit_advertised = False,
       cn_active_turn = ''t2'', cn_last_seen = 3, cn_workspace_observed = True, cn_workspace_gated = False,
       cn_workspace_warning = False, cn_workspace_free = 30, cn_workspace_capacity = 100, cn_workspace_ratio = 3/10\<rparr>)"
  by (simp add: example_events_def conn_step_def conn_defs new_conn_def Let_def)

theorem one_credit_example:
  "count_events is_consume [Ready 3, Consume ''t1'', Restore ''t1'', Consume ''t2''] = 2
   \<and> count_events is_consume [Ready 3, Consume ''t1'', Restore ''t1'', Consume ''t2'']
       \<le> count_events is_ready [Ready 3, Consume ''t1'', Restore ''t1'', Consume ''t2'']
         + count_events is_restore [Ready 3, Consume ''t1'', Restore ''t1'', Consume ''t2'']"
  using one_credit [OF example_events_run] by (simp add: example_events_def names_turns_def)

text \<open>C23. Picking a worker for a turn spends exactly one credit of the right pool. Whatever order the
  map of connections is visited in, a worker is found if and only if one registered in that pool is
  open, idle and has an unspent credit; only the connection found changes, it cannot be picked
  again, and an abort of the turn is routed to it.\<close>

theorem pickIdle_spec:
  assumes "pool_ok p" and "permutes_conns order p" and "permutes_conns order' p"
    and "turnID \<noteq> []" and "\<forall>j \<in> set (registered p). cn_active_turn (conn j p) \<noteq> turnID"
    and "pickIdle order poolID turnID p = (r, p')"
  shows "(case r of
       None \<Rightarrow> p' = p \<and> \<not> (\<exists>i \<in> set (registered p). usable poolID (conn i p))
     | Some i \<Rightarrow> i \<in> set (registered p) \<and> usable poolID (conn i p) \<and> conn i p' = spent turnID (conn i p)
         \<and> \<not> usable poolID (conn i p') \<and> (\<forall>j. j \<noteq> i \<longrightarrow> conn j p' = conn j p)
         \<and> registered p' = registered p \<and> activeConn order' turnID p' = Some i)"
proof (cases "find (\<lambda>i. usable poolID (conn i p)) (order (registered p))")
  case None
  then have "r = None" "p' = p" using assms(6) by (auto simp: pickIdle_def pick_first_find)
  moreover have "\<not> (\<exists>i \<in> set (registered p). usable poolID (conn i p))"
    using None permutes_set [OF assms(2)] by (auto simp: find_None_iff)
  ultimately show ?thesis by simp
next
  case (Some i)
  then have r: "r = Some i" "p' = set_conn i (spent turnID (conn i p)) p"
    using assms(6) by (auto simp: pickIdle_def pick_first_find)
  have i: "i \<in> set (registered p)" "usable poolID (conn i p)" "i < length (wp_heap p)"
    using find_some_prop [OF Some] permutes_set [OF assms(2)] assms(1) by (auto simp: pool_ok_def)
  have reg: "registered p' = registered p" by (simp add: r(2))
  have c: "conn j p' = (if j = i then spent turnID (conn i p) else conn j p)" for j
    by (simp add: r(2) conn_set_conn [OF i(3)])
  have "\<forall>j \<in> set (registered p). (cn_active_turn (conn j p') = turnID \<and> \<not> cn_closed (conn j p')) = (j = i)"
    using assms(5) i(2) by (auto simp: c spent_def usable_def)
  then have "activeConn order' turnID p' = find (\<lambda>j. j = i) (order' (registered p))"
    unfolding activeConn_def reg using permutes_set [OF assms(3)] by (intro find_cong) auto
  moreover have "find (\<lambda>j. j = i) (order' (registered p)) = Some i"
    using i(1) permutes_set [OF assms(3)] find_some_prop [of "\<lambda>j. j = i" "order' (registered p)"]
    by (cases "find (\<lambda>j. j = i) (order' (registered p))") (auto simp: find_None_iff)
  ultimately show ?thesis using i(1,2) assms(4) by (simp add: r(1) c reg) (simp add: usable_def spent_def)
qed

definition example_pool :: workerPool where
  "example_pool =
     snd (snd (add_conn (new_conn ''p'' ''b'' 2 0)
       \<lparr>wp_heap = [(new_conn ''p'' ''a'' 1 0)\<lparr>cn_idle := True, cn_credit_advertised := True, cn_workspace_observed := True\<rparr>],
        wp_conns = [(''p/a'', 0)], wp_workspace_gated = [(''p'', False)]\<rparr>))"

lemmas example_pool_simps = example_pool_def add_conn_def new_conn_def workerKey_def map_set_def Let_def registered_def conn_def

theorem pickIdle_spec_example:
  "fst (pickIdle rev ''p'' ''t'' example_pool) = Some 0
   \<and> activeConn (\<lambda>is. is) ''t'' (snd (pickIdle rev ''p'' ''t'' example_pool)) = Some 0"
proof -
  have r: "fst (pickIdle rev ''p'' ''t'' example_pool) = Some 0"
    by (simp add: pickIdle_def example_pool_simps tryConsumeCredit_def)
  have "pool_ok example_pool" "permutes_conns rev example_pool" "permutes_conns (\<lambda>is. is) example_pool"
    "\<forall>j \<in> set (registered example_pool). cn_active_turn (conn j example_pool) \<noteq> ''t''"
    by (simp_all add: pool_ok_def permutes_conns_def example_pool_simps)
  from pickIdle_spec [OF this(1-3) _ this(4), of "''p''" "Some 0" "snd (pickIdle rev ''p'' ''t'' example_pool)"] r
  show ?thesis by (simp add: prod_eq_iff)
qed

end
