(* ===== verification/Spec2Isabelle.thy ===== *)
theory Spec2Isabelle
  imports Runtime_Properties Workflow_Properties Workflow_Store_Properties Work_Properties Dispatch_Properties Dispatch_Pool
begin

text \<open>
  A verification of the control plane of Iterabase, the Go program under
  \<^verbatim>\<open>src/control-plane/\<close>: the stores that hold the durable state of workflow execution.

  \<^bold>\<open>The program.\<close> A workflow is published as an immutable graph of agent tasks and human
  gates. A customer starts a work item; an attempt snapshots the graph, the models, the tools
  and the value model, and executes one node at a time. An agent task is a turn of the durable
  runtime, given to a worker; its reported outcome selects the next edge. Every handler is one
  PostgreSQL transaction (or a few) around plain Go code, so the program is modelled as
  functions from a database to an error or a result and a new database.

  \<^bold>\<open>The theories and the code.\<close>
  \<^item> \<open>Prelude\<close>: tables as lists of rows, transactions with rollback, JSON values, and
    \<open>lifecycle\<close>, the contract of a table whose rows move along a state machine.
  \<^item> \<open>Runtime_Store\<close>, \<open>Runtime_Lifecycle\<close>, \<open>Runtime_Properties\<close>:
    \<^verbatim>\<open>internal/runtime/store.go\<close>. Runs, steps, turns and the event log
    (\<open>runtime_db\<close>), each method of \<^verbatim>\<open>runtime.Store\<close> under its own name.
  \<^item> \<open>Json_Decode\<close>, \<open>Workflow_Graph\<close>, \<open>Workflow_Properties\<close>:
    \<^verbatim>\<open>internal/workflow/graph.go\<close> with the resource types it reads and what it uses
    of \<^verbatim>\<open>encoding/json\<close> and \<^verbatim>\<open>time.ParseDuration\<close>. \<open>ValidateGraph\<close>
    makes the checks of the source in its order.
  \<^item> \<open>Workflow_Store\<close>, \<open>Workflow_Store_Properties\<close>:
    \<^verbatim>\<open>internal/workflow/store.go\<close>. Definitions and trigger bindings (\<open>workflow_db\<close>).
  \<^item> \<open>Work_Tables\<close>, \<open>Work_Graph\<close>, \<open>Work_Store\<close>, \<open>Work_Commands\<close>:
    \<^verbatim>\<open>internal/work/\<close> (\<^verbatim>\<open>types.go\<close>, \<^verbatim>\<open>graph.go\<close>, \<^verbatim>\<open>store.go\<close>,
    \<^verbatim>\<open>commands.go\<close>, \<^verbatim>\<open>query.go\<close>, \<^verbatim>\<open>assignment.go\<close>, \<^verbatim>\<open>value.go\<close>).
    \<open>work_db\<close> extends \<open>runtime_db\<close>, so the runtime's operations act on it as they are.
  \<^item> \<open>Work_Invariants\<close>, \<open>Work_Steps\<close>, \<open>Work_Example\<close>, \<open>Work_Properties\<close>:
    the invariant of graph execution, the steps of the whole control plane, a concrete history
    and the properties.
  \<^item> \<open>Dispatch_Store\<close>, \<open>Dispatch_Steps\<close>, \<open>Dispatch_Example\<close>,
    \<open>Dispatch_Properties\<close>: \<^verbatim>\<open>internal/dispatch/store.go\<close>. Assignments of turns to
    workers, sandbox users of sessions, the capacity gate and the worker pools
    (\<open>dispatch_db\<close>, which extends \<open>work_db\<close>), the steps of a control plane with
    workers, a concrete history and the properties.
  \<^item> \<open>Dispatch_Pool\<close>: \<^verbatim>\<open>internal/dispatch/workerpool.go\<close>. The live connections,
    as objects of a heap, with their one credit and the capacity gate that suspends it.

  \<^bold>\<open>How the code is represented.\<close> A struct is a record with the source's fields, an enum
  a datatype, a table the list of its rows. A unique index, a foreign key or a CHECK that a
  statement would break is an error branch. A method that begins a transaction is
  \<open>run_tx fault body\<close>: \<open>fault\<close> says that a database round trip failed, and every
  error leaves the database as it was. \<^verbatim>\<open>now()\<close>, generated identifiers and PostgreSQL's
  rounding of a product are arguments. Identifiers are strings that are well-formed UUIDs in
  the program; the model does not parse them. Columns that hold JSON the code itself wrote
  from a typed value are kept as that value. Every locale is a contract between components
  (\<open>lifecycle\<close>, \<open>event_log\<close>) and is interpreted on the definitions of the stores.

  \<^bold>\<open>What is shown.\<close>
  \<^item> Runtime: the reachable databases satisfy the keys, references and partial unique
    indexes; a terminal row never changes and the first terminal writer wins; settling a turn
    does on each branch what its specification says and always can be done; the log is gapless,
    resumable and records the states of the runs.
  \<^item> Workflow: \<open>ValidateGraph\<close> accepts exactly the well-formed graphs; in such a graph
    every outcome has one route and every node can finish; its walk is reachability. Published
    versions are immutable, have one owner and read back as registered; replacing bindings
    refines set replacement.
  \<^item> Work: the executions of an attempt are a walk of its graph, bounded by the
    transition limit, with the active one last; the estimated value is a credit or nothing; a
    repeated visit needs a confirmation of the earlier external writes; starting work is
    idempotent by key and payload.
  \<^item> Dispatch: two sessions with assigned turns never share a sandbox user, under any
    interleaving with the statements of an allocation; a turn is bound to one worker and
    generation for ever; a replayed worker event changes nothing; the capacity gate is the
    20/25 percent hysteresis of the observations; a history of the dispatcher is a history of
    the work store. A connection is given at most as many turns as it has advertised credits,
    and a worker is found whenever one of the pool has a credit.

  \<^bold>\<open>Bounds and fuel.\<close> No definition uses fuel; the eight attempts of the allocation
  loop are the bound the source itself has. The recursion of the schema walk and of
  the breadth-first \<open>walk\<close> is justified by measures (the size of a schema, the number of
  unseen nodes). Integers of the model are unbounded where the program's are 64-bit counters of
  rows, sequence numbers and money in millionths, which its columns bound.

  \<^bold>\<open>Not modelled.\<close> Code that is I/O around these stores: HTTP and RPC handlers, worker
  streams, Kubernetes reconcilers, process wiring, the inference gateway's proxy, the installer.
  Identity and sessions, which rest on cryptographic packages. The free-text search of work
  items and the dashboard report, which are SQL over the text of JSON documents and over
  calendar ranges. Third-party code is a parameter: compiling a JSON schema, validating a
  document against one, and the digest of a payload.
\<close>

end
